(* ===== verification/SomeIP_Prelude.thy ===== *)
theory SomeIP_Prelude
  imports Main "HOL-Library.Word"
begin

text \<open>
  Shared vocabulary of the development: the machine integer types of the C++ sources, the
  object representation of an integer in the memory of a host of either byte order, the
  outcomes of C++ code that aborts or leaves the defined language, and the list facts that
  the components share. Nothing in this theory translates code of the repository; it holds
  what the sources take from the language and its standard library.

  Collections:
  \<^item> \<open>byte_simps\<close>: byte-level encodings and their lengths;
  \<^item> \<open>buffer_simps\<close>: contents of buffers after each buffer and serializer operation;
  \<^item> \<open>wire_simps\<close>: what a reader returns on bytes that start with an encoding.
\<close>

named_theorems byte_simps
named_theorems buffer_simps
named_theorems wire_simps

section \<open>Machine integers and their object representation\<close>

type_synonym u8 = "8 word"
type_synonym u16 = "16 word"
type_synonym u32 = "32 word"
type_synonym u64 = "64 word"

text \<open>The byte order of the machine the program runs on.\<close>

datatype endianness = LittleEndian | BigEndian

text \<open>\<open>sizeof\<close> of an integer type, and its bytes from the least significant one up.\<close>

definition sizeof_word :: "'a::len word \<Rightarrow> nat" where
  "sizeof_word w = LENGTH('a) div 8"

definition bytes_le :: "'a::len word \<Rightarrow> u8 list" where
  "bytes_le w = map (\<lambda>i. ucast (drop_bit (8 * i) w)) [0..<LENGTH('a) div 8]"

definition bytes_be :: "'a::len word \<Rightarrow> u8 list" where
  "bytes_be w = rev (bytes_le w)"

fun word_of_bytes_le :: "u8 list \<Rightarrow> 'a::len word" where
  "word_of_bytes_le [] = 0"
| "word_of_bytes_le (b # bs) = or (ucast b) (push_bit 8 (word_of_bytes_le bs))"

definition word_of_bytes_be :: "u8 list \<Rightarrow> 'a::len word" where
  "word_of_bytes_be bs = word_of_bytes_le (rev bs)"

text \<open>The bytes an integer object occupies in memory, and the value read back from them.\<close>

fun object_bytes :: "endianness \<Rightarrow> 'a::len word \<Rightarrow> u8 list" where
  "object_bytes LittleEndian w = bytes_le w"
| "object_bytes BigEndian w = bytes_be w"

fun object_value :: "endianness \<Rightarrow> u8 list \<Rightarrow> 'a::len word" where
  "object_value LittleEndian bs = word_of_bytes_le bs"
| "object_value BigEndian bs = word_of_bytes_be bs"

lemma length_bytes_le [simp, byte_simps]: "length (bytes_le (w :: 'a::len word)) = LENGTH('a) div 8"
  by (simp add: bytes_le_def)

lemma length_bytes_be [simp, byte_simps]: "length (bytes_be (w :: 'a::len word)) = LENGTH('a) div 8"
  by (simp add: bytes_be_def)

lemma length_object_bytes [simp, byte_simps]:
  "length (object_bytes h (w :: 'a::len word)) = LENGTH('a) div 8"
  by (cases h) simp_all

lemma bit_word_of_bytes_le:
  "bit (word_of_bytes_le bs :: 'a::len word) n \<longleftrightarrow>
     n < LENGTH('a) \<and> n < 8 * length bs \<and> bit (bs ! (n div 8)) (n mod 8)"
proof (induction bs arbitrary: n)
  case Nil
  then show ?case by simp
next
  case (Cons b bs)
  show ?case
  proof (cases "n < 8")
    case True
    then show ?thesis by (auto simp: bit_or_iff bit_push_bit_iff bit_unsigned_iff)
  next
    case False
    then have "n div 8 = Suc ((n - 8) div 8)" and "n mod 8 = (n - 8) mod 8"
      by (simp_all add: le_div_geq le_mod_geq)
    with False Cons.IH [of "n - 8"] show ?thesis
      by (auto simp: bit_or_iff bit_push_bit_iff bit_unsigned_iff dest: bit_imp_le_length)
  qed
qed

lemma word_of_bytes_le_bytes_le [simp]:
  assumes "8 dvd LENGTH('a)"
  shows "word_of_bytes_le (bytes_le (w :: 'a::len word)) = w"
proof (rule bit_word_eqI)
  fix n
  assume n: "n < LENGTH('a)"
  from assms have sz: "8 * (LENGTH('a) div 8) = LENGTH('a)" by simp
  with n have i: "n div 8 < LENGTH('a) div 8"
    by (metis less_mult_imp_div_less mult.commute)
  then have "bytes_le w ! (n div 8) = ucast (drop_bit (8 * (n div 8)) w)"
    by (simp add: bytes_le_def)
  moreover have "8 * (n div 8) + n mod 8 = n" by simp
  ultimately show "bit (word_of_bytes_le (bytes_le w) :: 'a word) n = bit w n"
    using n sz by (simp add: bit_word_of_bytes_le bit_unsigned_iff bit_drop_bit_eq)
qed

lemma word_of_bytes_be_bytes_be [simp]:
  "8 dvd LENGTH('a) \<Longrightarrow> word_of_bytes_be (bytes_be (w :: 'a::len word)) = w"
  by (simp add: word_of_bytes_be_def bytes_be_def)

lemma object_value_object_bytes [simp]:
  "8 dvd LENGTH('a) \<Longrightarrow> object_value h (object_bytes h (w :: 'a::len word)) = w"
  by (cases h) simp_all

lemma bytes_le_word_of_bytes_le:
  assumes "length bs = LENGTH('a) div 8"
  shows "bytes_le (word_of_bytes_le bs :: 'a::len word) = bs"
proof (rule nth_equalityI)
  show "length (bytes_le (word_of_bytes_le bs :: 'a word)) = length bs"
    using assms by simp
next
  fix i
  assume "i < length (bytes_le (word_of_bytes_le bs :: 'a word))"
  then have i: "i < length bs" and i': "i < LENGTH('a) div 8" using assms by simp_all
  have le: "8 * length bs \<le> LENGTH('a)" using assms by simp
  show "bytes_le (word_of_bytes_le bs :: 'a word) ! i = bs ! i"
  proof (rule bit_word_eqI)
    fix n
    assume "n < LENGTH(8)"
    then have n: "n < 8" by simp
    with i have "8 * i + n < 8 * length bs" by linarith
    with n le i' show "bit (bytes_le (word_of_bytes_le bs :: 'a word) ! i) n = bit (bs ! i) n"
      by (simp add: bytes_le_def bit_unsigned_iff bit_drop_bit_eq bit_word_of_bytes_le)
  qed
qed

lemma bytes_be_word_of_bytes_be:
  "length bs = LENGTH('a) div 8 \<Longrightarrow> bytes_be (word_of_bytes_be bs :: 'a::len word) = bs"
  by (simp add: bytes_be_def word_of_bytes_be_def bytes_le_word_of_bytes_le)

lemma object_bytes_object_value:
  "length bs = LENGTH('a) div 8 \<Longrightarrow> object_bytes h (object_value h bs :: 'a::len word) = bs"
  by (cases h) (simp_all add: bytes_le_word_of_bytes_le bytes_be_word_of_bytes_be)

lemma bytes_le_u8 [simp, byte_simps]: "bytes_le (b :: u8) = [b]"
  by (simp add: bytes_le_def)

lemma bytes_be_u8 [simp, byte_simps]: "bytes_be (b :: u8) = [b]"
  by (simp add: bytes_be_def)

lemma object_bytes_u8 [simp, byte_simps]: "object_bytes h (b :: u8) = [b]"
  by (cases h) simp_all

lemma upt_2_4: "[0..<2] = [0, 1::nat]" "[0..<4] = [0, 1, 2, 3::nat]"
  by (simp_all add: upt_rec [of _ 2] upt_rec [of _ 4])

lemma bytes_le_u16 [byte_simps]: "bytes_le (w :: u16) = [ucast w, ucast (drop_bit 8 w)]"
  by (simp add: bytes_le_def upt_2_4)

lemma bytes_le_u32 [byte_simps]:
  "bytes_le (w :: u32) =
     [ucast w, ucast (drop_bit 8 w), ucast (drop_bit 16 w), ucast (drop_bit 24 w)]"
  by (simp add: bytes_le_def upt_2_4)

section \<open>Outcomes of code that does not return\<close>

text \<open>
  The sources stop in ways that are not return codes: a failed \<open>assert\<close> (the build files
  never define \<open>NDEBUG\<close>), a dereference of a null pointer, an access outside the object a
  pointer or iterator refers to, a use of an object that has been deleted, and an exception
  nobody catches. Each is a value of the model.
\<close>

datatype fault = AssertFailed | NullDereference | OutOfBounds | UseAfterFree | ExceptionThrown

type_synonym 'a result = "fault + 'a"

definition bindE :: "'a result \<Rightarrow> ('a \<Rightarrow> 'b result) \<Rightarrow> 'b result" where
  "bindE m f = (case m of Inl e \<Rightarrow> Inl e | Inr x \<Rightarrow> f x)"

lemma bindE_simps [simp]:
  "bindE (Inl e) f = Inl e"
  "bindE (Inr x) f = f x"
  by (simp_all add: bindE_def)

lemma bindE_eq_Inr: "bindE m f = Inr y \<longleftrightarrow> (\<exists>x. m = Inr x \<and> f x = Inr y)"
  by (cases m) simp_all

text \<open>A C++ range-based \<open>for\<close> over a list with a fallible body.\<close>

fun foldE :: "('a \<Rightarrow> 's \<Rightarrow> 's result) \<Rightarrow> 'a list \<Rightarrow> 's \<Rightarrow> 's result" where
  "foldE f [] s = Inr s"
| "foldE f (x # xs) s = bindE (f x s) (foldE f xs)"

lemma foldE_append: "foldE f (xs @ ys) s = bindE (foldE f xs s) (foldE f ys)"
  by (induction xs arbitrary: s) (auto simp: bindE_def split: sum.splits)

lemma foldE_invariant:
  assumes "foldE f xs s = Inr s'" and "P s"
    and "\<And>x s s'. x \<in> set xs \<Longrightarrow> P s \<Longrightarrow> f x s = Inr s' \<Longrightarrow> P s'"
  shows "P s'"
  using assms by (induction xs arbitrary: s) (auto simp: bindE_eq_Inr)

text \<open>
  Blocking code: \<open>None\<close> is a call that has not returned, because the outcomes of the system
  calls to come are used up, or because a loop does not end.
\<close>

definition bindW :: "'a result option \<Rightarrow> ('a \<Rightarrow> 'b result option) \<Rightarrow> 'b result option" where
  "bindW m f = (case m of None \<Rightarrow> None | Some (Inl e) \<Rightarrow> Some (Inl e) | Some (Inr x) \<Rightarrow> f x)"

lemma bindW_simps [simp]:
  "bindW None f = None"
  "bindW (Some (Inl e)) f = Some (Inl e)"
  "bindW (Some (Inr x)) f = f x"
  by (simp_all add: bindW_def)

lemma bindW_eq_Some_Inr: "bindW m f = Some (Inr y) \<longleftrightarrow> (\<exists>x. m = Some (Inr x) \<and> f x = Some (Inr y))"
  by (cases m) (auto simp: bindW_def split: option.splits sum.splits)

section \<open>Lists\<close>

text \<open>\<open>memcpy\<close> of \<open>src\<close> into the array \<open>xs\<close> at \<open>pos\<close>, where the target range exists.\<close>

definition memcpy_at :: "'a list \<Rightarrow> nat \<Rightarrow> 'a list \<Rightarrow> 'a list" where
  "memcpy_at xs pos src =
     (if pos + length src \<le> length xs
      then take pos xs @ src @ drop (pos + length src) xs else xs)"

lemma length_memcpy_at [simp]: "length (memcpy_at xs pos src) = length xs"
  by (simp add: memcpy_at_def)

lemma memcpy_at_append:
  "length old = length src \<Longrightarrow> memcpy_at (pre @ old @ post) (length pre) src = pre @ src @ post"
  by (simp add: memcpy_at_def)

lemma take_memcpy_at_end:
  "pos + length src \<le> length xs \<Longrightarrow>
   take (pos + length src) (memcpy_at xs pos src) = take pos xs @ src"
  by (simp add: memcpy_at_def)

lemma take_memcpy_at:
  assumes "pos + length src \<le> n" and "n \<le> length xs"
  shows "take n (memcpy_at xs pos src) = memcpy_at (take n xs) pos src"
proof -
  have "pos + length src \<le> length xs" using assms by linarith
  then show ?thesis using assms by (simp add: memcpy_at_def drop_take take_append min_absorb1)
qed

text \<open>
  \<open>std::vector::resize\<close>: elements are dropped from the end or value-initialised ones added.
\<close>

definition vector_resize :: "'a::zero list \<Rightarrow> nat \<Rightarrow> 'a list" where
  "vector_resize xs n = take n xs @ replicate (n - length xs) 0"

lemma length_vector_resize [simp]: "length (vector_resize xs n) = n"
  by (simp add: vector_resize_def)

lemma vector_resize_grow:
  "length xs \<le> n \<Longrightarrow> vector_resize xs n = xs @ replicate (n - length xs) 0"
  by (simp add: vector_resize_def)

lemma vector_resize_shrink: "n \<le> length xs \<Longrightarrow> vector_resize xs n = take n xs"
  by (simp add: vector_resize_def)

end
