(* ===== verification/Byte_Array.thy ===== *)
theory Byte_Array
  imports SomeIP_Prelude
begin

text \<open>
  \<open>SomeIP_utils::ByteArray\<close> of \<open>utilLib/common.h\<close>, the byte buffer under every serializer,
  message and output queue: a buffer of 1024 bytes inside the object for small contents, a
  heap-allocated vector once the contents have outgrown it. Also \<open>removeFromVector\<close> and the
  byte-order helpers of the same file.

  The specification is the locale \<open>byte_buffer\<close>: a buffer stands for a list of bytes and
  each operation is the obvious list operation. The interpretation \<open>ba\<close> at the end shows
  that \<open>ByteArray\<close> keeps this promise across the change of representation.
\<close>

section \<open>Byte-order helpers\<close>

text \<open>\<open>isNativeBigEndian\<close>: looks at the first byte of a \<open>short int\<close> holding 1.\<close>

definition isNativeBigEndian :: "endianness \<Rightarrow> bool" where
  "isNativeBigEndian h = (hd (object_bytes h (1 :: u16)) \<noteq> 1)"

text \<open>\<open>swapBytes\<close>: the loop exchanges \<open>chars[i]\<close> and \<open>chars[length - i - 1]\<close>.\<close>

fun swapBytes_loop :: "nat \<Rightarrow> u8 list \<Rightarrow> u8 list" where
  "swapBytes_loop 0 chars = chars"
| "swapBytes_loop (Suc n) chars =
     (let i = length chars div 2 - Suc n; j = length chars - i - 1
      in swapBytes_loop n (chars[i := chars ! j, j := chars ! i]))"

definition swapBytes :: "u8 list \<Rightarrow> u8 list" where
  "swapBytes chars = swapBytes_loop (length chars div 2) chars"

definition NativeToNetworkOrder :: "endianness \<Rightarrow> 'a::len word \<Rightarrow> 'a word" where
  "NativeToNetworkOrder h v =
     (if isNativeBigEndian h then v else object_value h (swapBytes (object_bytes h v)))"

definition NetworkToNativeOrder :: "endianness \<Rightarrow> 'a::len word \<Rightarrow> 'a word" where
  "NetworkToNativeOrder h v =
     (if isNativeBigEndian h then v else object_value h (swapBytes (object_bytes h v)))"

section \<open>Vectors of pointers\<close>

text \<open>\<open>removeFromVector\<close>: removes the first occurrence, if there is one.\<close>

fun removeFromVector :: "'p list \<Rightarrow> 'p \<Rightarrow> 'p list" where
  "removeFromVector [] p = []"
| "removeFromVector (x # xs) p = (if p = x then xs else x # removeFromVector xs p)"

section \<open>The buffer\<close>

record ByteArray =
  m_dynamicData :: "u8 list option"
  m_staticData :: "u8 list"
  m_length :: u64

definition STATIC_DATA_SIZE :: nat where
  "STATIC_DATA_SIZE = 1024"

definition ByteArray_new :: ByteArray where
  "ByteArray_new =
     \<lparr>m_dynamicData = None, m_staticData = replicate STATIC_DATA_SIZE 0, m_length = 0\<rparr>"

definition usesStaticBuffer :: "ByteArray \<Rightarrow> bool" where
  "usesStaticBuffer b = (m_dynamicData b = None)"

definition ba_size :: "ByteArray \<Rightarrow> nat" where
  "ba_size b = (case m_dynamicData b of None \<Rightarrow> unat (m_length b) | Some v \<Rightarrow> length v)"

text \<open>The array \<open>getData()\<close> points to, and the array after it has been written through.\<close>

definition getData :: "ByteArray \<Rightarrow> u8 list" where
  "getData b = (case m_dynamicData b of None \<Rightarrow> m_staticData b | Some v \<Rightarrow> v)"

definition setData :: "ByteArray \<Rightarrow> u8 list \<Rightarrow> ByteArray" where
  "setData b d = (case m_dynamicData b of
       None \<Rightarrow> b\<lparr>m_staticData := d\<rparr> | Some _ \<Rightarrow> b\<lparr>m_dynamicData := Some d\<rparr>)"

definition ba_resize :: "ByteArray \<Rightarrow> nat \<Rightarrow> ByteArray" where
  "ba_resize b n =
     (case m_dynamicData b of
        Some v \<Rightarrow> b\<lparr>m_dynamicData := Some (vector_resize v n)\<rparr>
      | None \<Rightarrow>
          (if n \<le> STATIC_DATA_SIZE then b\<lparr>m_length := of_nat n\<rparr>
           else b\<lparr>m_dynamicData :=
                    Some (memcpy_at (vector_resize [] n) 0 (take (unat (m_length b)) (m_staticData b))),
                  m_length := -1\<rparr>))"

text \<open>\<open>writeAt\<close> asserts on \<open>m_length\<close>, which is not the size once the vector is in use.\<close>

definition ba_writeAt :: "ByteArray \<Rightarrow> nat \<Rightarrow> u8 list \<Rightarrow> ByteArray result" where
  "ba_writeAt b position raw =
     (if m_length b \<ge> of_nat (position + length raw)
      then Inr (setData b (memcpy_at (getData b) position raw)) else Inl AssertFailed)"

definition ba_append :: "ByteArray \<Rightarrow> u8 list \<Rightarrow> ByteArray" where
  "ba_append b raw =
     (let i = ba_size b; b' = ba_resize b (ba_size b + length raw)
      in setData b' (memcpy_at (getData b') i raw))"

text \<open>\<open>append(unsigned char)\<close>.\<close>

definition ba_append_byte :: "ByteArray \<Rightarrow> u8 \<Rightarrow> ByteArray" where
  "ba_append_byte b v =
     (let i = ba_size b; b' = ba_resize b (ba_size b + 1)
      in setData b' ((getData b')[i := v]))"

definition ba_skip :: "ByteArray \<Rightarrow> nat \<Rightarrow> nat \<times> ByteArray" where
  "ba_skip b n = (ba_size b, ba_append b (replicate n 0))"

text \<open>The copy constructor and the assignment operator.\<close>

definition ba_copy :: "ByteArray \<Rightarrow> ByteArray" where
  "ba_copy b = ba_append ByteArray_new (take (ba_size b) (getData b))"

definition ba_assign :: "ByteArray \<Rightarrow> ByteArray \<Rightarrow> ByteArray" where
  "ba_assign b right =
     (let b' = ba_resize b (ba_size right)
      in setData b' (memcpy_at (getData b') 0 (take (ba_size right) (getData right))))"

text \<open>\<open>memcpy\<close> to \<open>getData() + position\<close>, as the serializers use it.\<close>

definition ba_poke :: "ByteArray \<Rightarrow> nat \<Rightarrow> u8 list \<Rightarrow> ByteArray" where
  "ba_poke b position raw = setData b (memcpy_at (getData b) position raw)"

section \<open>What a byte buffer promises\<close>

text \<open>
  \<open>contents\<close> is the list a buffer stands for. \<open>invar\<close> is the well-formedness the
  operations rely on and keep.
\<close>

definition contents :: "ByteArray \<Rightarrow> u8 list" where
  "contents b = take (ba_size b) (getData b)"

definition ba_invar :: "ByteArray \<Rightarrow> bool" where
  "ba_invar b =
     (length (m_staticData b) = STATIC_DATA_SIZE \<and>
      (m_dynamicData b = None \<longrightarrow> unat (m_length b) \<le> STATIC_DATA_SIZE))"

locale byte_buffer =
  fixes new :: 'b
    and sz :: "'b \<Rightarrow> nat"
    and append :: "'b \<Rightarrow> u8 list \<Rightarrow> 'b"
    and poke :: "'b \<Rightarrow> nat \<Rightarrow> u8 list \<Rightarrow> 'b"
    and clear :: "'b \<Rightarrow> 'b"
    and bytes :: "'b \<Rightarrow> u8 list"
    and invar :: "'b \<Rightarrow> bool"
  assumes bytes_new: "bytes new = []"
    and invar_new: "invar new"
    and size_bytes: "invar b \<Longrightarrow> sz b = length (bytes b)"
    and bytes_append: "invar b \<Longrightarrow> bytes (append b xs) = bytes b @ xs"
    and invar_append: "invar b \<Longrightarrow> invar (append b xs)"
    and bytes_poke: "invar b \<Longrightarrow> i + length xs \<le> length (bytes b) \<Longrightarrow>
       bytes (poke b i xs) = memcpy_at (bytes b) i xs"
    and invar_poke: "invar b \<Longrightarrow> invar (poke b i xs)"
    and bytes_clear: "invar b \<Longrightarrow> bytes (clear b) = []"
    and invar_clear: "invar b \<Longrightarrow> invar (clear b)"
begin

text \<open>
  Reserving a field, writing a body behind it and filling the field in afterwards: the
  pattern of every length field of the protocol.
\<close>

lemma fill_reserved:
  assumes "invar b" and "length field = n"
  shows "bytes (poke (append (append b (replicate n 0)) body) (sz b) field)
           = bytes b @ field @ body"
proof -
  let ?r = "append (append b (replicate n 0)) body"
  have inv: "invar ?r" and r: "bytes ?r = bytes b @ replicate n 0 @ body"
    using assms(1) by (simp_all add: invar_append bytes_append)
  have "bytes (poke ?r (sz b) field) = memcpy_at (bytes b @ replicate n 0 @ body) (length (bytes b)) field"
    using assms inv r by (simp add: bytes_poke size_bytes)
  also have "\<dots> = bytes b @ field @ body"
    using assms(2) by (intro memcpy_at_append) simp
  finally show ?thesis .
qed

lemma append_append:
  "invar b \<Longrightarrow> bytes (append (append b xs) ys) = bytes (append b (xs @ ys))"
  by (simp add: bytes_append invar_append)

end

section \<open>The byte array implements the byte buffer\<close>

lemma unat_of_nat_small [simp]: "n \<le> 1024 \<Longrightarrow> unat (of_nat n :: u64) = n"
  by (simp add: unat_of_nat take_bit_nat_eq_self)

lemma ba_invar_new [simp]: "ba_invar ByteArray_new"
  by (simp add: ba_invar_def ByteArray_new_def)

lemma contents_new [simp]: "contents ByteArray_new = []"
  by (simp add: contents_def ba_size_def ByteArray_new_def)

lemma ba_size_contents: "ba_invar b \<Longrightarrow> ba_size b = length (contents b)"
  by (auto simp: contents_def ba_size_def getData_def ba_invar_def STATIC_DATA_SIZE_def split: option.splits)

lemma ba_invar_resize [simp]: "ba_invar b \<Longrightarrow> ba_invar (ba_resize b n)"
  by (auto simp: ba_invar_def ba_resize_def STATIC_DATA_SIZE_def split: option.splits)

lemma ba_size_resize [simp]: "ba_invar b \<Longrightarrow> ba_size (ba_resize b n) = n"
  by (auto simp: ba_invar_def ba_resize_def ba_size_def STATIC_DATA_SIZE_def split: option.splits)

lemma ba_size_le_data: "ba_invar b \<Longrightarrow> ba_size b \<le> length (getData b)"
  by (auto simp: ba_invar_def ba_size_def getData_def STATIC_DATA_SIZE_def split: option.splits)

lemma getData_setData [simp]: "getData (setData b d) = d"
  by (auto simp: getData_def setData_def split: option.splits)

lemma ba_size_setData [simp]: "length d = length (getData b) \<Longrightarrow> ba_size (setData b d) = ba_size b"
  by (auto simp: ba_size_def getData_def setData_def split: option.splits)

lemma ba_invar_setData [simp]:
  "ba_invar b \<Longrightarrow> length d = length (getData b) \<Longrightarrow> ba_invar (setData b d)"
  by (auto simp: ba_invar_def getData_def setData_def split: option.splits)

text \<open>Growing keeps the old contents in front, whichever representation is in use.\<close>

lemma resize_keeps_prefix:
  assumes "ba_invar b" and "ba_size b \<le> n"
  shows "take (ba_size b) (getData (ba_resize b n)) = contents b"
proof (cases "m_dynamicData b")
  case (Some v)
  with assms show ?thesis
    by (simp add: contents_def ba_size_def getData_def ba_resize_def vector_resize_grow)
next
  case None
  show ?thesis
  proof (cases "n \<le> STATIC_DATA_SIZE")
    case True
    with None show ?thesis
      by (simp add: contents_def ba_size_def getData_def ba_resize_def)
  next
    case False
    with None assms show ?thesis
      by (simp add: contents_def ba_size_def getData_def ba_resize_def ba_invar_def memcpy_at_def min_def)
  qed
qed

lemma contents_resize_shrink:
  assumes "ba_invar b" and "n \<le> ba_size b"
  shows "contents (ba_resize b n) = take n (contents b)"
  using assms
  by (auto simp: contents_def ba_size_def getData_def ba_resize_def ba_invar_def vector_resize_shrink
      STATIC_DATA_SIZE_def min_def split: option.splits)

lemma ba_invar_append [simp]: "ba_invar b \<Longrightarrow> ba_invar (ba_append b xs)"
  by (simp add: ba_append_def Let_def)

lemma contents_append [simp, buffer_simps]:
  assumes "ba_invar b"
  shows "contents (ba_append b xs) = contents b @ xs"
proof -
  let ?r = "ba_resize b (ba_size b + length xs)"
  have r: "ba_invar ?r" and s: "ba_size ?r = ba_size b + length xs" using assms by simp_all
  then have le: "ba_size b + length xs \<le> length (getData ?r)" using ba_size_le_data [OF r] by simp
  have "contents (ba_append b xs) = take (ba_size b + length xs) (memcpy_at (getData ?r) (ba_size b) xs)"
    using s by (simp add: contents_def ba_append_def Let_def)
  also have "\<dots> = take (ba_size b) (getData ?r) @ xs" using le by (rule take_memcpy_at_end)
  also have "\<dots> = contents b @ xs" using assms by (simp add: resize_keeps_prefix)
  finally show ?thesis .
qed

lemma ba_append_byte_eq: "ba_invar b \<Longrightarrow> ba_append_byte b v = ba_append b [v]"
  using ba_size_le_data [of "ba_resize b (ba_size b + 1)"]
  by (simp add: ba_append_byte_def ba_append_def Let_def memcpy_at_def upd_conv_take_nth_drop)

lemma ba_invar_poke [simp]: "ba_invar b \<Longrightarrow> ba_invar (ba_poke b i xs)"
  by (simp add: ba_poke_def)

lemma contents_poke [simp, buffer_simps]:
  assumes "ba_invar b" and "i + length xs \<le> length (contents b)"
  shows "contents (ba_poke b i xs) = memcpy_at (contents b) i xs"
proof -
  have "i + length xs \<le> ba_size b" using assms ba_size_contents by simp
  with assms ba_size_le_data [of b] show ?thesis
    by (simp add: contents_def ba_poke_def take_memcpy_at)
qed

interpretation ba: byte_buffer ByteArray_new ba_size ba_append ba_poke "\<lambda>b. ba_resize b 0" contents ba_invar
  by unfold_locales (simp_all add: ba_size_contents contents_resize_shrink)

lemma ba_invar_copy [simp]: "ba_invar (ba_copy b)"
  by (simp add: ba_copy_def)

lemma contents_copy [simp, buffer_simps]: "contents (ba_copy b) = contents b"
  by (simp add: ba_copy_def) (simp add: contents_def)

lemma ba_invar_assign [simp]: "ba_invar b \<Longrightarrow> ba_invar (ba_assign b r)"
  by (simp add: ba_assign_def Let_def)

lemma contents_assign [simp, buffer_simps]:
  assumes "ba_invar b" and "ba_invar r"
  shows "contents (ba_assign b r) = contents r"
proof -
  let ?b = "ba_resize b (ba_size r)"
  have "ba_size r \<le> length (getData ?b)" using ba_size_le_data [of ?b] assms by simp
  moreover have "length (take (ba_size r) (getData r)) = ba_size r"
    using ba_size_le_data [OF assms(2)] by simp
  ultimately show ?thesis
    using assms by (simp add: contents_def ba_assign_def Let_def memcpy_at_def)
qed

lemma contents_skip [simp, buffer_simps]:
  "ba_invar b \<Longrightarrow> contents (snd (ba_skip b n)) = contents b @ replicate n 0"
  by (simp add: ba_skip_def)

lemma ba_invar_skip [simp]: "ba_invar b \<Longrightarrow> ba_invar (snd (ba_skip b n))"
  by (simp add: ba_skip_def)

lemma fst_skip: "ba_invar b \<Longrightarrow> fst (ba_skip b n) = length (contents b)"
  by (simp add: ba_skip_def ba_size_contents)

section \<open>Swapping bytes is reversal\<close>

lemma swapBytes_loop_length [simp]: "length (swapBytes_loop n xs) = length xs"
  by (induction n arbitrary: xs) (simp_all add: Let_def)

text \<open>The loop from index \<open>i\<close> on reverses the middle part and keeps both ends.\<close>

lemma swapBytes_loop_nth:
  assumes "n \<le> length xs div 2" and "k < length xs"
  shows "swapBytes_loop n xs ! k =
    (if length xs div 2 - n \<le> k \<and> k < length xs - (length xs div 2 - n)
     then xs ! (length xs - k - 1) else xs ! k)"
  using assms
proof (induction n arbitrary: xs)
  case 0
  then have "k < length xs - length xs div 2 \<Longrightarrow> length xs div 2 \<le> k \<Longrightarrow> length xs - k - 1 = k"
    by linarith
  then show ?case by auto
next
  case (Suc n)
  define m i j where "m = length xs" and "i = length xs div 2 - Suc n" and "j = m - i - 1"
  have i: "length xs div 2 - n = Suc i" "2 * i + 2 \<le> m"
    using Suc.prems by (auto simp: i_def m_def)
  then have ij: "i < j" "j < m" "k < m" "m - j - 1 = i" "i < m - i" "m - Suc i < m - i"
    using Suc.prems by (auto simp: j_def m_def)
  let ?ys = "xs[i := xs ! j, j := xs ! i]"
  have "swapBytes_loop (Suc n) xs ! k = swapBytes_loop n ?ys ! k"
    by (simp add: Let_def i_def j_def m_def)
  also have "\<dots> = (if Suc i \<le> k \<and> k < m - Suc i then ?ys ! (m - k - 1) else ?ys ! k)"
    using Suc.IH [of ?ys] Suc.prems i by (simp add: m_def)
  also have "\<dots> = (if i \<le> k \<and> k < m - i then xs ! (m - k - 1) else xs ! k)"
  proof -
    consider "k = i" | "k = j" | "k \<noteq> i" "k \<noteq> j" by blast
    then show ?thesis
    proof cases
      case 1
      with ij i show ?thesis by (simp add: j_def m_def)
    next
      case 2
      with ij i show ?thesis by (simp add: j_def m_def)
    next
      case 3
      then have "m - k - 1 \<noteq> i" "m - k - 1 \<noteq> j" "(Suc i \<le> k \<and> k < m - Suc i) = (i \<le> k \<and> k < m - i)"
        using ij i by (auto simp: j_def)
      with 3 show ?thesis by simp
    qed
  qed
  finally show ?case by (simp add: i_def m_def)
qed

lemma swapBytes_rev [simp]: "swapBytes xs = rev xs"
proof (rule nth_equalityI)
  show "length (swapBytes xs) = length (rev xs)" by (simp add: swapBytes_def)
  fix k assume "k < length (swapBytes xs)"
  then show "swapBytes xs ! k = rev xs ! k"
    by (simp add: swapBytes_def swapBytes_loop_nth rev_nth)
qed

lemma bytes_le_one_u16 [simp]: "bytes_le (1 :: u16) = [1, 0]"
  by (simp add: bytes_le_u16)

lemma isNativeBigEndian_simps [simp]:
  "isNativeBigEndian LittleEndian = False"
  "isNativeBigEndian BigEndian = True"
  by (simp_all add: isNativeBigEndian_def bytes_be_def)

text \<open>
  Whatever the host, the object a value is converted into occupies the big-endian bytes of
  the value, and conversion from the network undoes conversion to it.
\<close>

lemma object_bytes_network:
  "8 dvd LENGTH('a) \<Longrightarrow> object_bytes h (NativeToNetworkOrder h (v :: 'a::len word)) = bytes_be v"
  by (cases h) (simp_all add: NativeToNetworkOrder_def bytes_be_def bytes_le_word_of_bytes_le)

lemma NetworkToNativeOrder_object_value:
  "length bs = LENGTH('a) div 8 \<Longrightarrow>
   NetworkToNativeOrder h (object_value h bs :: 'a::len word) = word_of_bytes_be bs"
  by (cases h)
     (simp_all add: NetworkToNativeOrder_def bytes_le_word_of_bytes_le word_of_bytes_be_def)

section \<open>Removing from a vector\<close>

lemma removeFromVector_remove1: "removeFromVector xs p = remove1 p xs"
  by (induction xs) auto

end
