(* ===== verification/Serialization.thy ===== *)
theory Serialization
  imports Byte_Array "HOL-Library.Monad_Syntax"
begin

text \<open>
  The serializers of \<open>utilLib/serialization.h\<close>: \<open>Serializer\<close> and \<open>Deserializer\<close> with
  their two template parameters (byte order conversion, alignment), the network variants,
  the length placeholders, the 3-byte and 4-bit fields of service discovery entries.

  A serializer holds nothing but a reference to a \<open>ByteArray\<close>, so its operations take and
  return the array. A deserializer is a position in a byte string. Reading past the end of
  the string is not checked by the code; the model returns \<open>None\<close> there.

  \<open>dser pre rest\<close> is the deserializer that has consumed \<open>pre\<close> and still has \<open>rest\<close>:
  the facts of \<open>wire_simps\<close> say what each read returns on it. The locale \<open>wire_codec\<close>
  is the contract between a writer and a reader of one type.
\<close>

section \<open>Writing\<close>

record serializer_kind =
  convertToNetworkByteOrder :: bool
  alignmentNeeded :: bool
  host :: endianness

definition NetworkSerializer :: "endianness \<Rightarrow> serializer_kind" where
  "NetworkSerializer h =
     \<lparr>convertToNetworkByteOrder = True, alignmentNeeded = False, host = h\<rparr>"

definition writeRawData :: "ByteArray \<Rightarrow> u8 list \<Rightarrow> ByteArray" where
  "writeRawData b raw = ba_append b raw"

definition ser_skip :: "ByteArray \<Rightarrow> nat \<Rightarrow> ByteArray" where
  "ser_skip b n = snd (ba_skip b n)"

definition ser_alignToBoundary :: "ByteArray \<Rightarrow> nat \<Rightarrow> ByteArray" where
  "ser_alignToBoundary b boundary =
     (let paddingSize = ba_size b mod boundary in snd (ba_skip b paddingSize))"

definition writeBasicTypeValue :: "serializer_kind \<Rightarrow> ByteArray \<Rightarrow> 'a::len word \<Rightarrow> ByteArray" where
  "writeBasicTypeValue k b basicValue =
     (let b' = (if alignmentNeeded k then ser_alignToBoundary b (sizeof_word basicValue) else b);
          networkOrderedValue =
            (if convertToNetworkByteOrder k then NativeToNetworkOrder (host k) basicValue
             else basicValue)
      in writeRawData b' (object_bytes (host k) networkOrderedValue))"

definition writeRawDataAt :: "ByteArray \<Rightarrow> u8 list \<Rightarrow> nat \<Rightarrow> ByteArray" where
  "writeRawDataAt b raw position = ba_poke b position raw"

definition writeBasicTypeValueAt ::
    "serializer_kind \<Rightarrow> ByteArray \<Rightarrow> 'a::len word \<Rightarrow> nat \<Rightarrow> ByteArray" where
  "writeBasicTypeValueAt k b basicValue position =
     (let b' = (if alignmentNeeded k then ser_alignToBoundary b (sizeof_word basicValue) else b);
          networkOrderedValue =
            (if convertToNetworkByteOrder k then NativeToNetworkOrder (host k) basicValue
             else basicValue)
      in writeRawDataAt b' (object_bytes (host k) networkOrderedValue) position)"

text \<open>
  The overloads of \<open>writeValue\<close> for the integer types are one function on words (signed
  integers and floating point values by their object representation). \<open>bool\<close> is a byte
  holding 0 or 1; a string is written behind its length, a \<open>size_t\<close>.
\<close>

definition writeValue :: "serializer_kind \<Rightarrow> ByteArray \<Rightarrow> 'a::len word \<Rightarrow> ByteArray" where
  "writeValue k b v = writeBasicTypeValue k b v"

definition writeValue_bool :: "serializer_kind \<Rightarrow> ByteArray \<Rightarrow> bool \<Rightarrow> ByteArray" where
  "writeValue_bool k b v = writeBasicTypeValue k b (if v then 1 else 0 :: u8)"

definition writeValue_string :: "serializer_kind \<Rightarrow> ByteArray \<Rightarrow> u8 list \<Rightarrow> ByteArray" where
  "writeValue_string k b s =
     writeRawData (writeBasicTypeValue k b (of_nat (length s) :: u64)) s"

text \<open>\<open>writeEnum\<close>: the value in the underlying type of the enumeration, always \<open>uint8_t\<close> here.\<close>

definition writeEnum :: "serializer_kind \<Rightarrow> ('e \<Rightarrow> u8) \<Rightarrow> ByteArray \<Rightarrow> 'e \<Rightarrow> ByteArray" where
  "writeEnum k underlying b v = writeValue k b (underlying v)"

section \<open>Length placeholders\<close>

text \<open>
  \<open>PlaceHolder\<close> remembers the position of the bytes it reserves. \<open>LengthPlaceHolder\<close>
  writes there, when it goes out of scope, the number of bytes written since, less
  \<open>m_offset\<close>: a \<open>size_t\<close> computation, truncated to the type of the field.
\<close>

definition PlaceHolder_new :: "ByteArray \<Rightarrow> 'a::len itself \<Rightarrow> nat \<times> ByteArray" where
  "PlaceHolder_new b T = (ba_size b, ser_skip b (LENGTH('a) div 8))"

definition PlaceHolder_writeValue ::
    "serializer_kind \<Rightarrow> ByteArray \<Rightarrow> nat \<Rightarrow> 'a::len word \<Rightarrow> ByteArray" where
  "PlaceHolder_writeValue k b m_basePosition v = writeBasicTypeValueAt k b v m_basePosition"

definition LengthPlaceHolder_writeLength ::
    "serializer_kind \<Rightarrow> ByteArray \<Rightarrow> 'a::len itself \<Rightarrow> nat \<Rightarrow> nat \<Rightarrow> ByteArray" where
  "LengthPlaceHolder_writeLength k b T m_basePosition m_offset =
     (let len = of_nat (ba_size b) - of_nat m_basePosition - of_nat m_offset
                - of_nat (LENGTH('a) div 8) :: u64
      in PlaceHolder_writeValue k b m_basePosition (ucast len :: 'a word))"

text \<open>The scope of a \<open>LengthPlaceHolder\<close>: constructor, the code in the scope, destructor.\<close>

definition LengthPlaceHolder_scope ::
    "serializer_kind \<Rightarrow> 'a::len itself \<Rightarrow> nat \<Rightarrow> (ByteArray \<Rightarrow> ByteArray) \<Rightarrow> ByteArray \<Rightarrow> ByteArray" where
  "LengthPlaceHolder_scope k T m_offset body b =
     (let (m_basePosition, b) = PlaceHolder_new b T
      in LengthPlaceHolder_writeLength k (body b) T m_basePosition m_offset)"

section \<open>Fields narrower than their type\<close>

text \<open>\<open>LSBSerializer<BytesCount, Type>::serialize\<close>: the low bytes, most significant first.\<close>

fun LSBSerializer_loop :: "serializer_kind \<Rightarrow> nat \<Rightarrow> 'a::len word \<Rightarrow> ByteArray \<Rightarrow> ByteArray" where
  "LSBSerializer_loop k 0 m_value b = b"
| "LSBSerializer_loop k (Suc n) m_value b =
     LSBSerializer_loop k n m_value (writeValue k b (ucast (drop_bit (n * 8) m_value) :: u8))"

definition LSBSerializer_serialize ::
    "serializer_kind \<Rightarrow> nat \<Rightarrow> 'a::len word \<Rightarrow> ByteArray \<Rightarrow> ByteArray" where
  "LSBSerializer_serialize k BytesCount m_value b = LSBSerializer_loop k BytesCount m_value b"

definition Tuple4Bits4BitsReadOnly_serialize ::
    "serializer_kind \<Rightarrow> u8 \<Rightarrow> u8 \<Rightarrow> ByteArray \<Rightarrow> ByteArray" where
  "Tuple4Bits4BitsReadOnly_serialize k m_value1 m_value2 b =
     writeValue k b (push_bit 4 m_value1 + m_value2)"

section \<open>Reading\<close>

text \<open>\<open>des_payload\<close> is the string of \<open>m_length\<close> bytes the deserializer was built on.\<close>

record Deserializer =
  currentDataPosition :: nat
  des_payload :: "u8 list"

definition Deserializer_new :: "u8 list \<Rightarrow> Deserializer" where
  "Deserializer_new content = \<lparr>currentDataPosition = 0, des_payload = content\<rparr>"

definition des_alignToBoundary :: "Deserializer \<Rightarrow> nat \<Rightarrow> Deserializer" where
  "des_alignToBoundary d boundary =
     (let paddingSize = currentDataPosition d mod boundary
      in d\<lparr>currentDataPosition := currentDataPosition d + paddingSize\<rparr>)"

definition readRawData :: "Deserializer \<Rightarrow> nat \<Rightarrow> (u8 list \<times> Deserializer) option" where
  "readRawData d n =
     (if currentDataPosition d + n \<le> length (des_payload d)
      then Some (take n (drop (currentDataPosition d) (des_payload d)),
                 d\<lparr>currentDataPosition := currentDataPosition d + n\<rparr>)
      else None)"

text \<open>\<open>m_length - currentDataPosition\<close> in \<open>size_t\<close>.\<close>

definition remainingBytesCount :: "Deserializer \<Rightarrow> nat" where
  "remainingBytesCount d =
     (if currentDataPosition d \<le> length (des_payload d)
      then length (des_payload d) - currentDataPosition d
      else 2 ^ 64 - (currentDataPosition d - length (des_payload d)))"

definition hasMoreData :: "Deserializer \<Rightarrow> bool" where
  "hasMoreData d = (remainingBytesCount d > 0)"

definition readBasicTypeValue ::
    "serializer_kind \<Rightarrow> Deserializer \<Rightarrow> ('a::len word \<times> Deserializer) option" where
  "readBasicTypeValue k d =
     (let d = (if alignmentNeeded k then des_alignToBoundary d (LENGTH('a) div 8) else d)
      in do {
        (p, d) \<leftarrow> readRawData d (LENGTH('a) div 8);
        let val = object_value (host k) p;
        Some (if convertToNetworkByteOrder k then NetworkToNativeOrder (host k) val else val, d)
      })"

definition readValue :: "serializer_kind \<Rightarrow> Deserializer \<Rightarrow> ('a::len word \<times> Deserializer) option" where
  "readValue k d = readBasicTypeValue k d"

definition readValue_string :: "serializer_kind \<Rightarrow> Deserializer \<Rightarrow> (u8 list \<times> Deserializer) option" where
  "readValue_string k d = do {
     (len, d) \<leftarrow> (readBasicTypeValue k d :: (u64 \<times> Deserializer) option);
     readRawData d (unat len)
   }"

text \<open>\<open>readEnum\<close>: any byte is a value of an enumeration with underlying type \<open>uint8_t\<close>.\<close>

definition readEnum :: "serializer_kind \<Rightarrow> (u8 \<Rightarrow> 'e) \<Rightarrow> Deserializer \<Rightarrow> ('e \<times> Deserializer) option" where
  "readEnum k static_cast d = do {
     (valueAsInt, d) \<leftarrow> readValue k d;
     Some (static_cast valueAsInt, d)
   }"

text \<open>\<open>LSBDeserializer<BytesCount, Type>::deserialize\<close>.\<close>

fun LSBDeserializer_loop ::
    "serializer_kind \<Rightarrow> nat \<Rightarrow> 'a::len word \<Rightarrow> Deserializer \<Rightarrow> ('a word \<times> Deserializer) option" where
  "LSBDeserializer_loop k 0 m_value d = Some (m_value, d)"
| "LSBDeserializer_loop k (Suc n) m_value d = do {
     (v, d) \<leftarrow> (readValue k d :: (u8 \<times> Deserializer) option);
     LSBDeserializer_loop k n (push_bit 8 m_value + ucast v) d
   }"

definition LSBDeserializer_deserialize ::
    "serializer_kind \<Rightarrow> nat \<Rightarrow> Deserializer \<Rightarrow> ('a::len word \<times> Deserializer) option" where
  "LSBDeserializer_deserialize k BytesCount d = LSBDeserializer_loop k BytesCount 0 d"

definition Tuple4Bits4Bits_deserialize ::
    "serializer_kind \<Rightarrow> Deserializer \<Rightarrow> ((u8 \<times> u8) \<times> Deserializer) option" where
  "Tuple4Bits4Bits_deserialize k d = do {
     (v, d) \<leftarrow> readValue k d;
     Some ((drop_bit 4 v, and v 0xF), d)
   }"

section \<open>What is written\<close>

text \<open>The bytes of a value on a stream of the given kind, alignment aside.\<close>

definition enc :: "serializer_kind \<Rightarrow> 'a::len word \<Rightarrow> u8 list" where
  "enc k v = (if convertToNetworkByteOrder k then bytes_be v else object_bytes (host k) v)"

definition plain :: "serializer_kind \<Rightarrow> bool" where
  "plain k = (\<not> alignmentNeeded k)"

lemma plain_NetworkSerializer [simp]: "plain (NetworkSerializer h)"
  by (simp add: plain_def NetworkSerializer_def)

lemma enc_network [simp, byte_simps]: "enc (NetworkSerializer h) v = bytes_be v"
  by (simp add: enc_def NetworkSerializer_def)

lemma length_enc [simp, byte_simps]: "length (enc k (v :: 'a::len word)) = LENGTH('a) div 8"
  by (simp add: enc_def)

lemma enc_u8 [simp, byte_simps]: "enc k (v :: u8) = [v]"
  by (simp add: enc_def)

text \<open>An integer type of \<open>stdint.h\<close>: a whole number of bytes.\<close>

abbreviation byte_multiple :: "'a::len itself \<Rightarrow> bool" where
  "byte_multiple T \<equiv> 8 dvd LENGTH('a)"

lemma object_bytes_converted:
  assumes "byte_multiple TYPE('a)"
  shows "object_bytes (host k)
    (if convertToNetworkByteOrder k then NativeToNetworkOrder (host k) v else v :: 'a::len word) = enc k v"
  using assms by (simp add: enc_def object_bytes_network)

lemma contents_writeRawData [simp, buffer_simps]:
  "ba_invar b \<Longrightarrow> contents (writeRawData b xs) = contents b @ xs"
  by (simp add: writeRawData_def)

lemma ba_invar_writeRawData [simp]: "ba_invar b \<Longrightarrow> ba_invar (writeRawData b xs)"
  by (simp add: writeRawData_def)

lemma writeBasicTypeValue_plain:
  "plain k \<Longrightarrow> byte_multiple TYPE('a) \<Longrightarrow>
   writeBasicTypeValue k b (v :: 'a::len word) = writeRawData b (enc k v)"
  by (simp add: writeBasicTypeValue_def Let_def plain_def object_bytes_converted)

lemma writeValue_plain:
  "plain k \<Longrightarrow> byte_multiple TYPE('a) \<Longrightarrow> writeValue k b (v :: 'a::len word) = writeRawData b (enc k v)"
  by (simp add: writeValue_def writeBasicTypeValue_plain)

lemma contents_writeValue [simp, buffer_simps]:
  "ba_invar b \<Longrightarrow> plain k \<Longrightarrow> byte_multiple TYPE('a) \<Longrightarrow>
   contents (writeValue k b (v :: 'a::len word)) = contents b @ enc k v"
  by (simp add: writeValue_plain)

lemma contents_writeEnum [simp, buffer_simps]:
  "ba_invar b \<Longrightarrow> plain k \<Longrightarrow> contents (writeEnum k u b e) = contents b @ [u e]"
  by (simp add: writeEnum_def)

lemma ba_invar_writeValue [simp]: "ba_invar b \<Longrightarrow> ba_invar (writeValue k b v)"
  by (simp add: writeValue_def writeBasicTypeValue_def ser_alignToBoundary_def Let_def)

lemma ba_invar_writeEnum [simp]: "ba_invar b \<Longrightarrow> ba_invar (writeEnum k u b e)"
  by (simp add: writeEnum_def)

lemma contents_writeValue_string [simp, buffer_simps]:
  "ba_invar b \<Longrightarrow> plain k \<Longrightarrow>
   contents (writeValue_string k b s) = contents b @ enc k (of_nat (length s) :: u64) @ s"
  by (simp add: writeValue_string_def writeBasicTypeValue_plain)

lemma ba_invar_writeValue_string [simp]: "ba_invar b \<Longrightarrow> ba_invar (writeValue_string k b s)"
  by (simp add: writeValue_string_def writeBasicTypeValue_def ser_alignToBoundary_def Let_def)

text \<open>The big-endian bytes of the low \<open>n\<close> bytes of a word.\<close>

definition low_bytes :: "nat \<Rightarrow> 'a::len word \<Rightarrow> u8 list" where
  "low_bytes n w = rev (map (\<lambda>i. ucast (drop_bit (8 * i) w)) [0..<n])"

lemma length_low_bytes [simp, byte_simps]: "length (low_bytes n w) = n"
  by (simp add: low_bytes_def)

lemma low_bytes_Suc: "low_bytes (Suc n) w = ucast (drop_bit (8 * n) w) # low_bytes n w"
  by (simp add: low_bytes_def)

lemma ba_invar_LSBSerializer [simp]:
  "ba_invar b \<Longrightarrow> ba_invar (LSBSerializer_serialize k n w b)"
  unfolding LSBSerializer_serialize_def by (induction n arbitrary: b) simp_all

lemma contents_LSBSerializer [simp, buffer_simps]:
  "ba_invar b \<Longrightarrow> plain k \<Longrightarrow> contents (LSBSerializer_serialize k n w b) = contents b @ low_bytes n w"
  unfolding LSBSerializer_serialize_def
  by (induction n arbitrary: b) (simp_all add: low_bytes_Suc low_bytes_def [of 0] mult.commute)

lemma ba_invar_Tuple4Bits [simp]:
  "ba_invar b \<Longrightarrow> ba_invar (Tuple4Bits4BitsReadOnly_serialize k v1 v2 b)"
  by (simp add: Tuple4Bits4BitsReadOnly_serialize_def)

lemma contents_Tuple4Bits [simp, buffer_simps]:
  "ba_invar b \<Longrightarrow> plain k \<Longrightarrow>
   contents (Tuple4Bits4BitsReadOnly_serialize k v1 v2 b) = contents b @ [push_bit 4 v1 + v2]"
  by (simp add: Tuple4Bits4BitsReadOnly_serialize_def)

subsection \<open>The length placeholder\<close>

text \<open>
  A body that only appends, written behind a placeholder: the placeholder ends up holding
  the length of the body less the offset, and everything else is untouched.
\<close>

lemma contents_LengthPlaceHolder:
  fixes b :: ByteArray and T :: "'a::len itself"
  assumes b: "ba_invar b" and b': "ba_invar b'" and k: "plain k" and a: "byte_multiple TYPE('a)"
    and body: "contents b' = contents (snd (PlaceHolder_new b T)) @ body"
  shows "contents (LengthPlaceHolder_writeLength k b' T (fst (PlaceHolder_new b T)) off)
    = contents b @ enc k (ucast (of_nat (length body) - of_nat off :: u64) :: 'a word) @ body"
proof -
  let ?n = "LENGTH('a) div 8"
  have c: "contents b' = contents b @ replicate ?n 0 @ body"
    using body b by (simp add: PlaceHolder_new_def ser_skip_def)
  have base: "fst (PlaceHolder_new b T) = length (contents b)"
    using b by (simp add: PlaceHolder_new_def ba_size_contents)
  let ?f = "enc k (ucast (of_nat (length body) - of_nat off :: u64) :: 'a word)"
  have sz: "of_nat (ba_size b') - of_nat (length (contents b)) - of_nat off - of_nat ?n
      = (of_nat (length body) - of_nat off :: u64)"
    using b' c by (simp add: ba_size_contents)
  have "LengthPlaceHolder_writeLength k b' T (fst (PlaceHolder_new b T)) off
      = ba_poke b' (length (contents b)) ?f"
    unfolding LengthPlaceHolder_writeLength_def PlaceHolder_writeValue_def
      writeBasicTypeValueAt_def writeRawDataAt_def Let_def base sz object_bytes_converted [OF a]
    using k by (simp add: plain_def)
  then show ?thesis
    using b' c by (simp add: memcpy_at_append)
qed

lemma ba_invar_LengthPlaceHolder [simp]:
  "ba_invar b \<Longrightarrow> ba_invar (LengthPlaceHolder_writeLength k b T n off)"
  by (simp add: LengthPlaceHolder_writeLength_def PlaceHolder_writeValue_def
      writeBasicTypeValueAt_def writeRawDataAt_def ser_alignToBoundary_def Let_def)

lemma ba_invar_PlaceHolder [simp]: "ba_invar b \<Longrightarrow> ba_invar (snd (PlaceHolder_new b T))"
  by (simp add: PlaceHolder_new_def ser_skip_def)

definition appends :: "(ByteArray \<Rightarrow> ByteArray) \<Rightarrow> u8 list \<Rightarrow> bool" where
  "appends body bs = (\<forall>b. ba_invar b \<longrightarrow> ba_invar (body b) \<and> contents (body b) = contents b @ bs)"

lemma appends_scope:
  assumes "appends body bs" and "plain k" and "byte_multiple TYPE('a)"
  shows "appends (LengthPlaceHolder_scope k TYPE('a::len) off body)
    (enc k (ucast (of_nat (length bs) - of_nat off :: u64) :: 'a word) @ bs)"
  unfolding appends_def LengthPlaceHolder_scope_def
proof (intro allI impI)
  fix b :: ByteArray assume b: "ba_invar b"
  let ?p = "PlaceHolder_new b TYPE('a)"
  have "ba_invar (body (snd ?p))" "contents (body (snd ?p)) = contents (snd ?p) @ bs"
    using assms(1) b by (simp_all add: appends_def)
  with contents_LengthPlaceHolder [OF b, where T = "TYPE('a)"] assms(2,3)
  show "ba_invar (let (m, b) = ?p in LengthPlaceHolder_writeLength k (body b) TYPE('a) m off)
    \<and> contents (let (m, b) = ?p in LengthPlaceHolder_writeLength k (body b) TYPE('a) m off)
      = contents b @ enc k (ucast (of_nat (length bs) - of_nat off :: u64) :: 'a word) @ bs"
    by (simp add: case_prod_unfold Let_def)
qed

section \<open>What is read\<close>

definition dser :: "u8 list \<Rightarrow> u8 list \<Rightarrow> Deserializer" where
  "dser pre rest = \<lparr>currentDataPosition = length pre, des_payload = pre @ rest\<rparr>"

lemma Deserializer_new_dser: "Deserializer_new bs = dser [] bs"
  by (simp add: Deserializer_new_def dser_def)

lemma readRawData_dser [wire_simps]:
  "length xs = n \<Longrightarrow> readRawData (dser pre (xs @ rest)) n = Some (xs, dser (pre @ xs) rest)"
  by (simp add: readRawData_def dser_def)

lemma readRawData_short: "length rest < n \<Longrightarrow> readRawData (dser pre rest) n = None"
  by (simp add: readRawData_def dser_def)

lemma readRawData_Some:
  "readRawData d n = Some (xs, d') \<Longrightarrow>
   length xs = n \<and> des_payload d' = des_payload d \<and> currentDataPosition d' = currentDataPosition d + n
   \<and> currentDataPosition d' \<le> length (des_payload d)"
  by (auto simp: readRawData_def split: if_splits)

lemma remainingBytesCount_dser [simp, wire_simps]: "remainingBytesCount (dser pre rest) = length rest"
  by (simp add: remainingBytesCount_def dser_def)

lemma hasMoreData_dser [simp, wire_simps]: "hasMoreData (dser pre rest) = (rest \<noteq> [])"
  by (simp add: hasMoreData_def)

lemma readBasicTypeValue_dser [wire_simps]:
  assumes "plain k" and "byte_multiple TYPE('a)"
  shows "readBasicTypeValue k (dser pre (enc k (v :: 'a::len word) @ rest)) = Some (v, dser (pre @ enc k v) rest)"
proof -
  have "(if convertToNetworkByteOrder k then NetworkToNativeOrder (host k) (object_value (host k) (enc k v))
         else object_value (host k) (enc k v)) = v"
    using assms(2) by (simp add: enc_def NetworkToNativeOrder_object_value)
  with assms(1) show ?thesis
    by (simp add: readBasicTypeValue_def plain_def readRawData_dser)
qed

lemma readValue_dser [wire_simps]:
  "plain k \<Longrightarrow> byte_multiple TYPE('a) \<Longrightarrow>
   readValue k (dser pre (enc k (v :: 'a::len word) @ rest)) = Some (v, dser (pre @ enc k v) rest)"
  by (simp add: readValue_def readBasicTypeValue_dser)

lemma readValue_network [wire_simps]:
  "byte_multiple TYPE('a) \<Longrightarrow>
   readValue (NetworkSerializer h) (dser pre (bytes_be (v :: 'a::len word) @ rest))
     = Some (v, dser (pre @ bytes_be v) rest)"
  using readValue_dser [of "NetworkSerializer h" pre v rest] by simp

lemma readValue_byte [wire_simps]:
  "plain k \<Longrightarrow> readValue k (dser pre (v # rest)) = Some (v :: u8, dser (pre @ [v]) rest)"
  using readValue_dser [of k pre v rest] by simp

text \<open>A read that succeeds consumes at least one byte and never runs past the end.\<close>

definition forward :: "Deserializer \<Rightarrow> Deserializer \<Rightarrow> bool" where
  "forward d d' = (des_payload d' = des_payload d \<and> currentDataPosition d < currentDataPosition d'
     \<and> currentDataPosition d' \<le> length (des_payload d))"

lemma readValue_progress:
  assumes "plain k" and "readValue k d = Some (v :: 'a::len word, d')"
  shows "des_payload d' = des_payload d"
    and "currentDataPosition d' = currentDataPosition d + LENGTH('a) div 8"
    and "currentDataPosition d' \<le> length (des_payload d)"
  using assms
  by (auto simp: readValue_def readBasicTypeValue_def plain_def Let_def
      dest: readRawData_Some split: bind_splits)

lemma readValue_forward:
  "readValue k d = Some (v :: 'a::len word, d') \<Longrightarrow> plain k \<Longrightarrow> 8 \<le> LENGTH('a) \<Longrightarrow> forward d d'"
  using readValue_progress [of k d v d'] by (auto simp: forward_def div_greater_zero_iff)

lemma readEnum_forward: "readEnum k c d = Some (v, d') \<Longrightarrow> plain k \<Longrightarrow> forward d d'"
  by (auto simp: readEnum_def split: bind_splits dest: readValue_forward)

lemma forward_trans: "forward d d' \<Longrightarrow> forward d' d'' \<Longrightarrow> forward d d''"
  by (auto simp: forward_def)

lemma ucast_ucast_u8: "ucast (ucast (x :: 'a::len word) :: u8) = take_bit 8 x"
  by (rule bit_word_eqI) (auto simp: bit_simps)

lemma take_bit_split:
  "push_bit n (take_bit m (drop_bit n (w :: 'a::len word))) + take_bit n w = take_bit (n + m) w"
proof -
  have "and (push_bit n (take_bit m (drop_bit n w))) (take_bit n w) = 0"
    by (rule bit_word_eqI) (auto simp: bit_simps)
  then have "push_bit n (take_bit m (drop_bit n w)) + take_bit n w
      = or (push_bit n (take_bit m (drop_bit n w))) (take_bit n w)"
    by (simp add: disjunctive_add_eq_or)
  also have "\<dots> = take_bit (n + m) w"
    by (rule bit_word_eqI) (auto simp: bit_simps)
  finally show ?thesis .
qed

lemma LSBDeserializer_loop_dser:
  assumes "plain k"
  shows "LSBDeserializer_loop k n a (dser pre (low_bytes n (w :: 'a::len word) @ rest))
    = Some (push_bit (8 * n) a + take_bit (8 * n) w, dser (pre @ low_bytes n w) rest)"
proof (induction n arbitrary: a pre)
  case 0
  then show ?case by (simp add: low_bytes_def)
next
  case (Suc n)
  let ?b = "ucast (drop_bit (8 * n) w) :: u8"
  have "push_bit (8 * n) (push_bit 8 a + ucast ?b) + take_bit (8 * n) w
      = push_bit (8 * Suc n) a + take_bit (8 * Suc n) w"
    using take_bit_split [of "8 * n" 8 w]
    by (simp add: ucast_ucast_u8 push_bit_add add.assoc add.commute)
  with Suc.IH [of "push_bit 8 a + ucast ?b" "pre @ [?b]"] show ?case
    using assms by (simp add: low_bytes_Suc readValue_byte)
qed

text \<open>Only the low bytes survive the trip: a 32-bit time to live comes back modulo \<open>2 ^ 24\<close>.\<close>

lemma LSBDeserializer_dser [wire_simps]:
  "plain k \<Longrightarrow> LSBDeserializer_deserialize k n (dser pre (low_bytes n (w :: 'a::len word) @ rest))
    = Some (take_bit (8 * n) w, dser (pre @ low_bytes n w) rest)"
  by (simp add: LSBDeserializer_deserialize_def LSBDeserializer_loop_dser)

lemma LSBDeserializer_loop_forward:
  "LSBDeserializer_loop k (Suc n) a d = Some (v, d') \<Longrightarrow> plain k \<Longrightarrow> forward d d'"
proof (induction n arbitrary: a d)
  case (Suc n)
  then obtain w d1 where "readValue k d = Some (w :: u8, d1)"
    and "LSBDeserializer_loop k (Suc n) (push_bit 8 a + ucast w) d1 = Some (v, d')"
    by (auto split: bind_splits)
  with Suc show ?case by (auto dest!: readValue_forward intro: forward_trans)
qed (auto split: bind_splits dest: readValue_forward)

lemma LSBDeserializer_forward:
  "LSBDeserializer_deserialize k (Suc n) d = Some (v, d') \<Longrightarrow> plain k \<Longrightarrow> forward d d'"
  unfolding LSBDeserializer_deserialize_def by (rule LSBDeserializer_loop_forward)

lemma Tuple4Bits4Bits_forward: "Tuple4Bits4Bits_deserialize k d = Some (v, d') \<Longrightarrow> plain k \<Longrightarrow> forward d d'"
  by (auto simp: Tuple4Bits4Bits_deserialize_def split: bind_splits dest: readValue_forward)

text \<open>A reader that, started at \<open>d\<close>, ends at \<open>d\<close> or further on: one step per read of its body.\<close>

definition stays :: "('v \<times> Deserializer) option \<Rightarrow> Deserializer \<Rightarrow> bool" where
  "stays r d = (\<forall>v d'. r = Some (v, d') \<longrightarrow> d' = d \<or> forward d d')"

lemma stays_Some: "stays (Some (v, d)) d"
  by (simp add: stays_def)

lemma stays_bind: "stays r d \<Longrightarrow> (\<And>x d'. stays (f x d') d') \<Longrightarrow> stays (Option.bind r (\<lambda>(x, d). f x d)) d"
  by (fastforce simp: stays_def bind_eq_Some_conv intro: forward_trans)

lemma stays_split: "(\<And>x y. stays (f x y d) d) \<Longrightarrow> stays ((case p of (x, y) \<Rightarrow> f x y) d) d"
  by (simp add: case_prod_unfold)

lemma stays_reads:
  "plain k \<Longrightarrow> 8 \<le> LENGTH('a) \<Longrightarrow> stays (readValue k d :: ('a::len word \<times> _) option) d"
  "plain k \<Longrightarrow> stays (readEnum k c d) d"
  "plain k \<Longrightarrow> stays (Tuple4Bits4Bits_deserialize k d) d"
  "plain k \<Longrightarrow> stays (LSBDeserializer_deserialize k (Suc n) d) d"
  by (auto simp: stays_def dest: readValue_forward readEnum_forward Tuple4Bits4Bits_forward
      LSBDeserializer_forward)

lemmas stays_intros = stays_bind stays_split stays_Some stays_reads

lemma forward_bind:
  "(\<And>v d'. r = Some (v, d') \<Longrightarrow> forward d d') \<Longrightarrow> (\<And>x d'. stays (f x d') d') \<Longrightarrow>
   Option.bind r (\<lambda>(x, d). f x d) = Some (v, d') \<Longrightarrow> forward d d'"
  by (fastforce simp: stays_def bind_eq_Some_conv intro: forward_trans)

lemma nibble_bit: "(v :: u8) < 16 \<Longrightarrow> bit v n \<Longrightarrow> n < 4"
proof -
  assume v: "v < 16" and n: "bit v n"
  from v have "v mod 16 = v" by (simp add: word_unat_eq_iff unat_mod_distrib word_less_nat_alt)
  then have "take_bit 4 v = v" by (simp add: take_bit_eq_mod)
  with n show "n < 4" by (metis bit_take_bit_iff)
qed

lemma nibbles:
  fixes v1 v2 :: u8
  assumes "v1 < 16" and "v2 < 16"
  shows "drop_bit 4 (push_bit 4 v1 + v2) = v1" and "and (push_bit 4 v1 + v2) 0xF = v2"
proof -
  note b = nibble_bit [OF assms(1)] nibble_bit [OF assms(2)]
  have "and (push_bit 4 v1) v2 = 0"
    by (rule bit_word_eqI) (auto simp: bit_simps dest: b)
  then have e: "push_bit 4 v1 + v2 = or (push_bit 4 v1) v2" by (simp add: disjunctive_add_eq_or)
  show "drop_bit 4 (push_bit 4 v1 + v2) = v1"
    unfolding e by (rule bit_word_eqI) (auto simp: bit_simps dest: b)
  have m: "(0xF :: 8 word) = mask 4" by (simp add: mask_eq_exp_minus_1)
  show "and (push_bit 4 v1 + v2) 0xF = v2"
    unfolding e m by (rule bit_word_eqI) (auto simp: bit_simps dest: b)
qed

lemma Tuple4Bits4Bits_dser [wire_simps]:
  "plain k \<Longrightarrow> v1 < 16 \<Longrightarrow> v2 < 16 \<Longrightarrow>
   Tuple4Bits4Bits_deserialize k (dser pre ((push_bit 4 v1 + v2) # rest))
     = Some ((v1, v2), dser (pre @ [push_bit 4 v1 + v2]) rest)"
  by (simp add: Tuple4Bits4Bits_deserialize_def readValue_byte nibbles)

lemma readValue_string_dser [wire_simps]:
  "plain k \<Longrightarrow> length s < 2 ^ 64 \<Longrightarrow>
   readValue_string k (dser pre (enc k (of_nat (length s) :: u64) @ s @ rest))
     = Some (s, dser (pre @ enc k (of_nat (length s) :: u64) @ s) rest)"
  by (simp add: readValue_string_def readBasicTypeValue_dser readRawData_dser unat_of_nat take_bit_nat_eq_self)

section \<open>The contract between a writer and a reader\<close>

text \<open>
  \<open>put\<close> appends the code of a value; \<open>get\<close>, on any string that starts with the code,
  returns the value as the receiver sees it and leaves the rest. \<open>ok\<close> is the set of values
  that can be sent, and \<open>seen\<close> what the wire keeps of them (a time to live of 32 bits has 24
  on the wire; an interface name is not sent at all).
\<close>

locale wire_codec =
  fixes put :: "ByteArray \<Rightarrow> 'v \<Rightarrow> ByteArray"
    and get :: "Deserializer \<Rightarrow> ('v \<times> Deserializer) option"
    and code :: "'v \<Rightarrow> u8 list"
    and ok :: "'v \<Rightarrow> bool"
    and seen :: "'v \<Rightarrow> 'v"
  assumes put_contents: "ba_invar b \<Longrightarrow> contents (put b v) = contents b @ code v"
    and put_invar: "ba_invar b \<Longrightarrow> ba_invar (put b v)"
    and get_code: "ok v \<Longrightarrow> get (dser pre (code v @ rest)) = Some (seen v, dser (pre @ code v) rest)"
begin

lemma round_trip:
  "ok v \<Longrightarrow> map_option fst (get (Deserializer_new (contents (put ByteArray_new v)))) = Some (seen v)"
  using get_code [of v "[]" "[]"] by (simp add: put_contents Deserializer_new_dser)

text \<open>No code is a proper prefix of another: a reader never mistakes where a value ends.\<close>

lemma prefix_free:
  assumes "ok v" and "ok w" and "code v @ r = code w @ r'"
  shows "seen v = seen w \<and> code v = code w"
proof -
  have "get (dser [] (code w @ r')) = Some (seen v, dser (code v) r)"
    using get_code [OF assms(1), of "[]" r] assms(3) by simp
  with get_code [OF assms(2), of "[]" r'] have "seen v = seen w" and "length (code v) = length (code w)"
    by (simp_all add: dser_def)
  with assms(3) show ?thesis by simp
qed

lemma invar_foldl: "ba_invar b \<Longrightarrow> ba_invar (foldl put b vs)"
  by (induction vs arbitrary: b) (simp_all add: put_invar)

lemma contents_foldl: "ba_invar b \<Longrightarrow> contents (foldl put b vs) = contents b @ concat (map code vs)"
  by (induction vs arbitrary: b) (simp_all add: put_invar put_contents)

end

text \<open>
  An enumeration with underlying type \<open>uint8_t\<close>, as a datatype with its enumerators and one
  more constructor for every other byte. A value is canonical when it is not an enumerator
  written with that constructor.
\<close>

definition canonical :: "('e \<Rightarrow> u8) \<Rightarrow> (u8 \<Rightarrow> 'e) \<Rightarrow> 'e \<Rightarrow> bool" where
  "canonical underlying static_cast e = (static_cast (underlying e) = e)"

locale wire_enum =
  fixes underlying :: "'e \<Rightarrow> u8"
    and static_cast :: "u8 \<Rightarrow> 'e"
  assumes underlying_cast: "underlying (static_cast b) = b"
begin

lemma canonical_cast: "canonical underlying static_cast (static_cast b)"
  by (simp add: canonical_def underlying_cast)

lemma underlying_inj:
  "canonical underlying static_cast e \<Longrightarrow> canonical underlying static_cast e' \<Longrightarrow>
   underlying e = underlying e' \<longleftrightarrow> e = e'"
  unfolding canonical_def by metis

lemma readEnum_byte:
  "plain k \<Longrightarrow> readEnum k static_cast (dser pre (b # rest)) = Some (static_cast b, dser (pre @ [b]) rest)"
  by (simp add: readEnum_def readValue_byte)

lemma enum_codec:
  "plain k \<Longrightarrow> wire_codec (writeEnum k underlying) (readEnum k static_cast) (\<lambda>e. [underlying e])
     (canonical underlying static_cast) (\<lambda>e. e)"
  by unfold_locales (simp_all add: writeEnum_def readEnum_byte canonical_def)

end

lemma word_codec:
  "plain k \<Longrightarrow> byte_multiple TYPE('a) \<Longrightarrow>
   wire_codec (writeValue k) (readValue k :: _ \<Rightarrow> ('a::len word \<times> _) option) (enc k) (\<lambda>_. True) (\<lambda>v. v)"
  by unfold_locales (simp_all add: readValue_dser)

interpretation net16: wire_codec "writeValue (NetworkSerializer h)"
  "readValue (NetworkSerializer h) :: _ \<Rightarrow> (u16 \<times> _) option" bytes_be "\<lambda>_. True" "\<lambda>v. v" for h
  using word_codec [where 'a = 16, of "NetworkSerializer h"] by (simp add: fun_eq_iff wire_codec_def)

interpretation net32: wire_codec "writeValue (NetworkSerializer h)"
  "readValue (NetworkSerializer h) :: _ \<Rightarrow> (u32 \<times> _) option" bytes_be "\<lambda>_. True" "\<lambda>v. v" for h
  using word_codec [where 'a = 32, of "NetworkSerializer h"] by (simp add: fun_eq_iff wire_codec_def)

section \<open>Properties\<close>

text \<open>
  C12. The wire format does not depend on the host: a network serializer on any host appends
  exactly the big-endian bytes of an integer to what the array held, and a network
  deserializer on any other host, standing behind what was there, reads the integer back and
  stops behind it, whatever follows.
\<close>

theorem network_order_portable:
  fixes v :: "'a::len word"
  assumes "ba_invar b" and "byte_multiple TYPE('a)"
  shows "contents (writeValue (NetworkSerializer h) b v) = contents b @ bytes_be v
    \<and> readValue (NetworkSerializer h')
          (dser (contents b) (drop (length (contents b)) (contents (writeValue (NetworkSerializer h) b v)) @ rest))
        = Some (v, dser (contents (writeValue (NetworkSerializer h) b v)) rest)"
  using assms by (simp add: readValue_network)

theorem network_order_portable_witness:
  "contents (writeValue (NetworkSerializer LittleEndian) ByteArray_new (0x0102 :: u16)) = [1, 2]"
  using network_order_portable [where h = LittleEndian, of ByteArray_new "0x0102 :: u16"]
  by (simp add: bytes_be_def bytes_le_u16 drop_bit_eq_div)

end
