(* ===== verification/SomeIP_Streams.thy ===== *)
theory SomeIP_Streams
  imports Serialization
begin

text \<open>
  The payload streams of \<open>lib/SomeIP-Serialization.h\<close>: \<open>SomeIPOutputStream\<close> and
  \<open>SomeIPInputStream\<close>, with their overloads of \<open><<\<close> and \<open>>>\<close> for strings, vectors,
  pairs and maps, and the variant deserializer. Both are network serializers; the element
  operations of the containers are arguments, as the templates resolve them by type.

  Inside \<open>wire_codec\<close> the container operations are shown to be codecs again, so that any
  nesting of them round-trips.
\<close>

section \<open>Operations\<close>

text \<open>\<open>operator<<\<close> and \<open>operator>>\<close> on the types \<open>writeValue\<close> and \<open>readValue\<close> handle.\<close>

definition stream_write :: "endianness \<Rightarrow> ByteArray \<Rightarrow> 'a::len word \<Rightarrow> ByteArray" where
  "stream_write h stream v = writeValue (NetworkSerializer h) stream v"

definition stream_read :: "endianness \<Rightarrow> Deserializer \<Rightarrow> ('a::len word \<times> Deserializer) option" where
  "stream_read h stream = readValue (NetworkSerializer h) stream"

definition stream_write_string :: "endianness \<Rightarrow> ByteArray \<Rightarrow> u8 list \<Rightarrow> ByteArray" where
  "stream_write_string h stream stringValue =
     (let stringLength = of_nat (length stringValue) :: u32;
          stream = writeValue (NetworkSerializer h) stream stringLength
      in writeRawData stream (take (unat stringLength) stringValue))"

text \<open>A \<open>const char*\<close> ends at its first zero byte.\<close>

definition stream_write_cstring :: "endianness \<Rightarrow> ByteArray \<Rightarrow> u8 list \<Rightarrow> ByteArray" where
  "stream_write_cstring h stream memory =
     stream_write_string h stream (takeWhile (\<lambda>c. c \<noteq> 0) memory)"

definition stream_write_vector ::
    "endianness \<Rightarrow> (ByteArray \<Rightarrow> 'v \<Rightarrow> ByteArray) \<Rightarrow> ByteArray \<Rightarrow> 'v list \<Rightarrow> ByteArray" where
  "stream_write_vector h write_element stream v =
     (let stream = writeValue (NetworkSerializer h) stream (of_nat (length v) :: u32)
      in foldl write_element stream v)"

definition stream_write_pair ::
    "(ByteArray \<Rightarrow> 'k \<Rightarrow> ByteArray) \<Rightarrow> (ByteArray \<Rightarrow> 'v \<Rightarrow> ByteArray)
     \<Rightarrow> ByteArray \<Rightarrow> 'k \<times> 'v \<Rightarrow> ByteArray" where
  "stream_write_pair write_first write_second stream v =
     (let stream = write_first stream (fst v) in write_second stream (snd v))"

text \<open>An \<open>unordered_map\<close> is written in its iteration order, here the list of its entries.\<close>

definition stream_write_map ::
    "endianness \<Rightarrow> (ByteArray \<Rightarrow> 'k \<Rightarrow> ByteArray) \<Rightarrow> (ByteArray \<Rightarrow> 'v \<Rightarrow> ByteArray)
     \<Rightarrow> ByteArray \<Rightarrow> ('k \<times> 'v) list \<Rightarrow> ByteArray" where
  "stream_write_map h write_key write_value stream entries =
     (let stream = writeValue (NetworkSerializer h) stream (of_nat (length entries) :: u32)
      in foldl (stream_write_pair write_key write_value) stream entries)"

definition stream_read_string :: "endianness \<Rightarrow> Deserializer \<Rightarrow> (u8 list \<times> Deserializer) option" where
  "stream_read_string h stream = do {
     (stringLength, stream) \<leftarrow> (readValue (NetworkSerializer h) stream :: (u32 \<times> Deserializer) option);
     readRawData stream (unat stringLength)
   }"

text \<open>The loop of the vector reader: it pushes behind what the vector already holds.\<close>

fun read_elements ::
    "(Deserializer \<Rightarrow> ('v \<times> Deserializer) option) \<Rightarrow> nat \<Rightarrow> 'v list \<Rightarrow> Deserializer
     \<Rightarrow> ('v list \<times> Deserializer) option" where
  "read_elements read_element 0 v stream = Some (v, stream)"
| "read_elements read_element (Suc n) v stream = do {
     (element, stream) \<leftarrow> read_element stream;
     read_elements read_element n (v @ [element]) stream
   }"

definition stream_read_vector ::
    "endianness \<Rightarrow> (Deserializer \<Rightarrow> ('v \<times> Deserializer) option) \<Rightarrow> 'v list \<Rightarrow> Deserializer
     \<Rightarrow> ('v list \<times> Deserializer) option" where
  "stream_read_vector h read_element v stream = do {
     (size, stream) \<leftarrow> (readValue (NetworkSerializer h) stream :: (u32 \<times> Deserializer) option);
     read_elements read_element (unat size) v stream
   }"

fun read_entries ::
    "(Deserializer \<Rightarrow> ('k \<times> Deserializer) option) \<Rightarrow> (Deserializer \<Rightarrow> ('v \<times> Deserializer) option)
     \<Rightarrow> nat \<Rightarrow> ('k \<rightharpoonup> 'v) \<Rightarrow> Deserializer \<Rightarrow> (('k \<rightharpoonup> 'v) \<times> Deserializer) option" where
  "read_entries read_key read_value 0 v stream = Some (v, stream)"
| "read_entries read_key read_value (Suc n) v stream = do {
     (key, stream) \<leftarrow> read_key stream;
     (val, stream) \<leftarrow> read_value stream;
     read_entries read_key read_value n (v(key \<mapsto> val)) stream
   }"

definition stream_read_map ::
    "endianness \<Rightarrow> (Deserializer \<Rightarrow> ('k \<times> Deserializer) option) \<Rightarrow> (Deserializer \<Rightarrow> ('v \<times> Deserializer) option)
     \<Rightarrow> ('k \<rightharpoonup> 'v) \<Rightarrow> Deserializer \<Rightarrow> (('k \<rightharpoonup> 'v) \<times> Deserializer) option" where
  "stream_read_map h read_key read_value v stream = do {
     (size, stream) \<leftarrow> (readValue (NetworkSerializer h) stream :: (u32 \<times> Deserializer) option);
     read_entries read_key read_value (unat size) v stream
   }"

text \<open>
  \<open>SomeIPVariantDeserializer\<close>: the alternatives are numbered from the end of the type list,
  the last one 1; no alternative is reached by \<open>assert(false)\<close>. A reader past the end of
  the data is \<open>Inl OutOfBounds\<close>.
\<close>

fun VariantDeserializer_index :: "'r list \<Rightarrow> u8" where
  "VariantDeserializer_index [] = 0"
| "VariantDeserializer_index (_ # types) = VariantDeserializer_index types + 1"

fun VariantDeserializer_deserialize ::
    "(Deserializer \<Rightarrow> ('v \<times> Deserializer) option) list \<Rightarrow> u8 \<Rightarrow> Deserializer
     \<Rightarrow> ('v \<times> Deserializer) result" where
  "VariantDeserializer_deserialize [] typeIndex inputStream = Inl AssertFailed"
| "VariantDeserializer_deserialize (type # types) typeIndex inputStream =
     (if typeIndex = VariantDeserializer_index (type # types)
      then case type inputStream of Some r \<Rightarrow> Inr r | None \<Rightarrow> Inl OutOfBounds
      else VariantDeserializer_deserialize types typeIndex inputStream)"

section \<open>Strings\<close>

definition string_code :: "u8 list \<Rightarrow> u8 list" where
  "string_code s = bytes_be (of_nat (length s) :: u32) @ take (unat (of_nat (length s) :: u32)) s"

lemma unat_of_nat_u32: "n < 2 ^ 32 \<Longrightarrow> unat (of_nat n :: u32) = n"
  by (simp add: unat_of_nat take_bit_nat_eq_self)

interpretation str: wire_codec "stream_write_string h" "stream_read_string h" string_code
  "\<lambda>s. length s < 2 ^ 32" "\<lambda>s. s" for h
  by unfold_locales
    (simp_all add: stream_write_string_def stream_read_string_def string_code_def Let_def
      readValue_network readRawData_dser unat_of_nat_u32)

interpretation s8: wire_codec "stream_write h" "stream_read h :: _ \<Rightarrow> (u8 \<times> _) option" "\<lambda>v. [v]" "\<lambda>_. True" "\<lambda>v. v" for h
  by unfold_locales (simp_all add: stream_write_def stream_read_def readValue_byte)

interpretation s16: wire_codec "stream_write h" "stream_read h :: _ \<Rightarrow> (u16 \<times> _) option" bytes_be "\<lambda>_. True" "\<lambda>v. v" for h
  by unfold_locales (simp_all add: stream_write_def stream_read_def readValue_network)

interpretation s32: wire_codec "stream_write h" "stream_read h :: _ \<Rightarrow> (u32 \<times> _) option" bytes_be "\<lambda>_. True" "\<lambda>v. v" for h
  by unfold_locales (simp_all add: stream_write_def stream_read_def readValue_network)

section \<open>Containers of any element that has a codec\<close>

definition vector_code :: "('v \<Rightarrow> u8 list) \<Rightarrow> 'v list \<Rightarrow> u8 list" where
  "vector_code code v = bytes_be (of_nat (length v) :: u32) @ concat (map code v)"

definition vector_ok :: "('v \<Rightarrow> bool) \<Rightarrow> 'v list \<Rightarrow> bool" where
  "vector_ok ok v = (length v < 2 ^ 32 \<and> list_all ok v)"

lemma foldl_map_upd: "distinct (map fst es) \<Longrightarrow> foldl (\<lambda>m (k, v). m(k \<mapsto> v)) m es = m ++ map_of es"
  by (induction es arbitrary: m) (auto simp: map_add_upd_left map_of_eq_None_iff dom_def image_iff)

context wire_codec
begin

lemma read_elements_code:
  "list_all ok v \<Longrightarrow>
   read_elements get (length v) v0 (dser pre (concat (map code v) @ rest))
     = Some (v0 @ map seen v, dser (pre @ concat (map code v)) rest)"
  by (induction v arbitrary: v0 pre) (simp_all add: get_code)

lemma read_vector_code:
  "vector_ok ok v \<Longrightarrow>
   stream_read_vector h get v0 (dser pre (vector_code code v @ rest))
     = Some (v0 @ map seen v, dser (pre @ vector_code code v) rest)"
  by (simp add: vector_ok_def vector_code_def stream_read_vector_def readValue_network
      unat_of_nat_u32 read_elements_code)

lemma vector_codec:
  "wire_codec (stream_write_vector h put) (stream_read_vector h get []) (vector_code code) (vector_ok ok)
     (map seen)"
  by unfold_locales
    (simp_all add: stream_write_vector_def vector_code_def contents_foldl invar_foldl
      read_vector_code [unfolded vector_code_def append_assoc])

end

locale wire_codec_pair = fst: wire_codec put1 get1 code1 ok1 seen1 + snd: wire_codec put2 get2 code2 ok2 seen2
  for put1 :: "ByteArray \<Rightarrow> 'k \<Rightarrow> ByteArray" and get1 code1 ok1 seen1
  and put2 :: "ByteArray \<Rightarrow> 'v \<Rightarrow> ByteArray" and get2 code2 ok2 seen2
begin

lemma pair_invar: "ba_invar b \<Longrightarrow> ba_invar (foldl (stream_write_pair put1 put2) b es)"
  by (induction es arbitrary: b) (simp_all add: stream_write_pair_def fst.put_invar snd.put_invar)

lemma pair_contents:
  "ba_invar b \<Longrightarrow> contents (foldl (stream_write_pair put1 put2) b es)
     = contents b @ concat (map (\<lambda>(k, v). code1 k @ code2 v) es)"
  by (induction es arbitrary: b)
    (auto simp: stream_write_pair_def fst.put_invar snd.put_invar fst.put_contents snd.put_contents)

lemma read_entries_code:
  "list_all (\<lambda>(k, v). ok1 k \<and> ok2 v) es \<Longrightarrow>
   read_entries get1 get2 (length es) m (dser pre (concat (map (\<lambda>(k, v). code1 k @ code2 v) es) @ rest))
     = Some (foldl (\<lambda>m (k, v). m(seen1 k \<mapsto> seen2 v)) m es, dser (pre @ concat (map (\<lambda>(k, v). code1 k @ code2 v) es)) rest)"
  by (induction es arbitrary: m pre) (auto simp: fst.get_code snd.get_code)

text \<open>What a map's entries, written in any iteration order, are read back as.\<close>

lemma map_round_trip:
  assumes "length es < 2 ^ 32" and "list_all (\<lambda>(k, v). ok1 k \<and> ok2 v) es"
    and "distinct (map (\<lambda>(k, v). seen1 k) es)"
  shows "map_option fst (stream_read_map h' get1 get2 Map.empty
           (Deserializer_new (contents (stream_write_map h put1 put2 ByteArray_new es))))
    = Some (map_of (map (\<lambda>(k, v). (seen1 k, seen2 v)) es))"
proof -
  let ?seen = "\<lambda>(k, v). (seen1 k, seen2 v)"
  have "foldl (\<lambda>m (k, v). m(seen1 k \<mapsto> seen2 v)) Map.empty es = map_of (map ?seen es)"
    using foldl_map_upd [of "map ?seen es" Map.empty] assms(3)
    by (simp add: foldl_map case_prod_unfold comp_def)
  then show ?thesis
    using assms read_entries_code [OF assms(2), of Map.empty "bytes_be (of_nat (length es) :: u32)" "[]"]
    by (simp add: stream_write_map_def stream_read_map_def pair_contents Deserializer_new_dser
        readValue_network unat_of_nat_u32)
qed

end

interpretation strmap: wire_codec_pair
  "stream_write_string h" "stream_read_string h" string_code "\<lambda>s. length s < 2 ^ 32" "\<lambda>s. s"
  "stream_write h" "stream_read h :: _ \<Rightarrow> (u32 \<times> _) option" bytes_be "\<lambda>_. True" "\<lambda>v. v" for h
  by unfold_locales

interpretation strvec: wire_codec "stream_write_vector h (stream_write_string h)"
  "stream_read_vector h (stream_read_string h) []" "vector_code string_code"
  "vector_ok (\<lambda>s. length s < 2 ^ 32)" "\<lambda>v. v" for h
  using str.vector_codec by simp

section \<open>The variant deserializer\<close>

lemma VariantDeserializer_index_length: "VariantDeserializer_index ts = of_nat (length ts)"
  by (induction ts) simp_all

lemma unat_of_nat_u8: "n < 256 \<Longrightarrow> unat (of_nat n :: u8) = n"
  by (simp add: unat_of_nat take_bit_nat_eq_self)

lemma VariantDeserializer_skip:
  "length (ss @ ts) < 256 \<Longrightarrow> unat i \<le> length ts \<Longrightarrow>
   VariantDeserializer_deserialize (ss @ ts) i d = VariantDeserializer_deserialize ts i d"
proof (induction ss)
  case (Cons s ss)
  have "unat (VariantDeserializer_index (s # ss @ ts)) = length (s # ss @ ts)"
    unfolding VariantDeserializer_index_length using Cons.prems(1) by (intro unat_of_nat_u8) simp
  with Cons.prems have "i \<noteq> VariantDeserializer_index (s # ss @ ts)" by auto
  with Cons show ?case by (simp del: VariantDeserializer_index.simps)
qed simp

section \<open>Properties\<close>

text \<open>
  C0. Containers nest: a vector of strings, each shorter than \<open>2 ^ 32\<close> bytes, written behind
  anything with \<open><<\<close> on one host and read with \<open>>>\<close> on another from where it starts, gives
  back the same strings in the same order behind those the vector already held, and leaves
  the stream at the first byte behind the vector.
\<close>

theorem string_vector_round_trip:
  assumes "ba_invar b" and "vector_ok (\<lambda>s. length s < 2 ^ 32) v"
  shows "stream_read_vector h' (stream_read_string h') held
      (dser (contents b) (drop (length (contents b))
         (contents (stream_write_vector h (stream_write_string h) b v)) @ rest))
    = Some (held @ v, dser (contents (stream_write_vector h (stream_write_string h) b v)) rest)"
  using assms by (simp add: strvec.put_contents str.read_vector_code)

theorem string_vector_round_trip_witness:
  "stream_read_vector BigEndian (stream_read_string BigEndian) [[0x61]]
      (dser [] (contents (stream_write_vector LittleEndian (stream_write_string LittleEndian)
         ByteArray_new [[0x62, 0x63], []]) @ [7]))
    = Some ([[0x61], [0x62, 0x63], []], dser (contents (stream_write_vector LittleEndian
         (stream_write_string LittleEndian) ByteArray_new [[0x62, 0x63], []])) [7])"
  using string_vector_round_trip [where h = LittleEndian and h' = BigEndian and rest = "[7]"
      and held = "[[0x61]]" and b = ByteArray_new and v = "[[0x62, 0x63], []]"]
  by (simp add: vector_ok_def)

text \<open>
  C26. The entries of a map from strings to 32-bit integers, written in whatever order the
  hash table iterates, are read back on any host as the same map.
\<close>

theorem string_map_round_trip:
  assumes "length entries < 2 ^ 32" and "list_all (\<lambda>(k, v). length k < 2 ^ 32) entries"
    and "distinct (map fst entries)"
  shows "map_option fst (stream_read_map h' (stream_read_string h') (stream_read h') Map.empty
      (Deserializer_new (contents (stream_write_map h (stream_write_string h) (stream_write h)
         ByteArray_new entries)))) = Some (map_of entries :: u8 list \<rightharpoonup> u32)"
proof -
  have "list_all (\<lambda>(k, v). length k < 2 ^ 32 \<and> True) entries"
    using assms(2) by (auto simp: list_all_iff)
  then have e: "contents (stream_write_map h (stream_write_string h) (stream_write h) ByteArray_new entries)
      = contents (stream_write_map h' (stream_write_string h') (stream_write h') ByteArray_new entries)"
    by (simp add: stream_write_map_def strmap.pair_contents)
  show ?thesis
    using strmap.map_round_trip [of entries h' h'] assms
    by (auto simp: e list_all_iff case_prod_unfold)
qed

theorem string_map_round_trip_witness:
  "map_option fst (stream_read_map BigEndian (stream_read_string BigEndian) (stream_read BigEndian) Map.empty
      (Deserializer_new (contents (stream_write_map LittleEndian (stream_write_string LittleEndian)
         (stream_write LittleEndian) ByteArray_new [([0x62], 1), ([], 0x10000 :: u32)]))))
    = Some (map_of [([0x62], 1), ([], 0x10000)] :: u8 list \<rightharpoonup> u32)"
  by (rule string_map_round_trip) simp_all

text \<open>
  C0. The variant deserializer numbers the alternatives from the last one, which is 1: of up
  to 255 alternatives it reads the one \<open>typeIndex\<close> stands for and no other, and an index
  that stands for none ends in the failed assertion.
\<close>

theorem VariantDeserializer_selects:
  assumes "length types < 256"
  shows "VariantDeserializer_deserialize types typeIndex d
    = (if typeIndex \<noteq> 0 \<and> unat typeIndex \<le> length types
       then case (types ! (length types - unat typeIndex)) d of Some r \<Rightarrow> Inr r | None \<Rightarrow> Inl OutOfBounds
       else Inl AssertFailed)"
proof (cases "typeIndex \<noteq> 0 \<and> unat typeIndex \<le> length types")
  case True
  define n where "n = length types - unat typeIndex"
  have n: "n < length types" using True unat_gt_0 [of typeIndex] by (auto simp: n_def)
  let ?ts = "drop n types"
  have "length ?ts = unat typeIndex" using True by (simp add: n_def)
  then have i: "VariantDeserializer_index ?ts = typeIndex"
    by (simp add: VariantDeserializer_index_length)
  have "VariantDeserializer_deserialize types typeIndex d = VariantDeserializer_deserialize ?ts typeIndex d"
    using VariantDeserializer_skip [of "take n types" ?ts typeIndex d] assms \<open>length ?ts = unat typeIndex\<close>
    by simp
  also have "\<dots> = (case (types ! n) d of Some r \<Rightarrow> Inr r | None \<Rightarrow> Inl OutOfBounds)"
    using i n by (simp add: Cons_nth_drop_Suc [symmetric] del: VariantDeserializer_index.simps)
  finally show ?thesis using True by (simp add: n_def)
next
  case False
  have "VariantDeserializer_deserialize ts typeIndex d = Inl AssertFailed"
    if "length ts < 256" "typeIndex = 0 \<or> length ts < unat typeIndex" for ts :: "(Deserializer \<Rightarrow> ('a \<times> Deserializer) option) list"
    using that
  proof (induction ts)
    case (Cons t ts)
    have "unat (VariantDeserializer_index (t # ts)) = length (t # ts)"
      unfolding VariantDeserializer_index_length using Cons.prems(1) by (intro unat_of_nat_u8) simp
    with Cons.prems(2) have "typeIndex \<noteq> VariantDeserializer_index (t # ts)" by auto
    with Cons show ?case by (auto simp del: VariantDeserializer_index.simps)
  qed simp
  with False assms show ?thesis by auto
qed

theorem VariantDeserializer_selects_witness:
  "VariantDeserializer_deserialize [stream_read LittleEndian, \<lambda>d. Some (0, d)] 2 (dser [] [5 :: u8])
     = Inr (5 :: u8, dser [5] [])"
  using VariantDeserializer_selects [of "[stream_read LittleEndian, \<lambda>d. Some (0 :: u8, d)]" 2 "dser [] [5]"]
    s8.get_code [where h = LittleEndian and v = 5 and pre = "[]" and rest = "[]"]
  by simp

end
