(* ===== verification/SomeIP_Header.thy ===== *)
theory SomeIP_Header
  imports Serialization
begin

text \<open>
  The identifiers and headers of \<open>lib/SomeIP.h\<close>, the return codes of
  \<open>lib/SomeIP-common.h\<close> and the addresses of \<open>lib/Networking.h\<close>.

  An enumeration with underlying type \<open>uint8_t\<close> can hold any byte, so each has a
  constructor for the bytes that are no enumerator; the locale \<open>wire_enum\<close> is interpreted
  for each of them.
\<close>

section \<open>Services and members\<close>

type_synonym MessageID = u32
type_synonym ServiceID = u16
type_synonym MemberID = u16
type_synonym InstanceID = u16
type_synonym EventGroupID = u16
type_synonym RequestID = u32

definition ANY_INSTANCE_ID :: InstanceID where "ANY_INSTANCE_ID = 0xFFFF"
definition ANY_SERVICE_ID :: InstanceID where "ANY_SERVICE_ID = 0xFFFF"
definition PING_MEMBER_ID :: MemberID where "PING_MEMBER_ID = 0xFF12"
definition DISPATCHER_SERVICE_ID :: ServiceID where "DISPATCHER_SERVICE_ID = 0xFFFE"

record ServiceIDs =
  serviceID :: ServiceID
  instanceID :: InstanceID

definition ServiceIDs_new :: "ServiceID \<Rightarrow> InstanceID \<Rightarrow> ServiceIDs" where
  "ServiceIDs_new s i = \<lparr>serviceID = s, instanceID = i\<rparr>"

definition ServiceIDs_eq :: "ServiceIDs \<Rightarrow> ServiceIDs \<Rightarrow> bool" where
  "ServiceIDs_eq a b = (serviceID a = serviceID b \<and> instanceID a = instanceID b)"

definition matches :: "ServiceIDs \<Rightarrow> ServiceIDs \<Rightarrow> bool" where
  "matches this serviceIDWithWildcards =
     (if serviceID serviceIDWithWildcards \<noteq> ANY_SERVICE_ID
         \<and> serviceID serviceIDWithWildcards \<noteq> serviceID this then False
      else if instanceID serviceIDWithWildcards \<noteq> ANY_INSTANCE_ID
              \<and> instanceID serviceIDWithWildcards \<noteq> instanceID this then False
      else True)"

record MemberIDs =
  m_serviceIDs :: ServiceIDs
  m_memberID :: MemberID

definition MemberIDs_new :: "ServiceID \<Rightarrow> InstanceID \<Rightarrow> MemberID \<Rightarrow> MemberIDs" where
  "MemberIDs_new s i m = \<lparr>m_serviceIDs = ServiceIDs_new s i, m_memberID = m\<rparr>"

definition MemberIDs_eq :: "MemberIDs \<Rightarrow> MemberIDs \<Rightarrow> bool" where
  "MemberIDs_eq a b = (ServiceIDs_eq (m_serviceIDs a) (m_serviceIDs b) \<and> m_memberID a = m_memberID b)"

definition SERVICE_ID_BITS_COUNT :: nat where "SERVICE_ID_BITS_COUNT = 16"

definition getServiceID :: "MessageID \<Rightarrow> ServiceID" where
  "getServiceID messageID = ucast (drop_bit SERVICE_ID_BITS_COUNT messageID)"

definition getMemberID :: "MessageID \<Rightarrow> MemberID" where
  "getMemberID messageID = ucast (and messageID (drop_bit SERVICE_ID_BITS_COUNT 0xFFFFFFFF))"

definition getMessageID :: "ServiceID \<Rightarrow> MemberID \<Rightarrow> MessageID" where
  "getMessageID s m = push_bit SERVICE_ID_BITS_COUNT (ucast s) + ucast m"

section \<open>Enumerations\<close>

datatype SomeIPReturnCode = RC_OK | RC_DISCONNECTED | RC_ERROR | RC_ALREADY_CONNECTED

definition isError :: "SomeIPReturnCode \<Rightarrow> bool" where
  "isError c = (c \<noteq> RC_OK)"

datatype ReturnCode = E_OK | ReturnCode_other u8

fun ReturnCode_underlying :: "ReturnCode \<Rightarrow> u8" where
  "ReturnCode_underlying E_OK = 0"
| "ReturnCode_underlying (ReturnCode_other b) = b"

definition ReturnCode_cast :: "u8 \<Rightarrow> ReturnCode" where
  "ReturnCode_cast b = (if b = 0 then E_OK else ReturnCode_other b)"

datatype MessageType =
  REQUEST | REQUEST_NO_RETURN | NOTIFICATION | RESPONSE | MT_ERROR | MT_INVALID | MessageType_other u8

fun MessageType_underlying :: "MessageType \<Rightarrow> u8" where
  "MessageType_underlying REQUEST = 0x00"
| "MessageType_underlying REQUEST_NO_RETURN = 0x01"
| "MessageType_underlying NOTIFICATION = 0x02"
| "MessageType_underlying RESPONSE = 0x80"
| "MessageType_underlying MT_ERROR = 0x81"
| "MessageType_underlying MT_INVALID = 0xFF"
| "MessageType_underlying (MessageType_other b) = b"

definition MessageType_cast :: "u8 \<Rightarrow> MessageType" where
  "MessageType_cast b =
     (if b = 0x00 then REQUEST else if b = 0x01 then REQUEST_NO_RETURN
      else if b = 0x02 then NOTIFICATION else if b = 0x80 then RESPONSE
      else if b = 0x81 then MT_ERROR else if b = 0xFF then MT_INVALID else MessageType_other b)"

datatype TransportProtocol = TCP | UDP | TransportProtocol_other u8

fun TransportProtocol_underlying :: "TransportProtocol \<Rightarrow> u8" where
  "TransportProtocol_underlying TCP = 0x06"
| "TransportProtocol_underlying UDP = 0x11"
| "TransportProtocol_underlying (TransportProtocol_other b) = b"

definition TransportProtocol_cast :: "u8 \<Rightarrow> TransportProtocol" where
  "TransportProtocol_cast b =
     (if b = 0x06 then TCP else if b = 0x11 then UDP else TransportProtocol_other b)"

interpretation rc: wire_enum ReturnCode_underlying ReturnCode_cast
  by unfold_locales (simp add: ReturnCode_cast_def)

interpretation mt: wire_enum MessageType_underlying MessageType_cast
  by unfold_locales (simp add: MessageType_cast_def)

interpretation tp: wire_enum TransportProtocol_underlying TransportProtocol_cast
  by unfold_locales (simp add: TransportProtocol_cast_def)

abbreviation ReturnCode_ok :: "ReturnCode \<Rightarrow> bool" where
  "ReturnCode_ok \<equiv> canonical ReturnCode_underlying ReturnCode_cast"

abbreviation MessageType_ok :: "MessageType \<Rightarrow> bool" where
  "MessageType_ok \<equiv> canonical MessageType_underlying MessageType_cast"

abbreviation TransportProtocol_ok :: "TransportProtocol \<Rightarrow> bool" where
  "TransportProtocol_ok \<equiv> canonical TransportProtocol_underlying TransportProtocol_cast"

lemma canonical_enumerators [simp]:
  "ReturnCode_ok E_OK" "MessageType_ok REQUEST" "MessageType_ok REQUEST_NO_RETURN"
  "MessageType_ok NOTIFICATION" "MessageType_ok RESPONSE" "MessageType_ok MT_ERROR"
  "MessageType_ok MT_INVALID" "TransportProtocol_ok TCP" "TransportProtocol_ok UDP"
  by (simp_all add: canonical_def ReturnCode_cast_def MessageType_cast_def TransportProtocol_cast_def)

section \<open>The header\<close>

record SomeIPHeader =
  m_messageID :: MessageID
  m_requestID :: RequestID
  m_protocolVersion :: u8
  m_interfaceVersion :: u8
  m_messageType :: MessageType
  m_returnCode :: ReturnCode

definition SomeIPHeader_default :: SomeIPHeader where
  "SomeIPHeader_default =
     \<lparr>m_messageID = 0, m_requestID = 0, m_protocolVersion = 1, m_interfaceVersion = 0,
      m_messageType = MT_INVALID, m_returnCode = E_OK\<rparr>"

definition SomeIPHeader_new ::
    "MessageID \<Rightarrow> RequestID \<Rightarrow> u8 \<Rightarrow> MessageType \<Rightarrow> ReturnCode \<Rightarrow> SomeIPHeader" where
  "SomeIPHeader_new mid rid interfaceVersion messageType returnCode =
     \<lparr>m_messageID = mid, m_requestID = rid, m_protocolVersion = 1,
      m_interfaceVersion = interfaceVersion, m_messageType = messageType, m_returnCode = returnCode\<rparr>"

definition SomeIPHeader_assign ::
    "'a SomeIPHeader_scheme \<Rightarrow> 'b SomeIPHeader_scheme \<Rightarrow> 'a SomeIPHeader_scheme" where
  "SomeIPHeader_assign this right = this
     \<lparr>m_messageID := m_messageID right, m_requestID := m_requestID right,
      m_interfaceVersion := m_interfaceVersion right, m_messageType := m_messageType right,
      m_returnCode := m_returnCode right, m_protocolVersion := m_protocolVersion right\<rparr>"

definition SomeIPHeader_eq :: "'a SomeIPHeader_scheme \<Rightarrow> 'b SomeIPHeader_scheme \<Rightarrow> bool" where
  "SomeIPHeader_eq this right =
     (if m_messageID this \<noteq> m_messageID right then False
      else if m_requestID this \<noteq> m_requestID right then False
      else if m_protocolVersion this \<noteq> m_protocolVersion right then False
      else if m_interfaceVersion this \<noteq> m_interfaceVersion right then False
      else if m_messageType this \<noteq> m_messageType right then False
      else if m_returnCode this \<noteq> m_returnCode right then False
      else True)"

definition header_getMemberID :: "'a SomeIPHeader_scheme \<Rightarrow> MemberID" where
  "header_getMemberID hdr = getMemberID (m_messageID hdr)"

definition header_getServiceID :: "'a SomeIPHeader_scheme \<Rightarrow> ServiceID" where
  "header_getServiceID hdr = getServiceID (m_messageID hdr)"

definition setServiceID :: "'a SomeIPHeader_scheme \<Rightarrow> ServiceID \<Rightarrow> 'a SomeIPHeader_scheme" where
  "setServiceID hdr s = hdr\<lparr>m_messageID := getMessageID s (header_getMemberID hdr)\<rparr>"

definition setMemberID :: "'a SomeIPHeader_scheme \<Rightarrow> MemberID \<Rightarrow> 'a SomeIPHeader_scheme" where
  "setMemberID hdr m = hdr\<lparr>m_messageID := getMessageID (header_getServiceID hdr) m\<rparr>"

definition setMessageID :: "'a SomeIPHeader_scheme \<Rightarrow> MessageID \<Rightarrow> 'a SomeIPHeader_scheme" where
  "setMessageID hdr i = hdr\<lparr>m_messageID := i\<rparr>"

definition setMessageType :: "'a SomeIPHeader_scheme \<Rightarrow> MessageType \<Rightarrow> 'a SomeIPHeader_scheme" where
  "setMessageType hdr t = hdr\<lparr>m_messageType := t\<rparr>"

definition setRequestID :: "'a SomeIPHeader_scheme \<Rightarrow> RequestID \<Rightarrow> 'a SomeIPHeader_scheme" where
  "setRequestID hdr i = hdr\<lparr>m_requestID := i\<rparr>"

definition isErrorType :: "'a SomeIPHeader_scheme \<Rightarrow> bool" where
  "isErrorType hdr = (m_messageType hdr = MT_ERROR)"

definition isReply :: "'a SomeIPHeader_scheme \<Rightarrow> bool" where
  "isReply hdr = (m_messageType hdr = RESPONSE \<or> m_messageType hdr = MT_ERROR)"

definition isNotification :: "'a SomeIPHeader_scheme \<Rightarrow> bool" where
  "isNotification hdr = (m_messageType hdr = NOTIFICATION)"

definition isRequestWithReturn :: "'a SomeIPHeader_scheme \<Rightarrow> bool" where
  "isRequestWithReturn hdr = (m_messageType hdr = REQUEST)"

text \<open>\<open>sizeof(SomeIPHeader)\<close> is 12: two 32-bit fields and four bytes, without padding.\<close>

definition sizeof_SomeIPHeader :: nat where "sizeof_SomeIPHeader = 12"

definition SOMEIP_HEADER_LENGTH_ON_NETWORK :: nat where
  "SOMEIP_HEADER_LENGTH_ON_NETWORK = sizeof_SomeIPHeader + 4"

text \<open>\<open>SomeIPHeader::deserialize\<close>: fills the header and returns the length field.\<close>

definition SomeIPHeader_deserialize ::
    "endianness \<Rightarrow> 'a SomeIPHeader_scheme \<Rightarrow> Deserializer
     \<Rightarrow> ((u32 \<times> 'a SomeIPHeader_scheme) \<times> Deserializer) option" where
  "SomeIPHeader_deserialize h this d = do {
     (messageID, d) \<leftarrow> readValue (NetworkSerializer h) d;
     (len, d) \<leftarrow> readValue (NetworkSerializer h) d;
     (requestID, d) \<leftarrow> readValue (NetworkSerializer h) d;
     (protocolVersion, d) \<leftarrow> readValue (NetworkSerializer h) d;
     (interfaceVersion, d) \<leftarrow> readValue (NetworkSerializer h) d;
     (messageType, d) \<leftarrow> readEnum (NetworkSerializer h) MessageType_cast d;
     (returnCode, d) \<leftarrow> readEnum (NetworkSerializer h) ReturnCode_cast d;
     Some ((len, this
       \<lparr>m_messageID := messageID, m_requestID := requestID, m_protocolVersion := protocolVersion,
        m_interfaceVersion := interfaceVersion, m_messageType := messageType, m_returnCode := returnCode\<rparr>), d)
   }"

section \<open>Addresses\<close>

text \<open>
  \<open>numbers\<close> is the field \<open>s_addr\<close>, an integer whose memory holds the address in network
  order. The mask is never written by the code and never read; it is left out.
\<close>

record IPV4Address =
  numbers :: u32
  m_interfaceName :: string

definition IPV4Address_new :: IPV4Address where
  "IPV4Address_new = \<lparr>numbers = 0, m_interfaceName = []\<rparr>"

definition IPV4Address_eq :: "IPV4Address \<Rightarrow> IPV4Address \<Rightarrow> bool" where
  "IPV4Address_eq a b = (numbers a = numbers b)"

definition htonl :: "endianness \<Rightarrow> u32 \<Rightarrow> u32" where
  "htonl h v = NativeToNetworkOrder h v"

text \<open>Assignment from four bytes: the loop that shifts them in, then \<open>htonl\<close>.\<close>

definition IPV4Address_assign :: "endianness \<Rightarrow> IPV4Address \<Rightarrow> u8 list \<Rightarrow> IPV4Address" where
  "IPV4Address_assign h a v =
     a\<lparr>numbers := htonl h (foldl (\<lambda>s_addr b. or (push_bit 8 s_addr) (ucast b)) 0 v)\<rparr>"

text \<open>\<open>toArray\<close>: the loop runs from index 3 down to 0, taking the low byte each time.\<close>

fun toArray_loop :: "nat \<Rightarrow> u32 \<Rightarrow> u8 list \<Rightarrow> u8 list" where
  "toArray_loop 0 n a = a"
| "toArray_loop (Suc i) n a = toArray_loop i (drop_bit 8 n) (a[i := ucast n])"

definition toArray :: "endianness \<Rightarrow> IPV4Address \<Rightarrow> u8 list" where
  "toArray h a = toArray_loop 4 (htonl h (numbers a)) (replicate 4 0)"

record IPv4TCPEndPoint =
  ep_address :: IPV4Address
  ep_port :: u16

definition IPv4TCPEndPoint_eq :: "IPv4TCPEndPoint \<Rightarrow> IPv4TCPEndPoint \<Rightarrow> bool" where
  "IPv4TCPEndPoint_eq a b =
     (if \<not> IPV4Address_eq (ep_address a) (ep_address b) then False
      else if \<not> (ep_port a = ep_port b) then False
      else True)"

section \<open>Lemmas\<close>

lemma ServiceIDs_eq_iff [simp]: "ServiceIDs_eq a b \<longleftrightarrow> a = b"
  by (cases a, cases b) (simp add: ServiceIDs_eq_def)

lemma MemberIDs_eq_iff [simp]: "MemberIDs_eq a b \<longleftrightarrow> a = b"
  by (cases a, cases b) (simp add: MemberIDs_eq_def)

lemma SomeIPHeader_eq_iff [simp]: "SomeIPHeader_eq a (b :: SomeIPHeader) \<longleftrightarrow> a = b"
  by (cases a, cases b) (simp add: SomeIPHeader_eq_def)

lemma getMessageID_or: "getMessageID s m = or (push_bit 16 (ucast s)) (ucast m)"
proof -
  have "and (push_bit 16 (ucast s)) (ucast m :: u32) = 0"
    by (rule bit_word_eqI) (auto simp: bit_simps dest: bit_imp_le_length)
  then show ?thesis
    by (simp add: getMessageID_def SERVICE_ID_BITS_COUNT_def disjunctive_add_eq_or)
qed

lemma getServiceID_getMessageID [simp]: "getServiceID (getMessageID s m) = s"
  unfolding getServiceID_def getMessageID_or SERVICE_ID_BITS_COUNT_def
  by (rule bit_word_eqI) (auto simp: bit_simps dest: bit_imp_le_length)

lemma low_half_mask: "drop_bit SERVICE_ID_BITS_COUNT (0xFFFFFFFF :: u32) = mask 16"
  by (simp add: SERVICE_ID_BITS_COUNT_def drop_bit_eq_div mask_eq_exp_minus_1)

lemma getMemberID_getMessageID [simp]: "getMemberID (getMessageID s m) = m"
  unfolding getMemberID_def getMessageID_or low_half_mask
  by (rule bit_word_eqI) (auto simp: bit_simps)

lemma getMessageID_split [simp]: "getMessageID (getServiceID i) (getMemberID i) = i"
  unfolding getServiceID_def getMemberID_def getMessageID_or SERVICE_ID_BITS_COUNT_def
    low_half_mask [unfolded SERVICE_ID_BITS_COUNT_def]
  by (rule bit_word_eqI) (auto simp: bit_simps)

lemma header_ids [simp]:
  "header_getServiceID (setServiceID hdr s) = s"
  "header_getMemberID (setServiceID hdr s) = header_getMemberID hdr"
  "header_getMemberID (setMemberID hdr m) = m"
  "header_getServiceID (setMemberID hdr m) = header_getServiceID hdr"
  by (simp_all add: header_getServiceID_def header_getMemberID_def setServiceID_def setMemberID_def)

text \<open>The bytes of a header on the network, around its length field.\<close>

definition header_code :: "'a SomeIPHeader_scheme \<Rightarrow> u32 \<Rightarrow> u8 list" where
  "header_code hdr len = bytes_be (m_messageID hdr) @ bytes_be len @ bytes_be (m_requestID hdr) @
     [m_protocolVersion hdr, m_interfaceVersion hdr,
      MessageType_underlying (m_messageType hdr), ReturnCode_underlying (m_returnCode hdr)]"

definition header_ok :: "'a SomeIPHeader_scheme \<Rightarrow> bool" where
  "header_ok hdr = (MessageType_ok (m_messageType hdr) \<and> ReturnCode_ok (m_returnCode hdr))"

lemma length_header_code [simp]: "length (header_code hdr len) = SOMEIP_HEADER_LENGTH_ON_NETWORK"
  by (simp add: header_code_def SOMEIP_HEADER_LENGTH_ON_NETWORK_def sizeof_SomeIPHeader_def)

lemma SomeIPHeader_deserialize_code:
  assumes "header_ok hdr"
  shows "SomeIPHeader_deserialize h this (dser pre (header_code hdr len @ rest))
    = Some ((len, SomeIPHeader_assign this hdr), dser (pre @ header_code hdr len) rest)"
  using assms
  by (simp add: SomeIPHeader_deserialize_def header_code_def header_ok_def canonical_def
      SomeIPHeader_assign_def readValue_network readValue_byte rc.readEnum_byte mt.readEnum_byte)

lemma toArray_loop_4:
  "toArray_loop 4 n [a, b, c, d]
    = [ucast (drop_bit 24 n), ucast (drop_bit 16 n), ucast (drop_bit 8 n), ucast n]"
  by (simp add: numeral_eq_Suc)

lemma htonl_htonl [simp]: "htonl h (htonl h v) = v"
  by (cases h) (simp_all add: htonl_def NativeToNetworkOrder_def bytes_le_word_of_bytes_le)

lemma toArray_eq: "toArray h a = (let n = htonl h (numbers a) in
    [ucast (drop_bit 24 n), ucast (drop_bit 16 n), ucast (drop_bit 8 n), ucast n])"
  unfolding toArray_def Let_def using toArray_loop_4 [of _ 0 0 0 0] by (simp add: numeral_eq_Suc)

lemma length_toArray [simp]: "length (toArray h a) = 4"
  by (simp add: toArray_eq Let_def)

lemma shift_in_4:
  "foldl (\<lambda>s_addr b. or (push_bit 8 s_addr) (ucast b)) 0 [a, b, c, d]
    = or (push_bit 24 (ucast a)) (or (push_bit 16 (ucast b)) (or (push_bit 8 (ucast c)) (ucast d :: u32)))"
  by (rule bit_word_eqI) (auto simp: bit_simps)

text \<open>The four bytes and the stored integer determine each other, on any host.\<close>

lemma toArray_assign:
  assumes "length v = 4"
  shows "toArray h (IPV4Address_assign h addr v) = v"
proof -
  obtain a b c d where v: "v = [a, b, c, d]"
    using assms by (auto simp: numeral_eq_Suc length_Suc_conv)
  let ?n = "or (push_bit 24 (ucast a)) (or (push_bit 16 (ucast b)) (or (push_bit 8 (ucast c)) (ucast d :: u32)))"
  have "(ucast (drop_bit 24 ?n) :: u8) = a" "(ucast (drop_bit 16 ?n) :: u8) = b"
    "(ucast (drop_bit 8 ?n) :: u8) = c" "(ucast ?n :: u8) = d"
    by (rule bit_word_eqI, auto simp: bit_simps dest: bit_imp_le_length)+
  then show ?thesis
    unfolding v toArray_eq IPV4Address_assign_def shift_in_4 by (simp add: Let_def)
qed

lemma or_bytes_u32:
  fixes w :: u32
  shows "or (push_bit 24 (ucast (ucast (drop_bit 24 w) :: u8))) (or (push_bit 16 (ucast (ucast (drop_bit 16 w) :: u8)))
      (or (push_bit 8 (ucast (ucast (drop_bit 8 w) :: u8))) (ucast (ucast w :: u8)))) = w" (is "?l = _")
proof (rule bit_word_eqI)
  fix n assume "n < LENGTH(32)"
  then consider "n < 8" | "8 \<le> n" "n < 16" | "16 \<le> n" "n < 24" | "24 \<le> n" "n < 32" by fastforce
  then show "bit ?l n = bit w n" by cases (auto simp: bit_simps less_diff_conv2)
qed

lemma assign_toArray: "IPV4Address_assign h a (toArray h a') = a\<lparr>numbers := numbers a'\<rparr>"
  unfolding toArray_eq Let_def IPV4Address_assign_def shift_in_4 or_bytes_u32 by simp

section \<open>Properties\<close>

text \<open>
  C29. A message identifier is a pair: the service and the member it is composed of are read
  back, every identifier is composed of what is read from it, and the setters of the header
  change one half and leave the other.
\<close>

theorem message_id_pair:
  "getServiceID (getMessageID s m) = s \<and> getMemberID (getMessageID s m) = m
   \<and> getMessageID (getServiceID i) (getMemberID i) = i
   \<and> header_getServiceID (setServiceID hdr s) = s
   \<and> header_getMemberID (setServiceID hdr s) = header_getMemberID hdr
   \<and> header_getServiceID (setMemberID hdr m) = header_getServiceID hdr
   \<and> header_getMemberID (setMemberID hdr m) = m"
  by simp

text \<open>
  C30. An address survives the trip through its four bytes in both directions, whatever the
  byte order of the host that takes it apart: the bytes assigned are the bytes read, and
  assigning the bytes of an address gives an address equal to it.
\<close>

theorem ipv4_bytes_round_trip:
  assumes "length v = 4"
  shows "toArray h (IPV4Address_assign h a v) = v
    \<and> IPV4Address_eq (IPV4Address_assign h a (toArray h a')) a'"
  using assms by (simp add: toArray_assign assign_toArray IPV4Address_eq_def)

theorem ipv4_bytes_round_trip_witness:
  "toArray LittleEndian (IPV4Address_assign LittleEndian IPV4Address_new [226, 1, 1, 1]) = [226, 1, 1, 1]"
  using ipv4_bytes_round_trip [of "[226, 1, 1, 1]" LittleEndian IPV4Address_new IPV4Address_new] by simp

end
