(* ===== verification/Service_Discovery.thy ===== *)
theory Service_Discovery
  imports SomeIP_Header
begin

text \<open>
  The service discovery messages of \<open>lib/ServiceDiscovery.h\<close>: entries, configuration
  options, the message with its session number, its serialization and its decoder.

  The entries and options are codecs in the sense of \<open>wire_codec\<close>, between a sender and a
  receiver that may differ in byte order. The decoder returns the calls it makes on its
  listener; an assertion that fails, an option index out of range or a read past the end of
  the data is an \<open>Inl\<close>.
\<close>

section \<open>Entries\<close>

datatype EntryType = FindService | OfferService | Subscribe | SubscribeAck | EntryType_Invalid
  | EntryType_other u8

fun EntryType_underlying :: "EntryType \<Rightarrow> u8" where
  "EntryType_underlying FindService = 0x00"
| "EntryType_underlying OfferService = 0x01"
| "EntryType_underlying Subscribe = 0x06"
| "EntryType_underlying SubscribeAck = 0x07"
| "EntryType_underlying EntryType_Invalid = 0xFE"
| "EntryType_underlying (EntryType_other b) = b"

definition EntryType_cast :: "u8 \<Rightarrow> EntryType" where
  "EntryType_cast b =
     (if b = 0x00 then FindService else if b = 0x01 then OfferService
      else if b = 0x06 then Subscribe else if b = 0x07 then SubscribeAck
      else if b = 0xFE then EntryType_Invalid else EntryType_other b)"

interpretation et: wire_enum EntryType_underlying EntryType_cast
  by unfold_locales (simp add: EntryType_cast_def)

record EntryHeader =
  m_type :: EntryType
  m_indexFirstOptionRun :: u8
  m_indexSecondOptionRun :: u8
  m_1 :: u8
  m_2 :: u8
  m_serviceID :: ServiceID
  m_entryInstanceID :: InstanceID
  m_majorVersion :: u8
  m_ttl :: u32

record ServiceEntry = EntryHeader +
  m_minorVersion :: u32

record EventGroupEntry = EntryHeader +
  m_reserved16 :: u16
  m_eventGroupID :: EventGroupID

definition ServiceEntry_serialize :: "endianness \<Rightarrow> ServiceEntry \<Rightarrow> ByteArray \<Rightarrow> ByteArray" where
  "ServiceEntry_serialize h e b =
     (let k = NetworkSerializer h;
          b = writeEnum k EntryType_underlying b (m_type e);
          b = writeValue k b (m_indexFirstOptionRun e);
          b = writeValue k b (m_indexSecondOptionRun e);
          b = Tuple4Bits4BitsReadOnly_serialize k (m_1 e) (m_2 e) b;
          b = writeValue k b (m_serviceID e);
          b = writeValue k b (m_entryInstanceID e);
          b = writeValue k b (m_majorVersion e);
          b = LSBSerializer_serialize k 3 (m_ttl e) b
      in writeValue k b (m_minorVersion e))"

definition EventGroupEntry_serialize :: "endianness \<Rightarrow> EventGroupEntry \<Rightarrow> ByteArray \<Rightarrow> ByteArray" where
  "EventGroupEntry_serialize h e b =
     (let k = NetworkSerializer h;
          b = writeEnum k EntryType_underlying b (m_type e);
          b = writeValue k b (m_indexFirstOptionRun e);
          b = writeValue k b (m_indexSecondOptionRun e);
          b = Tuple4Bits4BitsReadOnly_serialize k (m_1 e) (m_2 e) b;
          b = writeValue k b (m_serviceID e);
          b = writeValue k b (m_entryInstanceID e);
          b = writeValue k b (m_majorVersion e);
          b = LSBSerializer_serialize k 3 (m_ttl e) b;
          b = writeValue k b (m_reserved16 e)
      in writeValue k b (m_eventGroupID e))"

definition ServiceEntry_deserialize ::
    "endianness \<Rightarrow> EntryType \<Rightarrow> Deserializer \<Rightarrow> (ServiceEntry \<times> Deserializer) option" where
  "ServiceEntry_deserialize h type d = (let k = NetworkSerializer h in do {
     (i1, d) \<leftarrow> readValue k d;
     (i2, d) \<leftarrow> readValue k d;
     ((n1, n2), d) \<leftarrow> Tuple4Bits4Bits_deserialize k d;
     (sid, d) \<leftarrow> readValue k d;
     (iid, d) \<leftarrow> readValue k d;
     (major, d) \<leftarrow> readValue k d;
     (ttl, d) \<leftarrow> LSBDeserializer_deserialize k 3 d;
     (minor, d) \<leftarrow> readValue k d;
     Some (\<lparr>m_type = type, m_indexFirstOptionRun = i1, m_indexSecondOptionRun = i2, m_1 = n1, m_2 = n2,
       m_serviceID = sid, m_entryInstanceID = iid, m_majorVersion = major, m_ttl = ttl,
       m_minorVersion = minor\<rparr>, d)
   })"

definition EventGroupEntry_deserialize ::
    "endianness \<Rightarrow> EntryType \<Rightarrow> Deserializer \<Rightarrow> (EventGroupEntry \<times> Deserializer) option" where
  "EventGroupEntry_deserialize h type d = (let k = NetworkSerializer h in do {
     (i1, d) \<leftarrow> readValue k d;
     (i2, d) \<leftarrow> readValue k d;
     ((n1, n2), d) \<leftarrow> Tuple4Bits4Bits_deserialize k d;
     (sid, d) \<leftarrow> readValue k d;
     (iid, d) \<leftarrow> readValue k d;
     (major, d) \<leftarrow> readValue k d;
     (ttl, d) \<leftarrow> LSBDeserializer_deserialize k 3 d;
     (reserved16, d) \<leftarrow> readValue k d;
     (eventGroup, d) \<leftarrow> readValue k d;
     Some (\<lparr>m_type = type, m_indexFirstOptionRun = i1, m_indexSecondOptionRun = i2, m_1 = n1, m_2 = n2,
       m_serviceID = sid, m_entryInstanceID = iid, m_majorVersion = major, m_ttl = ttl,
       m_reserved16 = reserved16, m_eventGroupID = eventGroup\<rparr>, d)
   })"

datatype ServiceEntryVariant = ServiceEntryV ServiceEntry | EventGroupEntryV EventGroupEntry

text \<open>\<open>SerializeVisitor\<close>: dispatch on the alternative the variant holds.\<close>

fun SerializeVisitor :: "endianness \<Rightarrow> ByteArray \<Rightarrow> ServiceEntryVariant \<Rightarrow> ByteArray" where
  "SerializeVisitor h b (ServiceEntryV e) = ServiceEntry_serialize h e b"
| "SerializeVisitor h b (EventGroupEntryV e) = EventGroupEntry_serialize h e b"

section \<open>Configuration options\<close>

datatype OptionType = IPv4Option | OptionType_other u8

fun OptionType_underlying :: "OptionType \<Rightarrow> u8" where
  "OptionType_underlying IPv4Option = 0x04"
| "OptionType_underlying (OptionType_other b) = b"

definition OptionType_cast :: "u8 \<Rightarrow> OptionType" where
  "OptionType_cast b = (if b = 0x04 then IPv4Option else OptionType_other b)"

interpretation ot: wire_enum OptionType_underlying OptionType_cast
  by unfold_locales (simp add: OptionType_cast_def)

record IPv4ConfigurationOption =
  m_optionType :: OptionType
  m_address :: IPV4Address
  m_port :: u16
  m_protocol :: TransportProtocol
  reserved :: u8

definition IPv4ConfigurationOption_new ::
    "TransportProtocol \<Rightarrow> IPV4Address \<Rightarrow> u16 \<Rightarrow> IPv4ConfigurationOption" where
  "IPv4ConfigurationOption_new protocol address port =
     \<lparr>m_optionType = IPv4Option, m_address = address, m_port = port, m_protocol = protocol, reserved = 0\<rparr>"

definition IPv4ConfigurationOption_deserialize ::
    "endianness \<Rightarrow> Deserializer \<Rightarrow> (IPv4ConfigurationOption \<times> Deserializer) option" where
  "IPv4ConfigurationOption_deserialize h d = (let k = NetworkSerializer h in do {
     (a0, d) \<leftarrow> readValue k d;
     (a1, d) \<leftarrow> readValue k d;
     (a2, d) \<leftarrow> readValue k d;
     (a3, d) \<leftarrow> readValue k d;
     (res, d) \<leftarrow> readValue k d;
     (protocol, d) \<leftarrow> readEnum k TransportProtocol_cast d;
     (port, d) \<leftarrow> readValue k d;
     Some (\<lparr>m_optionType = IPv4Option,
       m_address = IPV4Address_assign h IPV4Address_new [a0, a1, a2, a3],
       m_port = port, m_protocol = protocol, reserved = res\<rparr>, d)
   })"

definition IPv4ConfigurationOption_serialize ::
    "endianness \<Rightarrow> IPv4ConfigurationOption \<Rightarrow> ByteArray \<Rightarrow> ByteArray" where
  "IPv4ConfigurationOption_serialize h o' b =
     (let k = NetworkSerializer h;
          address = toArray h (m_address o');
          b = writeValue k b (address ! 0);
          b = writeValue k b (address ! 1);
          b = writeValue k b (address ! 2);
          b = writeValue k b (address ! 3);
          b = writeValue k b (reserved o');
          b = writeEnum k TransportProtocol_underlying b (m_protocol o')
      in writeValue k b (m_port o'))"

datatype ConfigurationOptionVariant = IPv4ConfigurationOptionV IPv4ConfigurationOption

fun OptionSerializeVisitor :: "endianness \<Rightarrow> ByteArray \<Rightarrow> ConfigurationOptionVariant \<Rightarrow> ByteArray" where
  "OptionSerializeVisitor h b (IPv4ConfigurationOptionV param) =
     LengthPlaceHolder_scope (NetworkSerializer h) TYPE(16) 1 (\<lambda>b.
       let b = writeEnum (NetworkSerializer h) OptionType_underlying b (m_optionType param);
           b = writeValue (NetworkSerializer h) b (0 :: u8)
       in IPv4ConfigurationOption_serialize h param b) b"

section \<open>The message\<close>

text \<open>
  The flags are a bit field of two bits and an integer of six, which the compilers lay out
  from the low bit on a little-endian machine and from the high bit on a big-endian one.
  The code sends the byte that holds them as it is.
\<close>

record Flags =
  reboot :: bool
  unicast :: bool
  unused :: "6 word"

fun Flags_byte :: "endianness \<Rightarrow> Flags \<Rightarrow> u8" where
  "Flags_byte LittleEndian f =
     or (of_bool (reboot f)) (or (push_bit 1 (of_bool (unicast f))) (push_bit 2 (ucast (unused f))))"
| "Flags_byte BigEndian f =
     or (push_bit 7 (of_bool (reboot f))) (or (push_bit 6 (of_bool (unicast f))) (ucast (unused f)))"

fun Flags_of_byte :: "endianness \<Rightarrow> u8 \<Rightarrow> Flags" where
  "Flags_of_byte LittleEndian b = \<lparr>reboot = bit b 0, unicast = bit b 1, unused = ucast (drop_bit 2 b)\<rparr>"
| "Flags_of_byte BigEndian b = \<lparr>reboot = bit b 7, unicast = bit b 6, unused = ucast b\<rparr>"

record ServiceDiscoveryMessage = SomeIPHeader +
  m_flags :: Flags
  m_reserved1 :: u8
  m_reserved2 :: u8
  m_reserved3 :: u8
  m_entries :: "ServiceEntryVariant list"
  m_options :: "ConfigurationOptionVariant list"

definition getRebootFlag :: "ServiceDiscoveryMessage \<Rightarrow> bool" where
  "getRebootFlag msg = reboot (m_flags msg)"

definition addEntry :: "ServiceDiscoveryMessage \<Rightarrow> ServiceEntryVariant \<Rightarrow> ServiceDiscoveryMessage" where
  "addEntry msg entry = msg\<lparr>m_entries := m_entries msg @ [entry]\<rparr>"

definition addOption ::
    "ServiceDiscoveryMessage \<Rightarrow> ConfigurationOptionVariant \<Rightarrow> nat \<times> ServiceDiscoveryMessage" where
  "addOption msg opt =
     (let msg = msg\<lparr>m_options := m_options msg @ [opt]\<rparr> in (length (m_options msg) - 1, msg))"

text \<open>The message of the constructors before their bodies run.\<close>

definition ServiceDiscoveryMessage_default :: ServiceDiscoveryMessage where
  "ServiceDiscoveryMessage_default = SomeIPHeader.extend SomeIPHeader_default
     (ServiceDiscoveryMessage.fields \<lparr>reboot = False, unicast = False, unused = 0\<rparr> 0 0 0 [] [])"

record SessionCounters =
  s_nextUnicastSessionID :: u16
  s_nextMulticastSessionID :: u16
  s_UnicastReboot :: bool
  s_MulticastReboot :: bool

definition SessionCounters_init :: SessionCounters where
  "SessionCounters_init =
     \<lparr>s_nextUnicastSessionID = 0x0001, s_nextMulticastSessionID = 0x0001,
      s_UnicastReboot = True, s_MulticastReboot = True\<rparr>"

definition assignUniqueSessionID ::
    "SessionCounters \<Rightarrow> ServiceDiscoveryMessage \<Rightarrow> SessionCounters \<times> ServiceDiscoveryMessage" where
  "assignUniqueSessionID st msg =
     (if unicast (m_flags msg)
      then let i = s_nextUnicastSessionID st;
               msg = setRequestID (msg\<lparr>m_flags := (m_flags msg)\<lparr>reboot := s_UnicastReboot st\<rparr>\<rparr>) (ucast i);
               st = st\<lparr>s_nextUnicastSessionID := i + 1\<rparr>
           in (if s_nextUnicastSessionID st = 0
               then st\<lparr>s_nextUnicastSessionID := 0x01, s_UnicastReboot := False\<rparr> else st, msg)
      else let i = s_nextMulticastSessionID st;
               msg = setRequestID (msg\<lparr>m_flags := (m_flags msg)\<lparr>reboot := s_MulticastReboot st\<rparr>\<rparr>) (ucast i);
               st = st\<lparr>s_nextMulticastSessionID := i + 1\<rparr>
           in (if s_nextMulticastSessionID st = 0
               then st\<lparr>s_nextMulticastSessionID := 0x01, s_MulticastReboot := False\<rparr> else st, msg))"

definition SERVICE_DISCOVERY_MEMBER_ID :: MessageID where
  "SERVICE_DISCOVERY_MEMBER_ID = 0xFFFF8100"

definition ServiceDiscoveryMessage_new ::
    "SessionCounters \<Rightarrow> bool \<Rightarrow> SessionCounters \<times> ServiceDiscoveryMessage" where
  "ServiceDiscoveryMessage_new st isMulticast =
     (let msg = setMessageType (setMessageID ServiceDiscoveryMessage_default SERVICE_DISCOVERY_MEMBER_ID) NOTIFICATION;
          msg = msg\<lparr>m_flags := (m_flags msg)\<lparr>unicast := \<not> isMulticast\<rparr>\<rparr>
      in assignUniqueSessionID st msg)"

definition SD_serialize :: "endianness \<Rightarrow> ServiceDiscoveryMessage \<Rightarrow> ByteArray \<Rightarrow> ByteArray" where
  "SD_serialize h msg b =
     (let k = NetworkSerializer h;
          messageTypeAsUint8 = MessageType_underlying (m_messageType msg);
          returnCodeAsUint8 = ReturnCode_underlying (m_returnCode msg);
          flagsAsUint8 = Flags_byte h (m_flags msg);
          b = writeValue k b (m_messageID msg)
      in LengthPlaceHolder_scope k TYPE(32) 0 (\<lambda>b.
           let b = writeValue k b (m_requestID msg);
               b = writeValue k b (m_protocolVersion msg);
               b = writeValue k b (m_interfaceVersion msg);
               b = writeValue k b messageTypeAsUint8;
               b = writeValue k b returnCodeAsUint8;
               b = writeValue k b flagsAsUint8;
               b = writeValue k b (m_reserved1 msg);
               b = writeValue k b (m_reserved2 msg);
               b = writeValue k b (m_reserved3 msg);
               b = LengthPlaceHolder_scope k TYPE(32) 0
                     (\<lambda>b. foldl (SerializeVisitor h) b (m_entries msg)) b
           in LengthPlaceHolder_scope k TYPE(32) 0
                (\<lambda>b. foldl (OptionSerializeVisitor h) b (m_options msg)) b) b)"

subsection \<open>Reading a message\<close>

text \<open>
  The bodies of the two loops of \<open>deserialize\<close>. Of an unknown entry only the type byte is
  read, of an unknown option only the length, the type and the reserved byte: the loop then
  goes on with the byte that follows.
\<close>

definition read_entry :: "endianness \<Rightarrow> Deserializer \<Rightarrow> (ServiceEntryVariant option \<times> Deserializer) option" where
  "read_entry h d = do {
     (type, d) \<leftarrow> readEnum (NetworkSerializer h) EntryType_cast d;
     (case type of
        FindService \<Rightarrow> do { (e, d) \<leftarrow> ServiceEntry_deserialize h type d; Some (Some (ServiceEntryV e), d) }
      | OfferService \<Rightarrow> do { (e, d) \<leftarrow> ServiceEntry_deserialize h type d; Some (Some (ServiceEntryV e), d) }
      | Subscribe \<Rightarrow> do { (e, d) \<leftarrow> EventGroupEntry_deserialize h type d; Some (Some (EventGroupEntryV e), d) }
      | SubscribeAck \<Rightarrow> do { (e, d) \<leftarrow> EventGroupEntry_deserialize h type d; Some (Some (EventGroupEntryV e), d) }
      | _ \<Rightarrow> Some (None, d))
   }"

definition read_option :: "endianness \<Rightarrow> Deserializer \<Rightarrow> (ConfigurationOptionVariant option \<times> Deserializer) option" where
  "read_option h d = do {
     (len, d) \<leftarrow> (readValue (NetworkSerializer h) d :: (u16 \<times> Deserializer) option);
     (type, d) \<leftarrow> readEnum (NetworkSerializer h) OptionType_cast d;
     (res, d) \<leftarrow> (readValue (NetworkSerializer h) d :: (u8 \<times> Deserializer) option);
     (case type of
        IPv4Option \<Rightarrow> do {
          (o', d) \<leftarrow> IPv4ConfigurationOption_deserialize h d;
          Some (Some (IPv4ConfigurationOptionV o'), d)
        }
      | _ \<Rightarrow> Some (None, d))
   }"

lemma stays_ServiceEntry: "stays (ServiceEntry_deserialize h t d) d"
  unfolding ServiceEntry_deserialize_def Let_def numeral_3_eq_3 by (intro stays_intros) simp_all

lemma stays_EventGroupEntry: "stays (EventGroupEntry_deserialize h t d) d"
  unfolding EventGroupEntry_deserialize_def Let_def numeral_3_eq_3 by (intro stays_intros) simp_all

lemma stays_IPv4ConfigurationOption: "stays (IPv4ConfigurationOption_deserialize h d) d"
  unfolding IPv4ConfigurationOption_deserialize_def Let_def by (intro stays_intros) simp_all

lemma read_entry_forward: "read_entry h d = Some (e, d') \<Longrightarrow> forward d d'"
  unfolding read_entry_def
  by (erule forward_bind [rotated 2], erule readEnum_forward)
    (auto split: EntryType.split
      intro!: stays_bind stays_Some stays_ServiceEntry stays_EventGroupEntry)

lemma read_option_forward: "read_option h d = Some (e, d') \<Longrightarrow> forward d d'"
  unfolding read_option_def
  by (erule forward_bind [rotated 2], erule readValue_forward)
    (auto split: OptionType.split
      intro!: stays_bind stays_Some stays_reads stays_IPv4ConfigurationOption)

text \<open>
  The loops run while fewer bytes than announced have been consumed since \<open>baseRemain\<close>. The
  number of remaining bytes only falls, so the difference is a natural number. Every round
  consumes a byte or leaves the data, so the loops end.
\<close>

function readEntries_loop ::
    "endianness \<Rightarrow> nat \<Rightarrow> u32 \<Rightarrow> ServiceEntryVariant list \<Rightarrow> Deserializer
     \<Rightarrow> (ServiceEntryVariant list \<times> Deserializer) option" where
  "readEntries_loop h baseRemain entriesLength entries d =
     (if baseRemain - remainingBytesCount d < unat entriesLength then do {
        (e, d) \<leftarrow> read_entry h d;
        readEntries_loop h baseRemain entriesLength
          (case e of Some e \<Rightarrow> entries @ [e] | None \<Rightarrow> entries) d
      } else Some (entries, d))"
  by pat_completeness auto
termination
  by (relation "measure (\<lambda>(h, r, n, es, d). length (des_payload d) - currentDataPosition d)")
    (auto dest!: read_entry_forward simp: forward_def)

function readOptions_loop ::
    "endianness \<Rightarrow> nat \<Rightarrow> u32 \<Rightarrow> ConfigurationOptionVariant list \<Rightarrow> Deserializer
     \<Rightarrow> (ConfigurationOptionVariant list \<times> Deserializer) option" where
  "readOptions_loop h baseRemain optionsLength options d =
     (if baseRemain - remainingBytesCount d < unat optionsLength then do {
        (o', d) \<leftarrow> read_option h d;
        readOptions_loop h baseRemain optionsLength
          (case o' of Some o' \<Rightarrow> options @ [o'] | None \<Rightarrow> options) d
      } else Some (options, d))"
  by pat_completeness auto
termination
  by (relation "measure (\<lambda>(h, r, n, es, d). length (des_payload d) - currentDataPosition d)")
    (auto dest!: read_option_forward simp: forward_def)

declare readEntries_loop.simps [simp del] readOptions_loop.simps [simp del]

definition SD_deserialize ::
    "endianness \<Rightarrow> ServiceDiscoveryMessage \<Rightarrow> Deserializer \<Rightarrow> (ServiceDiscoveryMessage \<times> Deserializer) option" where
  "SD_deserialize h this d = (let k = NetworkSerializer h in do {
     (flagsAsUint8, d) \<leftarrow> readValue k d;
     (r1, d) \<leftarrow> readValue k d;
     (r2, d) \<leftarrow> readValue k d;
     (r3, d) \<leftarrow> readValue k d;
     (entriesLength, d) \<leftarrow> readValue k d;
     (entries, d) \<leftarrow> readEntries_loop h (remainingBytesCount d) entriesLength (m_entries this) d;
     (optionsLength, d) \<leftarrow> readValue k d;
     (options, d) \<leftarrow> readOptions_loop h (remainingBytesCount d) optionsLength (m_options this) d;
     Some (this\<lparr>m_flags := Flags_of_byte h flagsAsUint8, m_reserved1 := r1, m_reserved2 := r2,
       m_reserved3 := r3, m_entries := entries, m_options := options\<rparr>, d)
   })"

text \<open>The two reading constructors: with the header in the data, and with a header at hand.\<close>

definition SD_read :: "endianness \<Rightarrow> Deserializer \<Rightarrow> (ServiceDiscoveryMessage \<times> Deserializer) option" where
  "SD_read h d = do {
     ((len, this), d) \<leftarrow> SomeIPHeader_deserialize h ServiceDiscoveryMessage_default d;
     SD_deserialize h this d
   }"

definition SD_read_with_header ::
    "endianness \<Rightarrow> 'a SomeIPHeader_scheme \<Rightarrow> Deserializer \<Rightarrow> (ServiceDiscoveryMessage \<times> Deserializer) option" where
  "SD_read_with_header h header d =
     SD_deserialize h (SomeIPHeader_assign ServiceDiscoveryMessage_default header) d"

section \<open>The entries the stack sends\<close>

text \<open>The index of the option goes through a \<open>uint8_t\<close>.\<close>

definition ServiceOfferedEntry ::
    "ServiceDiscoveryMessage \<Rightarrow> ServiceIDs \<Rightarrow> TransportProtocol \<Rightarrow> IPV4Address \<Rightarrow> u16
     \<Rightarrow> ServiceEntry \<times> ServiceDiscoveryMessage" where
  "ServiceOfferedEntry msg sid protocol address ipv4Port =
     (let (i, msg) = addOption msg (IPv4ConfigurationOptionV (IPv4ConfigurationOption_new protocol address ipv4Port))
      in (\<lparr>m_type = OfferService, m_indexFirstOptionRun = of_nat i, m_indexSecondOptionRun = of_nat i,
           m_1 = 1, m_2 = 0, m_serviceID = serviceID sid, m_entryInstanceID = instanceID sid,
           m_majorVersion = 1, m_ttl = 0xFFFFFFFF, m_minorVersion = 1\<rparr>, msg))"

definition ServiceUnregisteredEntry ::
    "ServiceDiscoveryMessage \<Rightarrow> ServiceIDs \<Rightarrow> TransportProtocol \<Rightarrow> IPV4Address \<Rightarrow> u16
     \<Rightarrow> ServiceEntry \<times> ServiceDiscoveryMessage" where
  "ServiceUnregisteredEntry msg sid protocol address ipv4Port =
     (let (i, msg) = addOption msg (IPv4ConfigurationOptionV (IPv4ConfigurationOption_new protocol address ipv4Port))
      in (\<lparr>m_type = OfferService, m_indexFirstOptionRun = of_nat i, m_indexSecondOptionRun = of_nat i,
           m_1 = 0, m_2 = 0, m_serviceID = serviceID sid, m_entryInstanceID = instanceID sid,
           m_majorVersion = 1, m_ttl = 0, m_minorVersion = 1\<rparr>, msg))"

definition ServiceQueryEntry :: "ServiceID \<Rightarrow> ServiceEntry" where
  "ServiceQueryEntry sid =
     \<lparr>m_type = FindService, m_indexFirstOptionRun = 0, m_indexSecondOptionRun = 0, m_1 = 0, m_2 = 0,
      m_serviceID = sid, m_entryInstanceID = 0xFFFF, m_majorVersion = 0xFF, m_ttl = 0xFFFFFFFF,
      m_minorVersion = 0xFFFFFFFF\<rparr>"

text \<open>\<open>m_reserved16\<close> is not initialised: its value is the argument \<open>uninitialised\<close>.\<close>

definition SubscribeNotificationEntry :: "u16 \<Rightarrow> ServiceIDs \<Rightarrow> EventGroupID \<Rightarrow> EventGroupEntry" where
  "SubscribeNotificationEntry uninitialised sid eventGroupID =
     \<lparr>m_type = Subscribe, m_indexFirstOptionRun = 0, m_indexSecondOptionRun = 0, m_1 = 0, m_2 = 0,
      m_serviceID = serviceID sid, m_entryInstanceID = instanceID sid, m_majorVersion = 1,
      m_ttl = 0xFFFFFFFF, m_reserved16 = uninitialised, m_eventGroupID = eventGroupID\<rparr>"

section \<open>The decoder\<close>

text \<open>The calls on the \<open>ServiceDiscoveryListener\<close>.\<close>

datatype DiscoveryEvent =
    onRemoteClientSubscription EventGroupEntry "IPv4ConfigurationOption option"
  | onRemoteClientSubscriptionFinished EventGroupEntry "IPv4ConfigurationOption option"
  | onRemoteServiceAvailable ServiceEntry IPv4ConfigurationOption ServiceDiscoveryMessage
  | onRemoteServiceUnavailable ServiceEntry IPv4ConfigurationOption ServiceDiscoveryMessage
  | onFindServiceRequested ServiceEntry ServiceDiscoveryMessage

fun IPv4AddressExtractor :: "ConfigurationOptionVariant \<Rightarrow> IPv4ConfigurationOption option" where
  "IPv4AddressExtractor (IPv4ConfigurationOptionV configurationOption) = Some configurationOption"

text \<open>\<open>getOptions()[index]\<close>: no check in the code, undefined out of range.\<close>

definition option_at :: "ServiceDiscoveryMessage \<Rightarrow> u8 \<Rightarrow> ConfigurationOptionVariant result" where
  "option_at msg i = (if unat i < length (m_options msg) then Inr (m_options msg ! unat i) else Inl OutOfBounds)"

fun EntryVisitor :: "ServiceDiscoveryMessage \<Rightarrow> ServiceEntryVariant \<Rightarrow> DiscoveryEvent result" where
  "EntryVisitor msg (ServiceEntryV entry) =
     (case m_type entry of
        OfferService \<Rightarrow> bindE (option_at msg (m_indexFirstOptionRun entry)) (\<lambda>opt.
          case IPv4AddressExtractor opt of
            None \<Rightarrow> Inl AssertFailed
          | Some addressOption \<Rightarrow>
              if m_ttl entry \<noteq> 0 then Inr (onRemoteServiceAvailable entry addressOption msg)
              else Inr (onRemoteServiceUnavailable entry addressOption msg))
      | FindService \<Rightarrow> Inr (onFindServiceRequested entry msg)
      | _ \<Rightarrow> Inl AssertFailed)"
| "EntryVisitor msg (EventGroupEntryV entry) =
     (case m_type entry of
        Subscribe \<Rightarrow> bindE
          (if m_1 entry \<noteq> 0
           then bindE (option_at msg (m_indexFirstOptionRun entry)) (\<lambda>opt. Inr (IPv4AddressExtractor opt))
           else Inr None) (\<lambda>addressOption.
          if m_ttl entry \<noteq> 0 then Inr (onRemoteClientSubscription entry addressOption)
          else Inr (onRemoteClientSubscriptionFinished entry addressOption))
      | _ \<Rightarrow> Inl AssertFailed)"

fun visit_entries :: "ServiceDiscoveryMessage \<Rightarrow> ServiceEntryVariant list \<Rightarrow> DiscoveryEvent list result" where
  "visit_entries msg [] = Inr []"
| "visit_entries msg (entry # entries) =
     bindE (EntryVisitor msg entry) (\<lambda>ev. bindE (visit_entries msg entries) (\<lambda>evs. Inr (ev # evs)))"

definition decodeMessage_with_header ::
    "endianness \<Rightarrow> 'a SomeIPHeader_scheme \<Rightarrow> u8 list \<Rightarrow> DiscoveryEvent list result" where
  "decodeMessage_with_header h header payload =
     (case SD_read_with_header h header (Deserializer_new payload) of
        None \<Rightarrow> Inl OutOfBounds
      | Some (msg, _) \<Rightarrow> visit_entries msg (m_entries msg))"

definition decodeMessage :: "endianness \<Rightarrow> u8 list \<Rightarrow> DiscoveryEvent list result" where
  "decodeMessage h payload =
     (case SD_read h (Deserializer_new payload) of
        None \<Rightarrow> Inl OutOfBounds
      | Some (msg, _) \<Rightarrow> visit_entries msg (m_entries msg))"

section \<open>Entries and options as codecs\<close>

definition entry_header_code :: "'a EntryHeader_scheme \<Rightarrow> u8 list" where
  "entry_header_code e =
     [m_indexFirstOptionRun e, m_indexSecondOptionRun e,
      push_bit 4 (m_1 e) + m_2 e] @ bytes_be (m_serviceID e) @ bytes_be (m_entryInstanceID e)
     @ [m_majorVersion e] @ low_bytes 3 (m_ttl e)"

fun entry_code :: "ServiceEntryVariant \<Rightarrow> u8 list" where
  "entry_code (ServiceEntryV e) = EntryType_underlying (m_type e) # entry_header_code e @ bytes_be (m_minorVersion e)"
| "entry_code (EventGroupEntryV e) =
     EntryType_underlying (m_type e) # entry_header_code e @ bytes_be (m_reserved16 e) @ bytes_be (m_eventGroupID e)"

text \<open>The entries the reader has a case for, with option counts that fit their four bits.\<close>

fun entry_ok :: "ServiceEntryVariant \<Rightarrow> bool" where
  "entry_ok (ServiceEntryV e) =
     ((m_type e = FindService \<or> m_type e = OfferService) \<and> m_1 e < 16 \<and> m_2 e < 16)"
| "entry_ok (EventGroupEntryV e) =
     ((m_type e = Subscribe \<or> m_type e = SubscribeAck) \<and> m_1 e < 16 \<and> m_2 e < 16)"

text \<open>What arrives: the time to live keeps 24 of its 32 bits.\<close>

fun entry_seen :: "ServiceEntryVariant \<Rightarrow> ServiceEntryVariant" where
  "entry_seen (ServiceEntryV e) = ServiceEntryV (e\<lparr>m_ttl := take_bit 24 (m_ttl e)\<rparr>)"
| "entry_seen (EventGroupEntryV e) = EventGroupEntryV (e\<lparr>m_ttl := take_bit 24 (m_ttl e)\<rparr>)"

fun option_code :: "endianness \<Rightarrow> ConfigurationOptionVariant \<Rightarrow> u8 list" where
  "option_code h (IPv4ConfigurationOptionV o') =
     bytes_be (9 :: u16) @ [OptionType_underlying (m_optionType o'), 0] @ toArray h (m_address o')
     @ [reserved o', TransportProtocol_underlying (m_protocol o')] @ bytes_be (m_port o')"

fun option_ok :: "ConfigurationOptionVariant \<Rightarrow> bool" where
  "option_ok (IPv4ConfigurationOptionV o') =
     (m_optionType o' = IPv4Option \<and> TransportProtocol_ok (m_protocol o'))"

fun option_seen :: "endianness \<Rightarrow> endianness \<Rightarrow> ConfigurationOptionVariant \<Rightarrow> ConfigurationOptionVariant" where
  "option_seen h h' (IPv4ConfigurationOptionV o') = IPv4ConfigurationOptionV
     (o'\<lparr>m_address := IPV4Address_assign h' IPV4Address_new (toArray h (m_address o'))\<rparr>)"

lemma length_entry_code [simp]: "length (entry_code e) = 16"
  by (cases e) (simp_all add: entry_header_code_def)

lemma length_option_code [simp]: "length (option_code h o') = 12"
  by (cases o') simp

lemma contents_SerializeVisitor:
  "ba_invar b \<Longrightarrow> contents (SerializeVisitor h b e) = contents b @ entry_code e"
  by (cases e) (simp_all add: ServiceEntry_serialize_def EventGroupEntry_serialize_def Let_def
      entry_header_code_def)

lemma invar_SerializeVisitor: "ba_invar b \<Longrightarrow> ba_invar (SerializeVisitor h b e)"
  by (cases e) (simp_all add: ServiceEntry_serialize_def EventGroupEntry_serialize_def Let_def)

text \<open>\<open>read_entry\<close> as a reader of entries alone, for the codec.\<close>

definition get_entry :: "endianness \<Rightarrow> Deserializer \<Rightarrow> (ServiceEntryVariant \<times> Deserializer) option" where
  "get_entry h d = (case read_entry h d of Some (Some e, d) \<Rightarrow> Some (e, d) | _ \<Rightarrow> None)"

definition get_option :: "endianness \<Rightarrow> Deserializer \<Rightarrow> (ConfigurationOptionVariant \<times> Deserializer) option" where
  "get_option h d = (case read_option h d of Some (Some e, d) \<Rightarrow> Some (e, d) | _ \<Rightarrow> None)"

lemmas entry_wire_simps = readValue_network readValue_byte et.readEnum_byte
  Tuple4Bits4Bits_dser LSBDeserializer_dser

lemma ServiceEntry_deserialize_code:
  assumes "m_1 e < 16" and "m_2 e < 16"
  shows "ServiceEntry_deserialize h (m_type e)
      (dser pre (entry_header_code e @ bytes_be (m_minorVersion e) @ rest))
    = Some (e\<lparr>m_ttl := take_bit 24 (m_ttl e)\<rparr>,
        dser (pre @ entry_header_code e @ bytes_be (m_minorVersion e)) rest)"
  using assms by (simp add: ServiceEntry_deserialize_def entry_header_code_def Let_def entry_wire_simps)

lemma EventGroupEntry_deserialize_code:
  assumes "m_1 e < 16" and "m_2 e < 16"
  shows "EventGroupEntry_deserialize h (m_type e)
      (dser pre (entry_header_code e @ bytes_be (m_reserved16 e) @ bytes_be (m_eventGroupID e) @ rest))
    = Some (e\<lparr>m_ttl := take_bit 24 (m_ttl e)\<rparr>,
        dser (pre @ entry_header_code e @ bytes_be (m_reserved16 e) @ bytes_be (m_eventGroupID e)) rest)"
  using assms by (simp add: EventGroupEntry_deserialize_def entry_header_code_def Let_def entry_wire_simps)

lemma read_entry_code:
  assumes "entry_ok e"
  shows "read_entry h (dser pre (entry_code e @ rest)) = Some (Some (entry_seen e), dser (pre @ entry_code e) rest)"
proof (cases e)
  case (ServiceEntryV s)
  from assms ServiceEntryV have "EntryType_cast (EntryType_underlying (m_type s)) = m_type s"
    by (auto simp: EntryType_cast_def)
  with assms ServiceEntryV ServiceEntry_deserialize_code [of s h _ rest] show ?thesis
    unfolding read_entry_def ServiceEntryV entry_code.simps
    by (auto simp: et.readEnum_byte)
next
  case (EventGroupEntryV s)
  from assms EventGroupEntryV have "EntryType_cast (EntryType_underlying (m_type s)) = m_type s"
    by (auto simp: EntryType_cast_def)
  with assms EventGroupEntryV EventGroupEntry_deserialize_code [of s h _ rest] show ?thesis
    unfolding read_entry_def EventGroupEntryV entry_code.simps
    by (auto simp: et.readEnum_byte)
qed

interpretation entry: wire_codec "SerializeVisitor h" "get_entry h'" entry_code entry_ok entry_seen for h h'
  by unfold_locales (simp_all add: contents_SerializeVisitor invar_SerializeVisitor get_entry_def read_entry_code)

lemma list_of_4: "length xs = 4 \<Longrightarrow> [xs ! 0, xs ! Suc 0, xs ! 2, xs ! 3] = xs"
  by (auto simp: numeral_eq_Suc length_Suc_conv)

lemma appends_option:
  "appends (\<lambda>b. OptionSerializeVisitor h b o') (option_code h o')"
proof (cases o')
  case (IPv4ConfigurationOptionV p)
  let ?body = "[OptionType_underlying (m_optionType p), 0] @ toArray h (m_address p)
     @ [reserved p, TransportProtocol_underlying (m_protocol p)] @ bytes_be (m_port p)"
  have "appends (\<lambda>b. let b = writeEnum (NetworkSerializer h) OptionType_underlying b (m_optionType p);
           b = writeValue (NetworkSerializer h) b (0 :: u8)
       in IPv4ConfigurationOption_serialize h p b) ?body"
    using list_of_4 [of "toArray h (m_address p)"]
    by (simp add: appends_def IPv4ConfigurationOption_serialize_def Let_def)
  from appends_scope [OF this, where 'a = 16 and k = "NetworkSerializer h" and off = 1]
  show ?thesis by (simp add: IPv4ConfigurationOptionV)
qed

lemma IPv4ConfigurationOption_deserialize_code:
  assumes "TransportProtocol_ok (m_protocol p)" and "m_optionType p = IPv4Option" and "length a = 4"
  shows "IPv4ConfigurationOption_deserialize h' (dser pre (a @
      [reserved p, TransportProtocol_underlying (m_protocol p)] @ bytes_be (m_port p) @ rest))
    = Some (p\<lparr>m_address := IPV4Address_assign h' IPV4Address_new a\<rparr>,
        dser (pre @ a @ [reserved p, TransportProtocol_underlying (m_protocol p)] @ bytes_be (m_port p)) rest)"
proof -
  obtain a0 a1 a2 a3 where a: "a = [a0, a1, a2, a3]"
    using assms(3) by (auto simp: numeral_eq_Suc length_Suc_conv)
  show ?thesis
    using assms(1,2) unfolding a
    by (simp add: IPv4ConfigurationOption_deserialize_def Let_def readValue_network readValue_byte
        tp.readEnum_byte canonical_def)
qed

lemma read_option_code:
  assumes "option_ok o'"
  shows "read_option h' (dser pre (option_code h o' @ rest))
    = Some (Some (option_seen h h' o'), dser (pre @ option_code h o') rest)"
proof (cases o')
  case (IPv4ConfigurationOptionV p)
  with assms IPv4ConfigurationOption_deserialize_code [of p "toArray h (m_address p)" h' _ rest]
  show ?thesis
    by (simp add: read_option_def readValue_network readValue_byte ot.readEnum_byte OptionType_cast_def)
qed

interpretation opt: wire_codec "OptionSerializeVisitor h" "get_option h'" "option_code h" option_ok "option_seen h h'"
  for h h'
  using appends_option
  by unfold_locales (auto simp: appends_def get_option_def read_option_code)

section \<open>Messages\<close>

lemma readEntries_loop_code:
  assumes "list_all entry_ok es" and "16 * length es + length rest \<le> baseRemain"
    and "baseRemain - length rest = unat n"
  shows "readEntries_loop h baseRemain n acc (dser pre (concat (map entry_code es) @ rest))
    = Some (acc @ map entry_seen es, dser (pre @ concat (map entry_code es)) rest)"
  using assms
proof (induction es arbitrary: acc pre)
  case Nil
  then show ?case by (simp add: readEntries_loop.simps)
next
  case (Cons e es)
  have l: "length (concat (map entry_code es)) = 16 * length es" by (induction es) simp_all
  show ?case
    using Cons.prems Cons.IH [of "acc @ [entry_seen e]" "pre @ entry_code e"]
    by (subst readEntries_loop.simps) (simp add: read_entry_code l)
qed

lemma readOptions_loop_code:
  assumes "list_all option_ok os" and "12 * length os + length rest \<le> baseRemain"
    and "baseRemain - length rest = unat n"
  shows "readOptions_loop h' baseRemain n acc (dser pre (concat (map (option_code h) os) @ rest))
    = Some (acc @ map (option_seen h h') os, dser (pre @ concat (map (option_code h) os)) rest)"
  using assms
proof (induction os arbitrary: acc pre)
  case Nil
  then show ?case by (simp add: readOptions_loop.simps)
next
  case (Cons o' os)
  have l: "length (concat (map (option_code h) os)) = 12 * length os" by (induction os) simp_all
  show ?case
    using Cons.prems Cons.IH [of "acc @ [option_seen h h' o']" "pre @ option_code h o'"]
    by (subst readOptions_loop.simps) (simp add: read_option_code l)
qed

lemma bit_u6: "bit (w :: 6 word) n \<Longrightarrow> n < 6"
  by (drule bit_imp_le_length) simp

lemma Flags_of_byte_Flags_byte [simp]: "Flags_of_byte h (Flags_byte h f) = f"
proof -
  obtain r u w where f: "f = \<lparr>reboot = r, unicast = u, unused = w\<rparr>" by (cases f)
  show ?thesis
  proof (cases h)
    case LittleEndian
    have "ucast (drop_bit 2 (or (of_bool r) (or (push_bit 1 (of_bool u)) (push_bit 2 (ucast w))) :: u8)) = w"
      by (rule bit_word_eqI) (auto simp: bit_simps dest: bit_u6)
    then show ?thesis by (simp add: f LittleEndian bit_simps)
  next
    case BigEndian
    have "ucast (or (push_bit 7 (of_bool r)) (or (push_bit 6 (of_bool u)) (ucast w)) :: u8) = w"
      by (rule bit_word_eqI) (auto simp: bit_simps)
    moreover have "\<not> bit w 6" "\<not> bit w 7" by (auto dest: bit_u6)
    ultimately show ?thesis by (simp add: f BigEndian bit_simps)
  qed
qed

text \<open>The bytes of a message: behind the header, flags, the entries and the options.\<close>

definition SD_body_code :: "endianness \<Rightarrow> ServiceDiscoveryMessage \<Rightarrow> u8 list" where
  "SD_body_code h msg =
     [Flags_byte h (m_flags msg), m_reserved1 msg, m_reserved2 msg, m_reserved3 msg]
     @ bytes_be (of_nat (16 * length (m_entries msg)) :: u32) @ concat (map entry_code (m_entries msg))
     @ bytes_be (of_nat (12 * length (m_options msg)) :: u32) @ concat (map (option_code h) (m_options msg))"

definition SD_ok :: "ServiceDiscoveryMessage \<Rightarrow> bool" where
  "SD_ok msg = (header_ok msg \<and> list_all entry_ok (m_entries msg) \<and> list_all option_ok (m_options msg)
     \<and> 16 * length (m_entries msg) < 2 ^ 32 \<and> 12 * length (m_options msg) < 2 ^ 32)"

definition SD_seen :: "endianness \<Rightarrow> endianness \<Rightarrow> ServiceDiscoveryMessage \<Rightarrow> ServiceDiscoveryMessage" where
  "SD_seen h h' msg = msg\<lparr>m_flags := Flags_of_byte h' (Flags_byte h (m_flags msg)),
     m_entries := map entry_seen (m_entries msg), m_options := map (option_seen h h') (m_options msg)\<rparr>"

lemma length_entries_code: "length (concat (map entry_code es)) = 16 * length es"
  by (induction es) simp_all

lemma length_options_code: "length (concat (map (option_code h) os)) = 12 * length os"
  by (induction os) simp_all

lemma ucast_of_nat_u64: "(ucast (of_nat n :: u64) :: u32) = of_nat n"
  by (rule bit_word_eqI) (simp add: bit_simps)

lemma contents_SD_serialize:
  assumes "ba_invar b"
  shows "contents (SD_serialize h msg b)
    = contents b @ header_code msg (of_nat (8 + length (SD_body_code h msg))) @ SD_body_code h msg"
proof -
  let ?k = "NetworkSerializer h"
  have es: "appends (LengthPlaceHolder_scope ?k TYPE(32) 0 (\<lambda>b. foldl (SerializeVisitor h) b (m_entries msg)))
      (bytes_be (of_nat (16 * length (m_entries msg)) :: u32) @ concat (map entry_code (m_entries msg)))"
    using appends_scope [where 'a = 32 and off = 0 and k = ?k and bs = "concat (map entry_code (m_entries msg))"
        and body = "\<lambda>b. foldl (SerializeVisitor h) b (m_entries msg)"]
    by (simp add: appends_def entry.contents_foldl entry.invar_foldl length_entries_code ucast_of_nat_u64
        del: of_nat_mult of_nat_add)
  have os: "appends (LengthPlaceHolder_scope ?k TYPE(32) 0 (\<lambda>b. foldl (OptionSerializeVisitor h) b (m_options msg)))
      (bytes_be (of_nat (12 * length (m_options msg)) :: u32) @ concat (map (option_code h) (m_options msg)))"
    using appends_scope [where 'a = 32 and off = 0 and k = ?k and bs = "concat (map (option_code h) (m_options msg))"
        and body = "\<lambda>b. foldl (OptionSerializeVisitor h) b (m_options msg)"]
    by (simp add: appends_def opt.contents_foldl opt.invar_foldl length_options_code ucast_of_nat_u64
        del: of_nat_mult of_nat_add)
  let ?rest = "bytes_be (m_requestID msg) @ [m_protocolVersion msg, m_interfaceVersion msg,
      MessageType_underlying (m_messageType msg), ReturnCode_underlying (m_returnCode msg)] @ SD_body_code h msg"
  have all: "appends (\<lambda>b. let b = writeValue ?k b (m_requestID msg);
               b = writeValue ?k b (m_protocolVersion msg);
               b = writeValue ?k b (m_interfaceVersion msg);
               b = writeValue ?k b (MessageType_underlying (m_messageType msg));
               b = writeValue ?k b (ReturnCode_underlying (m_returnCode msg));
               b = writeValue ?k b (Flags_byte h (m_flags msg));
               b = writeValue ?k b (m_reserved1 msg);
               b = writeValue ?k b (m_reserved2 msg);
               b = writeValue ?k b (m_reserved3 msg);
               b = LengthPlaceHolder_scope ?k TYPE(32) 0 (\<lambda>b. foldl (SerializeVisitor h) b (m_entries msg)) b
           in LengthPlaceHolder_scope ?k TYPE(32) 0 (\<lambda>b. foldl (OptionSerializeVisitor h) b (m_options msg)) b) ?rest"
    using es os by (simp add: appends_def Let_def SD_body_code_def)
  have "length ?rest = 8 + length (SD_body_code h msg)" by simp
  with appends_scope [OF all, where 'a = 32 and off = 0 and k = ?k] assms show ?thesis
    unfolding SD_serialize_def Let_def appends_def
    by (simp add: header_code_def ucast_of_nat_u64 del: of_nat_mult of_nat_add)
qed

lemma SD_deserialize_code:
  assumes "SD_ok msg" and "m_entries this = []" and "m_options this = []"
  shows "SD_deserialize h' this (dser pre (SD_body_code h msg))
    = Some (this\<lparr>m_flags := Flags_of_byte h' (Flags_byte h (m_flags msg)), m_reserved1 := m_reserved1 msg,
         m_reserved2 := m_reserved2 msg, m_reserved3 := m_reserved3 msg,
         m_entries := map entry_seen (m_entries msg), m_options := map (option_seen h h') (m_options msg)\<rparr>,
       dser (pre @ SD_body_code h msg) [])"
proof -
  let ?es = "concat (map entry_code (m_entries msg))" and ?os = "concat (map (option_code h) (m_options msg))"
  let ?nos = "bytes_be (of_nat (12 * length (m_options msg)) :: u32)"
  have n: "unat (of_nat (16 * length (m_entries msg)) :: u32) = 16 * length (m_entries msg)"
    "unat (of_nat (12 * length (m_options msg)) :: u32) = 12 * length (m_options msg)"
    using assms(1) unfolding SD_ok_def by (simp_all add: unat_of_nat take_bit_nat_eq_self del: of_nat_mult)
  have es: "readEntries_loop h' (length (?es @ ?nos @ ?os)) (of_nat (16 * length (m_entries msg))) []
      (dser p (?es @ ?nos @ ?os)) = Some (map entry_seen (m_entries msg), dser (p @ ?es) (?nos @ ?os))" for p
    using readEntries_loop_code [of "m_entries msg" "?nos @ ?os" _ _ h' "[]" p] assms(1) n(1)
    by (simp add: SD_ok_def length_entries_code del: of_nat_mult)
  have os: "readOptions_loop h' (length ?os) (of_nat (12 * length (m_options msg))) []
      (dser p ?os) = Some (map (option_seen h h') (m_options msg), dser (p @ ?os) [])" for p
    using readOptions_loop_code [of "m_options msg" "[]", where acc = "[]" and pre = p and h = h and h' = h'
        and n = "of_nat (12 * length (m_options msg))" and baseRemain = "12 * length (m_options msg)"] assms(1) n(2)
    by (simp add: SD_ok_def length_options_code del: of_nat_mult)
  show ?thesis
    using es os assms(2,3)
    by (simp add: SD_deserialize_def SD_body_code_def Let_def readValue_network readValue_byte
        del: of_nat_mult length_append)
qed

lemma SD_seen_build:
  "(SomeIPHeader_assign ServiceDiscoveryMessage_default msg)
     \<lparr>m_flags := Flags_of_byte h' (Flags_byte h (m_flags msg)), m_reserved1 := m_reserved1 msg,
      m_reserved2 := m_reserved2 msg, m_reserved3 := m_reserved3 msg,
      m_entries := map entry_seen (m_entries msg), m_options := map (option_seen h h') (m_options msg)\<rparr>
   = SD_seen h h' msg"
  by (cases msg) (simp add: SD_seen_def SomeIPHeader_assign_def ServiceDiscoveryMessage_default_def
      SomeIPHeader_default_def SomeIPHeader.defs ServiceDiscoveryMessage.defs)

lemma ServiceDiscoveryMessage_default_lists [simp]:
  "m_entries (SomeIPHeader_assign ServiceDiscoveryMessage_default hdr) = []"
  "m_options (SomeIPHeader_assign ServiceDiscoveryMessage_default hdr) = []"
  by (simp_all add: SomeIPHeader_assign_def ServiceDiscoveryMessage_default_def
      SomeIPHeader_default_def SomeIPHeader.defs ServiceDiscoveryMessage.defs)

lemma SD_read_code:
  "SD_ok msg \<Longrightarrow> SD_read h' (dser pre (header_code msg len @ SD_body_code h msg))
    = Some (SD_seen h h' msg, dser (pre @ header_code msg len @ SD_body_code h msg) [])"
  by (simp add: SD_read_def SomeIPHeader_deserialize_code SD_deserialize_code SD_seen_build SD_ok_def)

lemma SD_read_with_header_code:
  "SD_ok msg \<Longrightarrow> SD_read_with_header h' msg (dser pre (SD_body_code h msg))
    = Some (SD_seen h h' msg, dser (pre @ SD_body_code h msg) [])"
  by (simp add: SD_read_with_header_def SD_deserialize_code SD_seen_build)

section \<open>Session numbers\<close>

text \<open>Messages created one after the other, each for multicast or not.\<close>

fun new_messages :: "SessionCounters \<Rightarrow> bool list \<Rightarrow> ServiceDiscoveryMessage list" where
  "new_messages st [] = []"
| "new_messages st (isMulticast # rest) =
     (let (st, msg) = ServiceDiscoveryMessage_new st isMulticast in msg # new_messages st rest)"

definition session_of :: "ServiceDiscoveryMessage \<Rightarrow> u32 \<times> bool" where
  "session_of msg = (m_requestID msg, getRebootFlag msg)"

text \<open>The number of the session \<open>n\<close> messages after the first, and the counters at that time.\<close>

definition session_id :: "nat \<Rightarrow> u16" where
  "session_id n = of_nat (Suc (n mod 65535))"

definition counters_at :: "nat \<Rightarrow> nat \<Rightarrow> SessionCounters" where
  "counters_at u m = \<lparr>s_nextUnicastSessionID = session_id u, s_nextMulticastSessionID = session_id m,
     s_UnicastReboot = (u < 65535), s_MulticastReboot = (m < 65535)\<rparr>"

lemma unat_session_id: "unat (session_id n) = Suc (n mod 65535)"
proof -
  have "Suc (n mod 65535) < 65536" by simp
  then show ?thesis unfolding session_id_def by (simp add: unat_of_nat del: of_nat_Suc)
qed

lemma session_id_step:
  "session_id n + 1 = (if Suc n mod 65535 = 0 then 0 else session_id (Suc n))"
proof -
  have e: "session_id n + 1 = of_nat (Suc (Suc (n mod 65535)))" by (simp add: session_id_def)
  show ?thesis
  proof (cases "Suc (n mod 65535) = 65535")
    case True
    then have "Suc n mod 65535 = 0" by (simp add: mod_Suc)
    moreover have "(of_nat (Suc (Suc (n mod 65535))) :: u16) = of_nat 65536" using True by simp
    ultimately show ?thesis unfolding e by simp
  next
    case False
    then have "Suc n mod 65535 = Suc (n mod 65535)" by (simp add: mod_Suc)
    then show ?thesis unfolding e by (simp add: session_id_def)
  qed
qed

lemma session_id_nonzero: "session_id n \<noteq> 0"
  using unat_session_id [of n] by auto

lemma session_id_first: "Suc n mod 65535 = 0 \<Longrightarrow> session_id (Suc n) = 1"
  by (simp add: session_id_def)

lemma reboot_step:
  "(if Suc n mod 65535 = 0 then False else n < 65535) = (Suc n < 65535)"
proof (cases "Suc n < 65535")
  case False
  then show ?thesis by (cases "Suc n = 65535") auto
qed auto

lemma ServiceDiscoveryMessage_new_at:
  "\<exists>msg. ServiceDiscoveryMessage_new (counters_at u m) isMulticast
      = (if isMulticast then counters_at u (Suc m) else counters_at (Suc u) m, msg)
    \<and> unicast (m_flags msg) = (\<not> isMulticast)
    \<and> session_of msg = (if isMulticast then (ucast (session_id m), m < 65535) else (ucast (session_id u), u < 65535))"
  using session_id_step [of u] session_id_step [of m] session_id_nonzero [of "Suc u"] session_id_nonzero [of "Suc m"]
    session_id_first [of u] session_id_first [of m] reboot_step [of u] reboot_step [of m]
  by (auto simp: ServiceDiscoveryMessage_new_def assignUniqueSessionID_def counters_at_def session_of_def
      getRebootFlag_def setRequestID_def setMessageType_def setMessageID_def Let_def split: if_splits)

lemma new_messages_sessions:
  "map session_of (filter (\<lambda>msg. unicast (m_flags msg) = uni) (new_messages (counters_at u m) ms))
   = map (\<lambda>n. (ucast (session_id n), n < 65535))
       [(if uni then u else m) ..< (if uni then u else m) + length (filter (\<lambda>x. x \<noteq> uni) ms)]"
proof (induction ms arbitrary: u m)
  case (Cons x ms)
  obtain msg where msg: "ServiceDiscoveryMessage_new (counters_at u m) x
      = (if x then counters_at u (Suc m) else counters_at (Suc u) m, msg)"
    "unicast (m_flags msg) = (\<not> x)"
    "session_of msg = (if x then (ucast (session_id m), m < 65535) else (ucast (session_id u), u < 65535))"
    using ServiceDiscoveryMessage_new_at [of u m x] by blast
  then show ?case
    using Cons.IH [of "if x then u else Suc u" "if x then Suc m else m"]
    by (cases x; cases uni) (simp_all add: upt_conv_Cons del: upt_Suc)
qed simp

section \<open>Properties\<close>

text \<open>
  C8. A service discovery message survives the network: serialized on a host of either byte
  order behind nothing and read by a host of either byte order, it comes back with the same
  header, the same entries and options in the same order. Only the time to live loses its
  upper 8 bits, an address its interface name, and the flags are laid out anew when the two
  hosts differ in byte order. On equal hosts the flags are the same.
\<close>

theorem sd_message_round_trip:
  assumes "SD_ok msg"
  shows "SD_read h' (Deserializer_new (contents (SD_serialize h msg ByteArray_new)))
      = Some (msg\<lparr>m_flags := Flags_of_byte h' (Flags_byte h (m_flags msg)),
          m_entries := map entry_seen (m_entries msg), m_options := map (option_seen h h') (m_options msg)\<rparr>,
        dser (contents (SD_serialize h msg ByteArray_new)) [])
    \<and> Flags_of_byte h (Flags_byte h (m_flags msg)) = m_flags msg"
  using SD_read_code [OF assms, of h' "[]"]
  by (simp add: contents_SD_serialize Deserializer_new_dser SD_seen_def)

definition sample_message :: ServiceDiscoveryMessage where
  "sample_message =
     (let (st, msg) = ServiceDiscoveryMessage_new SessionCounters_init True;
          (entry, msg) = ServiceOfferedEntry msg \<lparr>serviceID = 0x1234, instanceID = 1\<rparr> TCP
            \<lparr>numbers = 0x0100007F, m_interfaceName = ''lo''\<rparr> 10032
      in addEntry (addEntry msg (ServiceEntryV entry)) (EventGroupEntryV
           (SubscribeNotificationEntry 0 \<lparr>serviceID = 0x1234, instanceID = 1\<rparr> 7)))"

lemmas sample_message_simps = sample_message_def ServiceDiscoveryMessage_new_def
  ServiceDiscoveryMessage_default_def SomeIPHeader_default_def SomeIPHeader.defs ServiceDiscoveryMessage.defs
  assignUniqueSessionID_def SessionCounters_init_def setRequestID_def setMessageType_def setMessageID_def
  ServiceOfferedEntry_def SubscribeNotificationEntry_def addOption_def addEntry_def
  IPv4ConfigurationOption_new_def Let_def

theorem sd_message_round_trip_witness:
  "SD_ok sample_message \<and> map_option (\<lambda>(msg, d). map entry_seen (m_entries sample_message) = m_entries msg)
     (SD_read BigEndian (Deserializer_new (contents (SD_serialize LittleEndian sample_message ByteArray_new))))
   = Some True"
proof -
  have "SD_ok sample_message"
    by (simp add: SD_ok_def header_ok_def sample_message_simps)
  with sd_message_round_trip [of sample_message BigEndian LittleEndian] show ?thesis by simp
qed

text \<open>
  C17. Whatever mixture of unicast and multicast messages a process creates, the two kinds
  are numbered independently: the n-th message of a kind (from 0) carries the session number
  1 + n mod 65535, never 0, and its reboot flag is set exactly for the first 65535 of them.
\<close>

theorem sd_session_numbers:
  "map session_of (filter (\<lambda>msg. unicast (m_flags msg) = uni) (new_messages SessionCounters_init ms))
   = map (\<lambda>n. (of_nat (1 + n mod 65535), n < 65535)) [0 ..< length (filter (\<lambda>isMulticast. isMulticast \<noteq> uni) ms)]"
proof -
  have "(ucast (session_id n) :: u32) = of_nat (1 + n mod 65535)" for n
    using unat_session_id [of n] by (simp add: unsigned_def) 
  moreover have "counters_at 0 0 = SessionCounters_init"
    by (simp add: counters_at_def SessionCounters_init_def session_id_def)
  ultimately show ?thesis
    using new_messages_sessions [of uni 0 0 ms] by simp
qed

end
