(* ===== verification/IPC_Messages.thy ===== *)
theory IPC_Messages
  imports SomeIP_Header
begin

text \<open>
  The messages between an application and the daemon: \<open>IPCMessage\<close> with its header in the
  first bytes of the payload (\<open>lib/ipc.h\<close>, \<open>lib/ipc/IPC.cpp\<close>), and the SOME/IP messages
  whose header lies behind it (\<open>lib/Message.h\<close>, \<open>lib/Message.cpp\<close>).

  A header is a structure laid over the bytes of the array: reading it decodes the bytes at
  its position, assigning to a field writes the bytes back. The view lemmas give, for every
  message a constructor makes, the header and the payload it stands for.
\<close>

section \<open>Enumerations\<close>

datatype IPCOperationReport = IPC_OK | BUFFER_FULL | DISCONNECTED

definition IPC_isError :: "IPCOperationReport \<Rightarrow> bool" where
  "IPC_isError code = (code = DISCONNECTED)"

datatype IPCMessageType =
  INVALID | PING | PONG | SEND_MESSAGE | REGISTER_SERVICE | UNREGISTER_SERVICE | GET_SERVICE_LIST
  | SUBSCRIBE_NOTIFICATION | DUMP_STATE | ANSWER | SERVICES_REGISTERED | SERVICES_UNREGISTERED
  | IPCMessageType_other u8

fun IPCMessageType_underlying :: "IPCMessageType \<Rightarrow> u8" where
  "IPCMessageType_underlying INVALID = 0"
| "IPCMessageType_underlying PING = 1"
| "IPCMessageType_underlying PONG = 2"
| "IPCMessageType_underlying SEND_MESSAGE = 3"
| "IPCMessageType_underlying REGISTER_SERVICE = 4"
| "IPCMessageType_underlying UNREGISTER_SERVICE = 5"
| "IPCMessageType_underlying GET_SERVICE_LIST = 6"
| "IPCMessageType_underlying SUBSCRIBE_NOTIFICATION = 7"
| "IPCMessageType_underlying DUMP_STATE = 8"
| "IPCMessageType_underlying ANSWER = 9"
| "IPCMessageType_underlying SERVICES_REGISTERED = 10"
| "IPCMessageType_underlying SERVICES_UNREGISTERED = 11"
| "IPCMessageType_underlying (IPCMessageType_other b) = b"

definition IPCMessageType_cast :: "u8 \<Rightarrow> IPCMessageType" where
  "IPCMessageType_cast b =
     (if b = 0 then INVALID else if b = 1 then PING else if b = 2 then PONG
      else if b = 3 then SEND_MESSAGE else if b = 4 then REGISTER_SERVICE
      else if b = 5 then UNREGISTER_SERVICE else if b = 6 then GET_SERVICE_LIST
      else if b = 7 then SUBSCRIBE_NOTIFICATION else if b = 8 then DUMP_STATE
      else if b = 9 then ANSWER else if b = 10 then SERVICES_REGISTERED
      else if b = 11 then SERVICES_UNREGISTERED else IPCMessageType_other b)"

datatype IPCReturnCode = IPC_RC_UNDEFINED | IPC_RC_OK | IPC_RC_ERROR | IPCReturnCode_other u8

fun IPCReturnCode_underlying :: "IPCReturnCode \<Rightarrow> u8" where
  "IPCReturnCode_underlying IPC_RC_UNDEFINED = 0"
| "IPCReturnCode_underlying IPC_RC_OK = 1"
| "IPCReturnCode_underlying IPC_RC_ERROR = 2"
| "IPCReturnCode_underlying (IPCReturnCode_other b) = b"

definition IPCReturnCode_cast :: "u8 \<Rightarrow> IPCReturnCode" where
  "IPCReturnCode_cast b =
     (if b = 0 then IPC_RC_UNDEFINED else if b = 1 then IPC_RC_OK
      else if b = 2 then IPC_RC_ERROR else IPCReturnCode_other b)"

interpretation imt: wire_enum IPCMessageType_underlying IPCMessageType_cast
  by unfold_locales (simp add: IPCMessageType_cast_def)

interpretation irc: wire_enum IPCReturnCode_underlying IPCReturnCode_cast
  by unfold_locales (simp add: IPCReturnCode_cast_def)

abbreviation IPCMessageType_ok :: "IPCMessageType \<Rightarrow> bool" where
  "IPCMessageType_ok \<equiv> canonical IPCMessageType_underlying IPCMessageType_cast"

abbreviation IPCReturnCode_ok :: "IPCReturnCode \<Rightarrow> bool" where
  "IPCReturnCode_ok \<equiv> canonical IPCReturnCode_underlying IPCReturnCode_cast"

lemma canonical_ipc [simp]:
  "IPCMessageType_ok INVALID" "IPCMessageType_ok PING" "IPCMessageType_ok PONG"
  "IPCMessageType_ok SEND_MESSAGE" "IPCMessageType_ok REGISTER_SERVICE"
  "IPCMessageType_ok UNREGISTER_SERVICE" "IPCMessageType_ok GET_SERVICE_LIST"
  "IPCMessageType_ok SUBSCRIBE_NOTIFICATION" "IPCMessageType_ok DUMP_STATE"
  "IPCMessageType_ok ANSWER" "IPCMessageType_ok SERVICES_REGISTERED"
  "IPCMessageType_ok SERVICES_UNREGISTERED"
  "IPCReturnCode_ok IPC_RC_UNDEFINED" "IPCReturnCode_ok IPC_RC_OK" "IPCReturnCode_ok IPC_RC_ERROR"
  by (simp_all add: canonical_def IPCMessageType_cast_def IPCReturnCode_cast_def)

section \<open>Structures laid over bytes\<close>

record IPCMessageHeader =
  ipc_requestID :: u16
  ipc_messageType :: IPCMessageType
  ipc_returnCode :: IPCReturnCode

definition sizeof_IPCMessageHeader :: nat where "sizeof_IPCMessageHeader = 4"

text \<open>The four bytes of the structure on the host.\<close>

definition IPCMessageHeader_bytes :: "endianness \<Rightarrow> IPCMessageHeader \<Rightarrow> u8 list" where
  "IPCMessageHeader_bytes h hdr = object_bytes h (ipc_requestID hdr)
     @ [IPCMessageType_underlying (ipc_messageType hdr), IPCReturnCode_underlying (ipc_returnCode hdr)]"

definition IPCMessageHeader_of :: "endianness \<Rightarrow> u8 list \<Rightarrow> IPCMessageHeader" where
  "IPCMessageHeader_of h bs = \<lparr>ipc_requestID = object_value h (take 2 bs),
     ipc_messageType = IPCMessageType_cast (bs ! 2), ipc_returnCode = IPCReturnCode_cast (bs ! 3)\<rparr>"

definition IPCMessageHeader_ok :: "IPCMessageHeader \<Rightarrow> bool" where
  "IPCMessageHeader_ok hdr = (IPCMessageType_ok (ipc_messageType hdr) \<and> IPCReturnCode_ok (ipc_returnCode hdr))"

record IPCMessage =
  m_payload :: ByteArray

definition IPCMessage_new :: IPCMessage where
  "IPCMessage_new = \<lparr>m_payload = ba_resize ByteArray_new sizeof_IPCMessageHeader\<rparr>"

definition IPCMessage_getHeader :: "endianness \<Rightarrow> 'a IPCMessage_scheme \<Rightarrow> IPCMessageHeader" where
  "IPCMessage_getHeader h msg = IPCMessageHeader_of h (take sizeof_IPCMessageHeader (getData (m_payload msg)))"

definition IPCMessage_setHeader ::
    "endianness \<Rightarrow> (IPCMessageHeader \<Rightarrow> IPCMessageHeader) \<Rightarrow> 'a IPCMessage_scheme \<Rightarrow> 'a IPCMessage_scheme" where
  "IPCMessage_setHeader h f msg = msg\<lparr>m_payload :=
     ba_poke (m_payload msg) 0 (IPCMessageHeader_bytes h (f (IPCMessage_getHeader h msg)))\<rparr>"

definition IPCMessage_getMessageType :: "endianness \<Rightarrow> 'a IPCMessage_scheme \<Rightarrow> IPCMessageType" where
  "IPCMessage_getMessageType h msg = ipc_messageType (IPCMessage_getHeader h msg)"

definition IPCMessage_getRequestID :: "endianness \<Rightarrow> 'a IPCMessage_scheme \<Rightarrow> u16" where
  "IPCMessage_getRequestID h msg = ipc_requestID (IPCMessage_getHeader h msg)"

definition IPCMessage_getReturnCode :: "endianness \<Rightarrow> 'a IPCMessage_scheme \<Rightarrow> IPCReturnCode" where
  "IPCMessage_getReturnCode h msg = ipc_returnCode (IPCMessage_getHeader h msg)"

text \<open>\<open>getUserData\<close> with \<open>getUserDataLength\<close>: the bytes behind the header.\<close>

definition getUserData :: "'a IPCMessage_scheme \<Rightarrow> u8 list" where
  "getUserData msg = drop sizeof_IPCMessageHeader (take (ba_size (m_payload msg)) (getData (m_payload msg)))"

definition getUserDataLength :: "'a IPCMessage_scheme \<Rightarrow> nat" where
  "getUserDataLength msg = ba_size (m_payload msg) - sizeof_IPCMessageHeader"

section \<open>IPC messages that are sent\<close>

definition IPCOutputMessage_new :: "endianness \<Rightarrow> IPCMessageType \<Rightarrow> IPCMessage" where
  "IPCOutputMessage_new h type =
     (let msg = IPCMessage_new;
          msg = IPCMessage_setHeader h (\<lambda>hdr. hdr\<lparr>ipc_messageType := type\<rparr>) msg;
          msg = IPCMessage_setHeader h (\<lambda>hdr. hdr\<lparr>ipc_returnCode := IPC_RC_UNDEFINED\<rparr>) msg
      in IPCMessage_setHeader h (\<lambda>hdr. hdr\<lparr>ipc_requestID := 0\<rparr>) msg)"

definition IPCOutputMessage_answer :: "endianness \<Rightarrow> 'a IPCMessage_scheme \<Rightarrow> IPCReturnCode \<Rightarrow> IPCMessage" where
  "IPCOutputMessage_answer h requestMessage returnCode =
     (let msg = IPCMessage_new;
          msg = IPCMessage_setHeader h (\<lambda>hdr. hdr\<lparr>ipc_messageType := ANSWER\<rparr>) msg;
          msg = IPCMessage_setHeader h (\<lambda>hdr. hdr\<lparr>ipc_requestID := IPCMessage_getRequestID h requestMessage\<rparr>) msg
      in IPCMessage_setHeader h (\<lambda>hdr. hdr\<lparr>ipc_returnCode := returnCode\<rparr>) msg)"

text \<open>The serializer of an IPC message neither converts nor aligns.\<close>

definition IPCSerializer :: "endianness \<Rightarrow> serializer_kind" where
  "IPCSerializer h = \<lparr>convertToNetworkByteOrder = False, alignmentNeeded = False, host = h\<rparr>"

definition IPC_write :: "endianness \<Rightarrow> IPCMessage \<Rightarrow> 'a::len word \<Rightarrow> IPCMessage" where
  "IPC_write h msg v = msg\<lparr>m_payload := writeValue (IPCSerializer h) (m_payload msg) v\<rparr>"

definition IPC_write_string :: "endianness \<Rightarrow> IPCMessage \<Rightarrow> u8 list \<Rightarrow> IPCMessage" where
  "IPC_write_string h msg s = msg\<lparr>m_payload := writeValue_string (IPCSerializer h) (m_payload msg) s\<rparr>"

text \<open>\<open>assignRequestID\<close>, with the static counter passed along.\<close>

definition assignRequestID :: "endianness \<Rightarrow> u16 \<Rightarrow> IPCMessage \<Rightarrow> u16 \<times> IPCMessage" where
  "assignRequestID h nextAvailableRequestID msg =
     (nextAvailableRequestID + 1, IPCMessage_setHeader h (\<lambda>hdr. hdr\<lparr>ipc_requestID := nextAvailableRequestID\<rparr>) msg)"

definition nextAvailableRequestID_init :: u16 where "nextAvailableRequestID_init = 0x1111"

section \<open>IPC messages that are received\<close>

record IPCInputMessage = IPCMessage +
  m_totalMessageSize :: u64
  m_receivedSize :: u64
  m_isError :: bool

definition UNKNOWN_SIZE :: u64 where "UNKNOWN_SIZE = -1"

definition IPCInput_clear :: "endianness \<Rightarrow> IPCInputMessage \<Rightarrow> IPCInputMessage" where
  "IPCInput_clear h msg =
     (let msg = IPCMessage_setHeader h (\<lambda>hdr. hdr\<lparr>ipc_messageType := INVALID\<rparr>) msg;
          msg = IPCMessage_setHeader h (\<lambda>hdr. hdr\<lparr>ipc_requestID := 0\<rparr>) msg
      in msg\<lparr>m_receivedSize := 0, m_totalMessageSize := UNKNOWN_SIZE\<rparr>)"

definition IPCInputMessage_new :: "endianness \<Rightarrow> IPCInputMessage" where
  "IPCInputMessage_new h = IPCInput_clear h (IPCMessage.extend IPCMessage_new (IPCInputMessage.fields 0 0 False))"

definition IPCInput_isComplete :: "IPCInputMessage \<Rightarrow> bool" where
  "IPCInput_isComplete msg = (m_totalMessageSize msg = m_receivedSize msg)"

definition isLengthReceived :: "IPCInputMessage \<Rightarrow> bool" where
  "isLengthReceived msg = (m_totalMessageSize msg \<noteq> UNKNOWN_SIZE)"

definition setError :: "IPCInputMessage \<Rightarrow> IPCInputMessage" where
  "setError msg = msg\<lparr>m_isError := True\<rparr>"

definition IPCInput_isError :: "endianness \<Rightarrow> IPCInputMessage \<Rightarrow> bool" where
  "IPCInput_isError h msg = (m_isError msg \<or> IPCMessage_getReturnCode h msg \<noteq> IPC_RC_OK)"

definition isResponseOf :: "endianness \<Rightarrow> 'a IPCMessage_scheme \<Rightarrow> 'b IPCMessage_scheme \<Rightarrow> bool" where
  "isResponseOf h msg outputMessage = (IPCMessage_getRequestID h msg = IPCMessage_getRequestID h outputMessage)"

definition setLength :: "IPCInputMessage \<Rightarrow> u64 \<Rightarrow> IPCInputMessage" where
  "setLength msg len = msg\<lparr>m_payload := ba_resize (m_payload msg) (unat len),
     m_totalMessageSize := len, m_receivedSize := 0\<rparr>"

definition IPCInputMessageReader :: "'a IPCMessage_scheme \<Rightarrow> Deserializer" where
  "IPCInputMessageReader msg = Deserializer_new (take (getUserDataLength msg) (getUserData msg))"

definition IPC_read :: "endianness \<Rightarrow> Deserializer \<Rightarrow> ('a::len word \<times> Deserializer) option" where
  "IPC_read h d = readValue (IPCSerializer h) d"

section \<open>Lemmas\<close>

lemma plain_IPCSerializer [simp]: "plain (IPCSerializer h)"
  by (simp add: plain_def IPCSerializer_def)

lemma enc_IPCSerializer [simp]: "enc (IPCSerializer h) v = object_bytes h v"
  by (simp add: enc_def IPCSerializer_def)

lemma length_IPCMessageHeader_bytes [simp]: "length (IPCMessageHeader_bytes h hdr) = 4"
  by (simp add: IPCMessageHeader_bytes_def)

lemma IPCMessageHeader_of_bytes:
  "IPCMessageHeader_ok hdr \<Longrightarrow> IPCMessageHeader_of h (IPCMessageHeader_bytes h hdr @ rest) = hdr"
  by (simp add: IPCMessageHeader_of_def IPCMessageHeader_bytes_def IPCMessageHeader_ok_def canonical_def
      nth_append)

text \<open>\<open>ipc_view msg hdr user\<close>: the bytes of \<open>msg\<close> are the header \<open>hdr\<close> and then \<open>user\<close>.\<close>

definition ipc_view :: "endianness \<Rightarrow> 'a IPCMessage_scheme \<Rightarrow> IPCMessageHeader \<Rightarrow> u8 list \<Rightarrow> bool" where
  "ipc_view h msg hdr user = (ba_invar (m_payload msg) \<and> IPCMessageHeader_ok hdr
     \<and> contents (m_payload msg) = IPCMessageHeader_bytes h hdr @ user)"

lemma take_getData: "ba_invar b \<Longrightarrow> n \<le> length (contents b) \<Longrightarrow> take n (getData b) = take n (contents b)"
  by (auto simp: contents_def min_def split: if_splits)

lemma ipc_view_getHeader: "ipc_view h msg hdr user \<Longrightarrow> IPCMessage_getHeader h msg = hdr"
  using IPCMessageHeader_of_bytes [of hdr h "[]"]
  by (simp add: ipc_view_def IPCMessage_getHeader_def sizeof_IPCMessageHeader_def take_getData)

lemma ipc_view_fields:
  assumes "ipc_view h msg hdr user"
  shows "IPCMessage_getMessageType h msg = ipc_messageType hdr"
    and "IPCMessage_getRequestID h msg = ipc_requestID hdr"
    and "IPCMessage_getReturnCode h msg = ipc_returnCode hdr"
  using ipc_view_getHeader [OF assms]
  by (simp_all add: IPCMessage_getMessageType_def IPCMessage_getRequestID_def IPCMessage_getReturnCode_def)

lemma ipc_view_getUserData: "ipc_view h msg hdr user \<Longrightarrow> getUserData msg = user"
  by (simp add: ipc_view_def getUserData_def contents_def [symmetric] sizeof_IPCMessageHeader_def)

lemma ipc_view_setHeader:
  assumes "ipc_view h msg hdr user" and "IPCMessageHeader_ok (f hdr)"
  shows "ipc_view h (IPCMessage_setHeader h f msg) (f hdr) user"
  using assms ipc_view_getHeader [OF assms(1)]
  by (simp add: ipc_view_def IPCMessage_setHeader_def memcpy_at_def)

lemma ipc_view_append:
  "ipc_view h msg hdr user \<Longrightarrow> ba_invar b' \<Longrightarrow> contents b' = contents (m_payload msg) @ xs \<Longrightarrow>
   ipc_view h (msg\<lparr>m_payload := b'\<rparr>) hdr (user @ xs)"
  by (simp add: ipc_view_def)

lemma contents_resize_new: "n \<le> STATIC_DATA_SIZE \<Longrightarrow> contents (ba_resize ByteArray_new n) = replicate n 0"
  by (simp add: contents_def ba_size_def getData_def ba_resize_def ByteArray_new_def STATIC_DATA_SIZE_def min_def)

definition IPCMessageHeader_zero :: IPCMessageHeader where
  "IPCMessageHeader_zero = \<lparr>ipc_requestID = 0, ipc_messageType = INVALID, ipc_returnCode = IPC_RC_UNDEFINED\<rparr>"

lemma ipc_view_new: "ipc_view h IPCMessage_new IPCMessageHeader_zero []"
  by (cases h) (simp_all add: ipc_view_def IPCMessage_new_def IPCMessageHeader_zero_def IPCMessageHeader_ok_def
      contents_resize_new sizeof_IPCMessageHeader_def STATIC_DATA_SIZE_def IPCMessageHeader_bytes_def
      bytes_be_def bytes_le_u16 numeral_eq_Suc)

lemma ipc_view_IPCOutputMessage_new:
  assumes "IPCMessageType_ok type"
  shows "ipc_view h (IPCOutputMessage_new h type)
    \<lparr>ipc_requestID = 0, ipc_messageType = type, ipc_returnCode = IPC_RC_UNDEFINED\<rparr> []"
proof -
  note upd = ipc_view_setHeader [where h = h]
  show ?thesis
    using upd [OF upd [OF upd [OF ipc_view_new, where f = "\<lambda>hdr. hdr\<lparr>ipc_messageType := type\<rparr>"],
        where f = "\<lambda>hdr. hdr\<lparr>ipc_returnCode := IPC_RC_UNDEFINED\<rparr>"],
        where f = "\<lambda>hdr. hdr\<lparr>ipc_requestID := 0\<rparr>"] assms
    by (simp add: IPCOutputMessage_new_def Let_def IPCMessageHeader_ok_def IPCMessageHeader_zero_def)
qed

lemma ipc_view_answer:
  assumes "ipc_view h req hdr user" and "IPCReturnCode_ok rc"
  shows "ipc_view h (IPCOutputMessage_answer h req rc)
    \<lparr>ipc_requestID = ipc_requestID hdr, ipc_messageType = ANSWER, ipc_returnCode = rc\<rparr> []"
proof -
  note upd = ipc_view_setHeader [where h = h]
  show ?thesis
    using upd [OF upd [OF upd [OF ipc_view_new, where f = "\<lambda>hdr. hdr\<lparr>ipc_messageType := ANSWER\<rparr>"],
        where f = "\<lambda>hd. hd\<lparr>ipc_requestID := ipc_requestID hdr\<rparr>"],
        where f = "\<lambda>hdr. hdr\<lparr>ipc_returnCode := rc\<rparr>"] assms(2) ipc_view_fields(2) [OF assms(1)]
    by (simp add: IPCOutputMessage_answer_def Let_def IPCMessageHeader_ok_def IPCMessageHeader_zero_def)
qed

lemma ipc_view_write:
  assumes "ipc_view h msg hdr user" and "byte_multiple TYPE('a)"
  shows "ipc_view h (IPC_write h msg (v :: 'a::len word)) hdr (user @ object_bytes h v)"
  using assms unfolding IPC_write_def
  by (intro ipc_view_append) (simp_all add: ipc_view_def)

lemma ipc_view_write_string:
  assumes "ipc_view h msg hdr user"
  shows "ipc_view h (IPC_write_string h msg s) hdr (user @ object_bytes h (of_nat (length s) :: u64) @ s)"
  using assms unfolding IPC_write_string_def
  by (intro ipc_view_append) (simp_all add: ipc_view_def)

lemma IPCInputMessageReader_view: "ipc_view h msg hdr user \<Longrightarrow> IPCInputMessageReader msg = dser [] user"
proof -
  assume v: "ipc_view h msg hdr user"
  then have "getUserDataLength msg = length user"
    by (simp add: ipc_view_def getUserDataLength_def ba_size_contents sizeof_IPCMessageHeader_def)
  with v show ?thesis by (simp add: IPCInputMessageReader_def ipc_view_getUserData Deserializer_new_dser)
qed

lemma IPC_read_dser:
  "byte_multiple TYPE('a) \<Longrightarrow>
   IPC_read h (dser pre (object_bytes h (v :: 'a::len word) @ rest)) = Some (v, dser (pre @ object_bytes h v) rest)"
  using readValue_dser [of "IPCSerializer h" pre v rest] by (simp add: IPC_read_def)

end
