(* ===== verification/SomeIP_Messages.thy ===== *)
theory SomeIP_Messages
  imports IPC_Messages
begin

text \<open>
  The SOME/IP messages an application sends and receives, \<open>OutputMessage\<close> and
  \<open>InputMessage\<close> of \<open>lib/Message.h\<close>. Both are an IPC message with a message header laid
  over the bytes behind the IPC header. \<open>Message\<close> is what such bytes stand for, and the
  lemmas of the second half show that the operations on bytes implement the operations on
  \<open>Message\<close>, on which the dispatcher is modelled. The ping classes end the theory.
\<close>

type_synonym ClientIdentifier = u16

definition UNKNOWN_CLIENT :: ClientIdentifier where "UNKNOWN_CLIENT = 0xFFFF"

section \<open>The header in the bytes of a message\<close>

text \<open>\<open>InputMessageHeader\<close> and \<open>OutputMessageHeader\<close> have the same fields and layout.\<close>

record MessageHeader = SomeIPHeader +
  m_clientIdentifier :: ClientIdentifier
  m_instanceID :: InstanceID

definition sizeof_MessageHeader :: nat where "sizeof_MessageHeader = 16"

definition MessageHeader_bytes :: "endianness \<Rightarrow> 'a MessageHeader_scheme \<Rightarrow> u8 list" where
  "MessageHeader_bytes h hdr = object_bytes h (m_messageID hdr) @ object_bytes h (m_requestID hdr)
     @ [m_protocolVersion hdr, m_interfaceVersion hdr, MessageType_underlying (m_messageType hdr),
        ReturnCode_underlying (m_returnCode hdr)]
     @ object_bytes h (m_clientIdentifier hdr) @ object_bytes h (m_instanceID hdr)"

definition MessageHeader_of :: "endianness \<Rightarrow> u8 list \<Rightarrow> MessageHeader" where
  "MessageHeader_of h bs =
     \<lparr>m_messageID = object_value h (take 4 bs), m_requestID = object_value h (take 4 (drop 4 bs)),
      m_protocolVersion = bs ! 8, m_interfaceVersion = bs ! 9, m_messageType = MessageType_cast (bs ! 10),
      m_returnCode = ReturnCode_cast (bs ! 11), m_clientIdentifier = object_value h (take 2 (drop 12 bs)),
      m_instanceID = object_value h (take 2 (drop 14 bs))\<rparr>"

definition MessageHeader_default :: MessageHeader where
  "MessageHeader_default = SomeIPHeader.extend SomeIPHeader_default (MessageHeader.fields 0 0)"

definition header_at :: "endianness \<Rightarrow> nat \<Rightarrow> 'a IPCMessage_scheme \<Rightarrow> MessageHeader" where
  "header_at h position msg =
     MessageHeader_of h (take sizeof_MessageHeader (drop position (getData (m_payload msg))))"

definition set_header_at ::
    "endianness \<Rightarrow> nat \<Rightarrow> (MessageHeader \<Rightarrow> MessageHeader) \<Rightarrow> 'a IPCMessage_scheme \<Rightarrow> 'a IPCMessage_scheme" where
  "set_header_at h position f msg = msg\<lparr>m_payload :=
     ba_poke (m_payload msg) position (MessageHeader_bytes h (f (header_at h position msg)))\<rparr>"

section \<open>Input messages\<close>

definition InputMessage_getHeader :: "endianness \<Rightarrow> 'a IPCMessage_scheme \<Rightarrow> MessageHeader" where
  "InputMessage_getHeader h msg = header_at h sizeof_IPCMessageHeader msg"

definition InputMessage_setClientIdentifier ::
    "endianness \<Rightarrow> 'a IPCMessage_scheme \<Rightarrow> ClientIdentifier \<Rightarrow> 'a IPCMessage_scheme" where
  "InputMessage_setClientIdentifier h msg identifier =
     set_header_at h sizeof_IPCMessageHeader (\<lambda>hdr. hdr\<lparr>m_clientIdentifier := identifier\<rparr>) msg"

definition InputMessage_setInstanceID ::
    "endianness \<Rightarrow> 'a IPCMessage_scheme \<Rightarrow> InstanceID \<Rightarrow> 'a IPCMessage_scheme" where
  "InputMessage_setInstanceID h msg i =
     set_header_at h sizeof_IPCMessageHeader (\<lambda>hdr. hdr\<lparr>m_instanceID := i\<rparr>) msg"

definition InputMessage_getPayload :: "'a IPCMessage_scheme \<Rightarrow> u8 list" where
  "InputMessage_getPayload msg = drop sizeof_MessageHeader (getUserData msg)"

definition InputMessage_getPayloadLength :: "'a IPCMessage_scheme \<Rightarrow> nat" where
  "InputMessage_getPayloadLength msg = getUserDataLength msg - sizeof_MessageHeader"

section \<open>Output messages\<close>

record OutputMessage =
  m_ipcMessage :: IPCMessage
  m_headerPosition :: nat

definition OutputMessage_getHeader :: "endianness \<Rightarrow> OutputMessage \<Rightarrow> MessageHeader" where
  "OutputMessage_getHeader h msg = header_at h (m_headerPosition msg) (m_ipcMessage msg)"

definition OutputMessage_setHeader ::
    "endianness \<Rightarrow> (MessageHeader \<Rightarrow> MessageHeader) \<Rightarrow> OutputMessage \<Rightarrow> OutputMessage" where
  "OutputMessage_setHeader h f msg =
     msg\<lparr>m_ipcMessage := set_header_at h (m_headerPosition msg) f (m_ipcMessage msg)\<rparr>"

definition s_nextAvailableRequestID_init :: u16 where
  "s_nextAvailableRequestID_init = 0x1000"

text \<open>The static counter \<open>s_nextAvailableRequestID\<close> is passed along.\<close>

definition assignUniqueRequestID :: "endianness \<Rightarrow> u16 \<Rightarrow> OutputMessage \<Rightarrow> u16 \<times> OutputMessage" where
  "assignUniqueRequestID h s_next msg =
     (s_next + 1, OutputMessage_setHeader h (\<lambda>hdr. setRequestID hdr (ucast s_next)) msg)"

definition OutputMessage_new :: "endianness \<Rightarrow> u16 \<Rightarrow> MemberIDs \<Rightarrow> u16 \<times> OutputMessage" where
  "OutputMessage_new h s_next messageID =
     (let ipc = IPCOutputMessage_new h SEND_MESSAGE;
          (position, b) = ba_skip (m_payload ipc) sizeof_MessageHeader;
          msg = \<lparr>m_ipcMessage = ipc\<lparr>m_payload := b\<rparr>, m_headerPosition = position\<rparr>;
          msg = OutputMessage_setHeader h (\<lambda>_. MessageHeader_default) msg;
          (s_next, msg) = assignUniqueRequestID h s_next msg;
          msg = OutputMessage_setHeader h (\<lambda>hdr. setMemberID hdr (m_memberID messageID)) msg;
          msg = OutputMessage_setHeader h (\<lambda>hdr. setServiceID hdr (serviceID (m_serviceIDs messageID))) msg;
          msg = OutputMessage_setHeader h (\<lambda>hdr. hdr\<lparr>m_instanceID := instanceID (m_serviceIDs messageID)\<rparr>) msg
      in (s_next, msg))"

definition OutputMessage_writeRawData :: "OutputMessage \<Rightarrow> u8 list \<Rightarrow> OutputMessage" where
  "OutputMessage_writeRawData msg bs = msg\<lparr>m_ipcMessage :=
     (m_ipcMessage msg)\<lparr>m_payload := writeRawData (m_payload (m_ipcMessage msg)) bs\<rparr>\<rparr>"

definition createMethodReturn ::
    "endianness \<Rightarrow> u16 \<Rightarrow> 'a IPCMessage_scheme \<Rightarrow> u16 \<times> OutputMessage" where
  "createMethodReturn h s_next inputMessage =
     (let input = InputMessage_getHeader h inputMessage;
          (s_next, msg) = OutputMessage_new h s_next (MemberIDs_new 0 0 0);
          msg = OutputMessage_setHeader h (\<lambda>hdr. setMessageID hdr (m_messageID input)) msg;
          msg = OutputMessage_setHeader h (\<lambda>hdr. hdr\<lparr>m_instanceID := m_instanceID input\<rparr>) msg;
          msg = OutputMessage_setHeader h (\<lambda>hdr. setRequestID hdr (m_requestID input)) msg;
          msg = OutputMessage_setHeader h (\<lambda>hdr. setMessageType hdr RESPONSE) msg;
          msg = OutputMessage_setHeader h (\<lambda>hdr. hdr\<lparr>m_clientIdentifier := m_clientIdentifier input\<rparr>) msg
      in (s_next, msg))"

definition isAnswerTo :: "'a SomeIPHeader_scheme \<Rightarrow> 'b SomeIPHeader_scheme \<Rightarrow> bool" where
  "isAnswerTo hdr msg = (m_requestID hdr = m_requestID msg
     \<and> (m_messageType hdr = RESPONSE \<or> m_messageType hdr = MT_ERROR))"



section \<open>What the bytes stand for\<close>

record Message = MessageHeader +
  payload :: "u8 list"

definition Message_new :: "u16 \<Rightarrow> MemberIDs \<Rightarrow> u16 \<times> Message" where
  "Message_new s_next messageID =
     (s_next + 1,
      \<lparr>m_messageID = getMessageID (serviceID (m_serviceIDs messageID)) (m_memberID messageID),
       m_requestID = ucast s_next, m_protocolVersion = 1, m_interfaceVersion = 0,
       m_messageType = MT_INVALID, m_returnCode = E_OK, m_clientIdentifier = 0,
       m_instanceID = instanceID (m_serviceIDs messageID), payload = []\<rparr>)"

definition methodReturn :: "Message \<Rightarrow> Message" where
  "methodReturn msg =
     \<lparr>m_messageID = m_messageID msg, m_requestID = m_requestID msg, m_protocolVersion = 1,
      m_interfaceVersion = 0, m_messageType = RESPONSE, m_returnCode = E_OK,
      m_clientIdentifier = m_clientIdentifier msg, m_instanceID = m_instanceID msg, payload = []\<rparr>"

definition message_view :: "endianness \<Rightarrow> 'a IPCMessage_scheme \<Rightarrow> Message \<Rightarrow> bool" where
  "message_view h ipc msg = (header_ok msg \<and> (\<exists>hdr. ipc_messageType hdr = SEND_MESSAGE
     \<and> ipc_view h ipc hdr (MessageHeader_bytes h msg @ payload msg)))"

definition output_view :: "endianness \<Rightarrow> OutputMessage \<Rightarrow> Message \<Rightarrow> bool" where
  "output_view h om msg = (m_headerPosition om = sizeof_IPCMessageHeader \<and> message_view h (m_ipcMessage om) msg)"

lemma length_MessageHeader_bytes [simp]: "length (MessageHeader_bytes h hdr) = 16"
  by (simp add: MessageHeader_bytes_def)

lemma MessageHeader_of_bytes:
  assumes "header_ok hdr"
  shows "MessageHeader_of h (MessageHeader_bytes h hdr) = MessageHeader.truncate hdr"
  using assms
  by (simp add: MessageHeader_of_def MessageHeader_bytes_def header_ok_def canonical_def nth_append
      MessageHeader.truncate_def)

lemma MessageHeader_bytes_truncate:
  "MessageHeader_bytes h (MessageHeader.truncate msg) = MessageHeader_bytes h msg"
  by (simp add: MessageHeader_bytes_def MessageHeader.truncate_def)

lemma message_view_header_at:
  assumes "message_view h ipc msg"
  shows "header_at h sizeof_IPCMessageHeader ipc = MessageHeader.truncate msg"
proof -
  obtain hdr where v: "header_ok msg" "ipc_view h ipc hdr (MessageHeader_bytes h msg @ payload msg)"
    using assms by (auto simp: message_view_def)
  then have "take 16 (drop 4 (getData (m_payload ipc))) = MessageHeader_bytes h msg"
    using take_getData [of "m_payload ipc" 20] by (simp add: ipc_view_def take_drop)
  with v(1) show ?thesis
    by (simp add: header_at_def sizeof_IPCMessageHeader_def sizeof_MessageHeader_def MessageHeader_of_bytes)
qed

lemma message_view_set_header:
  assumes "message_view h ipc msg" and "MessageHeader.truncate msg' = f (MessageHeader.truncate msg)"
    and "payload msg' = payload msg" and "header_ok msg'"
  shows "message_view h (set_header_at h sizeof_IPCMessageHeader f ipc) msg'"
proof -
  obtain hdr where v: "ipc_messageType hdr = SEND_MESSAGE"
    "ipc_view h ipc hdr (MessageHeader_bytes h msg @ payload msg)"
    using assms(1) by (auto simp: message_view_def)
  have "MessageHeader_bytes h (f (header_at h sizeof_IPCMessageHeader ipc)) = MessageHeader_bytes h msg'"
    using message_view_header_at [OF assms(1)] assms(2) MessageHeader_bytes_truncate [of h msg'] by simp
  then have "ipc_view h (set_header_at h sizeof_IPCMessageHeader f ipc) hdr
      (MessageHeader_bytes h msg' @ payload msg')"
    using v(2) assms(3)
    by (simp add: ipc_view_def set_header_at_def sizeof_IPCMessageHeader_def memcpy_at_def)
  with v(1) assms(4) show ?thesis by (auto simp: message_view_def)
qed

lemma message_view_payload: "message_view h ipc msg \<Longrightarrow> InputMessage_getPayload ipc = payload msg"
  by (auto simp: message_view_def InputMessage_getPayload_def sizeof_MessageHeader_def ipc_view_getUserData)

lemma output_view_set:
  assumes "output_view h om msg" and "MessageHeader.truncate msg' = f (MessageHeader.truncate msg)"
    and "payload msg' = payload msg" and "header_ok msg'"
  shows "output_view h (OutputMessage_setHeader h f om) msg'"
  using assms message_view_set_header [of h "m_ipcMessage om" msg msg' f]
  by (simp add: output_view_def OutputMessage_setHeader_def)

lemma output_view_write:
  assumes "output_view h om msg"
  shows "output_view h (OutputMessage_writeRawData om bs) (msg\<lparr>payload := payload msg @ bs\<rparr>)"
proof -
  obtain hdr where v: "ipc_messageType hdr = SEND_MESSAGE"
    "ipc_view h (m_ipcMessage om) hdr (MessageHeader_bytes h msg @ payload msg)" "header_ok msg"
    using assms by (auto simp: output_view_def message_view_def)
  have "ipc_view h ((m_ipcMessage om)\<lparr>m_payload := writeRawData (m_payload (m_ipcMessage om)) bs\<rparr>) hdr
      ((MessageHeader_bytes h msg @ payload msg) @ bs)"
    using v(2) by (intro ipc_view_append) (simp_all add: ipc_view_def)
  moreover have "MessageHeader_bytes h (msg\<lparr>payload := payload msg @ bs\<rparr>) = MessageHeader_bytes h msg"
    by (simp add: MessageHeader_bytes_def)
  ultimately show ?thesis
    using assms v by (auto simp: output_view_def message_view_def OutputMessage_writeRawData_def header_ok_def)
qed

text \<open>A message whose header has just been constructed in the skipped bytes.\<close>

definition blank_message :: Message where
  "blank_message = MessageHeader.extend MessageHeader_default (Message.fields [])"

lemma blank_view:
  fixes h
  defines "ipc \<equiv> IPCOutputMessage_new h SEND_MESSAGE"
  shows "output_view h (OutputMessage_setHeader h (\<lambda>_. MessageHeader_default)
    \<lparr>m_ipcMessage = ipc\<lparr>m_payload := snd (ba_skip (m_payload ipc) sizeof_MessageHeader)\<rparr>,
     m_headerPosition = fst (ba_skip (m_payload ipc) sizeof_MessageHeader)\<rparr>) blank_message"
proof -
  have v: "ipc_view h ipc \<lparr>ipc_requestID = 0, ipc_messageType = SEND_MESSAGE, ipc_returnCode = IPC_RC_UNDEFINED\<rparr> []"
    unfolding ipc_def by (rule ipc_view_IPCOutputMessage_new) simp
  have b: "MessageHeader_bytes h blank_message = MessageHeader_bytes h MessageHeader_default"
    by (simp add: blank_message_def MessageHeader_bytes_def MessageHeader.defs Message.defs)
  have ok: "header_ok blank_message" "payload blank_message = []"
    by (simp_all add: header_ok_def blank_message_def MessageHeader_default_def
        SomeIPHeader_default_def SomeIPHeader.defs MessageHeader.defs Message.defs)
  have sz: "ba_size (m_payload ipc) = 4" using v by (simp add: ipc_view_def ba_size_contents)
  show ?thesis
    unfolding output_view_def message_view_def OutputMessage_setHeader_def set_header_at_def
    using v
    by (auto simp: b ok sz ipc_view_def sizeof_IPCMessageHeader_def sizeof_MessageHeader_def
        ba_skip_def memcpy_at_def
        intro!: exI [of _ "\<lparr>ipc_requestID = 0, ipc_messageType = SEND_MESSAGE, ipc_returnCode = IPC_RC_UNDEFINED\<rparr>"])
qed

lemmas message_record_simps = MessageHeader.truncate_def header_ok_def setRequestID_def setMemberID_def
  setServiceID_def setMessageID_def setMessageType_def header_getServiceID_def header_getMemberID_def

lemma OutputMessage_new_view:
  "fst (OutputMessage_new h s_next mids) = fst (Message_new s_next mids)"
  "output_view h (snd (OutputMessage_new h s_next mids)) (snd (Message_new s_next mids))"
proof -
  let ?m0 = "\<lparr>m_messageID = 0, m_requestID = ucast s_next, m_protocolVersion = 1, m_interfaceVersion = 0,
    m_messageType = MT_INVALID, m_returnCode = E_OK, m_clientIdentifier = 0, m_instanceID = 0, payload = []\<rparr>"
  let ?m1 = "?m0\<lparr>m_messageID := getMessageID 0 (m_memberID mids)\<rparr>"
  let ?m2 = "?m0\<lparr>m_messageID := getMessageID (serviceID (m_serviceIDs mids)) (m_memberID mids)\<rparr>"
  have zero: "getServiceID 0 = 0" by (simp add: getServiceID_def SERVICE_ID_BITS_COUNT_def)
  have "output_view h (snd (OutputMessage_new h s_next mids))
      (?m2\<lparr>m_instanceID := instanceID (m_serviceIDs mids)\<rparr>)"
    unfolding OutputMessage_new_def assignUniqueRequestID_def Let_def case_prod_unfold snd_conv
    by (rule output_view_set [of _ _ ?m2], rule output_view_set [of _ _ ?m1], rule output_view_set [of _ _ ?m0],
        rule output_view_set [OF blank_view])
      (simp_all add: message_record_simps blank_message_def MessageHeader_default_def zero
        SomeIPHeader_default_def SomeIPHeader.defs MessageHeader.defs Message.defs)
  then show "output_view h (snd (OutputMessage_new h s_next mids)) (snd (Message_new s_next mids))"
    by (simp add: Message_new_def)
qed (simp add: OutputMessage_new_def assignUniqueRequestID_def Message_new_def Let_def case_prod_unfold)

lemma createMethodReturn_view:
  assumes "message_view h ipc msg"
  shows "output_view h (snd (createMethodReturn h s_next ipc)) (methodReturn msg)"
proof -
  let ?i = "MessageHeader.truncate msg"
  have i: "InputMessage_getHeader h ipc = ?i"
    using assms by (simp add: InputMessage_getHeader_def message_view_header_at)
  let ?m0 = "snd (Message_new s_next (MemberIDs_new 0 0 0))"
  let ?m1 = "?m0\<lparr>m_messageID := m_messageID msg\<rparr>"
  let ?m2 = "?m1\<lparr>m_instanceID := m_instanceID msg\<rparr>"
  let ?m3 = "?m2\<lparr>m_requestID := m_requestID msg\<rparr>"
  let ?m4 = "?m3\<lparr>m_messageType := RESPONSE\<rparr>"
  have "output_view h (snd (createMethodReturn h s_next ipc)) (?m4\<lparr>m_clientIdentifier := m_clientIdentifier msg\<rparr>)"
    unfolding createMethodReturn_def Let_def case_prod_unfold snd_conv i
    by (rule output_view_set [of _ _ ?m4], rule output_view_set [of _ _ ?m3], rule output_view_set [of _ _ ?m2],
        rule output_view_set [of _ _ ?m1], rule output_view_set [OF OutputMessage_new_view(2)])
      (simp_all add: message_record_simps Message_new_def)
  then show ?thesis by (simp add: Message_new_def methodReturn_def)
qed

section \<open>Time\<close>

record timeval =
  tv_sec :: int
  tv_usec :: int

text \<open>\<open>timeval_subtract\<close>: returns the flag and the difference; \<open>y\<close> is changed on the way.\<close>

definition timeval_subtract :: "timeval \<Rightarrow> timeval \<Rightarrow> int \<times> timeval \<times> timeval" where
  "timeval_subtract x y =
     (let y = (if tv_usec x < tv_usec y
               then let nsec = (tv_usec y - tv_usec x) div 1000000 + 1
                    in y\<lparr>tv_usec := tv_usec y - 1000000 * nsec, tv_sec := tv_sec y + nsec\<rparr>
               else y);
          y = (if tv_usec x - tv_usec y > 1000000
               then let nsec = (tv_usec x - tv_usec y) div 1000000
                    in y\<lparr>tv_usec := tv_usec y + 1000000 * nsec, tv_sec := tv_sec y - nsec\<rparr>
               else y);
          result = \<lparr>tv_sec = tv_sec x - tv_sec y, tv_usec = tv_usec x - tv_usec y\<rparr>
      in (if tv_sec x < tv_sec y then 1 else 0, result, y))"

section \<open>Ping\<close>

datatype MessageProcessingResult = NotProcessed_OK | Processed_OK | Processed_Error

record PingSender =
  maxRTTDelay :: int
  m_lastPingDate :: timeval
  ping_serviceID :: ServiceID
  m_pongPending :: bool

text \<open>Without \<open>ENABLE_PING\<close> the body of \<open>sendPingMessage\<close> is empty.\<close>

definition sendPingMessage :: "PingSender \<Rightarrow> PingSender" where
  "sendPingMessage p = p"

text \<open>\<open>currentTime\<close> is what \<open>gettimeofday\<close> returned.\<close>

definition handlePingReply :: "timeval \<Rightarrow> PingSender \<Rightarrow> PingSender" where
  "handlePingReply currentTime p =
     (let (_, delay, last) = timeval_subtract currentTime (m_lastPingDate p);
          delayInMilliseconds = tv_sec delay * 1000 + tv_usec delay div 1000;
          p = p\<lparr>m_lastPingDate := last\<rparr>;
          p = (if delayInMilliseconds > maxRTTDelay p then p\<lparr>maxRTTDelay := delayInMilliseconds\<rparr> else p)
      in p\<lparr>m_pongPending := False\<rparr>)"

definition PingSender_processMessage ::
    "timeval \<Rightarrow> PingSender \<Rightarrow> 'a SomeIPHeader_scheme \<Rightarrow> MessageProcessingResult \<times> PingSender" where
  "PingSender_processMessage currentTime p msg =
     (if header_getMemberID msg = PING_MEMBER_ID \<and> header_getServiceID msg = ping_serviceID p
      then if \<not> isRequestWithReturn msg then (Processed_OK, handlePingReply currentTime p)
           else (NotProcessed_OK, p)
      else (NotProcessed_OK, p))"

text \<open>
  \<open>SomeIPEndPoint\<close>: the pong it sends to its source, if any. \<open>m_serviceID\<close> is the
  dispatcher's unless given.
\<close>

definition sendPongMessage :: "Message \<Rightarrow> Message" where
  "sendPongMessage msg = (methodReturn msg)\<lparr>payload := payload (methodReturn msg) @ payload msg\<rparr>"

definition SomeIPEndPoint_processMessage ::
    "ServiceID \<Rightarrow> Message \<Rightarrow> MessageProcessingResult \<times> Message option" where
  "SomeIPEndPoint_processMessage m_serviceID msg =
     (if header_getMemberID msg = PING_MEMBER_ID \<and> header_getServiceID msg = m_serviceID
      then if isRequestWithReturn msg then (Processed_OK, Some (sendPongMessage msg))
           else (NotProcessed_OK, None)
      else (NotProcessed_OK, None))"

section \<open>Properties\<close>

lemma output_view_fields:
  assumes "output_view h om msg"
  shows "InputMessage_getHeader h (m_ipcMessage om) = MessageHeader.truncate msg"
    and "OutputMessage_getHeader h om = MessageHeader.truncate msg"
    and "InputMessage_getPayload (m_ipcMessage om) = payload msg"
  using assms
  by (auto simp: output_view_def InputMessage_getHeader_def OutputMessage_getHeader_def
      message_view_header_at message_view_payload)

text \<open>
  C19. A message is what was put into it: an output message made for a member, with any bytes
  written to its payload, is an IPC message in whose bytes a receiver on the same host finds
  the member's message identifier and instance, the request number it was assigned, and
  exactly those payload bytes.
\<close>

theorem output_message_layout:
  "let (_, om) = OutputMessage_new h s_next mids;
       ipc = m_ipcMessage (OutputMessage_writeRawData om bs);
       hdr = InputMessage_getHeader h ipc
   in m_messageID hdr = getMessageID (serviceID (m_serviceIDs mids)) (m_memberID mids)
      \<and> m_instanceID hdr = instanceID (m_serviceIDs mids) \<and> m_requestID hdr = ucast s_next
      \<and> IPCMessage_getMessageType h ipc = SEND_MESSAGE \<and> InputMessage_getPayload ipc = bs"
proof -
  let ?om = "OutputMessage_writeRawData (snd (OutputMessage_new h s_next mids)) bs"
  have v: "output_view h ?om ((snd (Message_new s_next mids))\<lparr>payload := bs\<rparr>)"
    using output_view_write [OF OutputMessage_new_view(2), of h s_next mids bs]
    by (simp add: Message_new_def)
  then have "IPCMessage_getMessageType h (m_ipcMessage ?om) = SEND_MESSAGE"
    by (auto simp: output_view_def message_view_def ipc_view_fields)
  with output_view_fields [OF v] show ?thesis
    by (simp add: case_prod_unfold Message_new_def MessageHeader.truncate_def)
qed

text \<open>
  C0. The answer to a request: for any bytes that stand for a message, the message
  \<open>createMethodReturn\<close> makes answers it. It has the identifier, instance and request number
  of the request, names the client the request came from, is a response and is empty, so that
  \<open>isAnswerTo\<close> accepts it for the request whatever the request was.
\<close>

theorem method_return_answers:
  assumes "message_view h ipc msg"
  shows "let (_, om) = createMethodReturn h s_next ipc;
             reply = InputMessage_getHeader h (m_ipcMessage om)
         in m_messageID reply = m_messageID msg \<and> m_instanceID reply = m_instanceID msg
            \<and> m_clientIdentifier reply = m_clientIdentifier msg \<and> isAnswerTo reply msg
            \<and> InputMessage_getPayload (m_ipcMessage om) = []"
  using output_view_fields [OF createMethodReturn_view [OF assms, of s_next]]
  by (simp add: case_prod_unfold methodReturn_def isAnswerTo_def MessageHeader.truncate_def)

theorem method_return_answers_witness:
  "let ipc = m_ipcMessage (snd (OutputMessage_new LittleEndian 0x1000 (MemberIDs_new 0x1234 1 5)));
       (_, om) = createMethodReturn LittleEndian 0x1001 ipc
   in m_messageID (InputMessage_getHeader LittleEndian (m_ipcMessage om)) = getMessageID 0x1234 5"
proof -
  have "message_view LittleEndian (m_ipcMessage (snd (OutputMessage_new LittleEndian 0x1000 (MemberIDs_new 0x1234 1 5))))
      (snd (Message_new 0x1000 (MemberIDs_new 0x1234 1 5)))"
    using OutputMessage_new_view(2) [where h = LittleEndian and s_next = "0x1000" and mids = "MemberIDs_new 0x1234 1 5"]
    by (simp add: output_view_def)
  from method_return_answers [OF this, of "0x1001"] show ?thesis
    by (simp add: Let_def case_prod_unfold Message_new_def MemberIDs_new_def ServiceIDs_new_def)
qed





end
