(* ===== verification/Socket_Stream.thy ===== *)
theory Socket_Stream
  imports IPC_Messages
begin

text \<open>
  Stream connections: \<open>SocketStreamConnection\<close> and \<open>IPCBufferReader\<close> of
  \<open>lib/SocketStreamConnection.h\<close>, and the framing of IPC messages on a Unix domain socket,
  \<open>UDSConnection\<close> of \<open>lib/ipc/UDSConnection.h\<close> and \<open>lib/ipc/UDS.cpp\<close>.

  The kernel is part of the state. \<open>sends\<close> and \<open>recvs\<close> are the outcomes of the calls of
  \<open>send\<close> and \<open>recv\<close> to come, in any order the kernel chooses: it may take or deliver any part
  of the bytes, or fail. When a list is exhausted the call would block. \<open>wire\<close> are the
  bytes the kernel took, \<open>inbox\<close> the bytes it has still to deliver. The virtual functions
  \<open>onDisconnected\<close> and \<open>onCongestionDetected\<close> are recorded as events.
\<close>

section \<open>Sockets\<close>

datatype errno = EAGAIN | EPIPE | EBADF | Errno_other

datatype send_outcome = Accepts nat | SendFails errno

datatype recv_outcome = Delivers nat | RecvFails errno

datatype StreamEvent = OnDisconnected | OnCongestionDetected | OnCongestionFinished

record SocketStreamConnection =
  m_connectionFileDescriptor :: int
  m_dataToBeSent :: ByteArray
  m_writtenBytesCount :: u64
  wire :: "u8 list"
  sends :: "send_outcome list"
  inbox :: "u8 list"
  recvs :: "recv_outcome list"
  events :: "StreamEvent list"

definition UNINITIALIZED_FILE_DESCRIPTOR :: int where
  "UNINITIALIZED_FILE_DESCRIPTOR = -1"

text \<open>\<open>send\<close> takes some of the bytes, \<open>recv\<close> delivers at most \<open>n\<close>; none is end of file.\<close>

definition socket_send ::
    "'a SocketStreamConnection_scheme \<Rightarrow> u8 list \<Rightarrow> (errno + nat) \<times> 'a SocketStreamConnection_scheme" where
  "socket_send c data =
     (case sends c of
        [] \<Rightarrow> (Inl EAGAIN, c)
      | Accepts n # r \<Rightarrow> (Inr (min n (length data)), c\<lparr>wire := wire c @ take n data, sends := r\<rparr>)
      | SendFails e # r \<Rightarrow> (Inl e, c\<lparr>sends := r\<rparr>))"

definition socket_recv ::
    "'a SocketStreamConnection_scheme \<Rightarrow> nat \<Rightarrow> (errno + u8 list) \<times> 'a SocketStreamConnection_scheme" where
  "socket_recv c n =
     (case recvs c of
        [] \<Rightarrow> (Inl EAGAIN, c)
      | Delivers m # r \<Rightarrow>
          (Inr (take (min m n) (inbox c)), c\<lparr>inbox := drop (min m n) (inbox c), recvs := r\<rparr>)
      | RecvFails e # r \<Rightarrow> (Inl e, c\<lparr>recvs := r\<rparr>))"

section \<open>Writing\<close>

definition isConnected :: "'a SocketStreamConnection_scheme \<Rightarrow> bool" where
  "isConnected c = (m_connectionFileDescriptor c \<noteq> UNINITIALIZED_FILE_DESCRIPTOR)"

definition disconnect :: "'a SocketStreamConnection_scheme \<Rightarrow> 'a SocketStreamConnection_scheme" where
  "disconnect c =
     (if isConnected c
      then c\<lparr>m_connectionFileDescriptor := UNINITIALIZED_FILE_DESCRIPTOR, events := events c @ [OnDisconnected]\<rparr>
      else c)"

definition enqueueData :: "'a SocketStreamConnection_scheme \<Rightarrow> u8 list \<Rightarrow> 'a SocketStreamConnection_scheme" where
  "enqueueData c data =
     c\<lparr>m_dataToBeSent := ba_append (m_dataToBeSent c) data, events := events c @ [OnCongestionDetected]\<rparr>"

definition isCongested :: "'a SocketStreamConnection_scheme \<Rightarrow> bool" where
  "isCongested c = (ba_size (m_dataToBeSent c) \<noteq> 0)"

definition increaseWrittenBytesCounter ::
    "'a SocketStreamConnection_scheme \<Rightarrow> nat \<Rightarrow> 'a SocketStreamConnection_scheme" where
  "increaseWrittenBytesCounter c count = c\<lparr>m_writtenBytesCount := m_writtenBytesCount c + of_nat count\<rparr>"

definition writeBytesNonBlocking ::
    "'a SocketStreamConnection_scheme \<Rightarrow> u8 list \<Rightarrow> (IPCOperationReport \<times> 'a SocketStreamConnection_scheme) result" where
  "writeBytesNonBlocking c data =
     (if m_connectionFileDescriptor c = UNINITIALIZED_FILE_DESCRIPTOR then Inl AssertFailed
      else let c = increaseWrittenBytesCounter c (length data);
               (writtenBytesCount, c) = socket_send c data
           in case writtenBytesCount of
                Inr n \<Rightarrow> if n = length data then Inr (IPC_OK, c)
                         else Inr (BUFFER_FULL, enqueueData c (drop n data))
              | Inl EAGAIN \<Rightarrow> Inr (BUFFER_FULL, enqueueData c data)
              | Inl EPIPE \<Rightarrow> Inr (DISCONNECTED, disconnect c)
              | Inl EBADF \<Rightarrow> Inr (IPC_OK, c)
              | Inl Errno_other \<Rightarrow> Inr (DISCONNECTED, disconnect c))"

definition writePendingDataNonBlocking ::
    "'a SocketStreamConnection_scheme \<Rightarrow> (IPCOperationReport \<times> 'a SocketStreamConnection_scheme) result" where
  "writePendingDataNonBlocking c =
     (if ba_size (m_dataToBeSent c) \<noteq> 0
      then let localContentCopy = ba_copy (m_dataToBeSent c);
               c = c\<lparr>m_dataToBeSent := ba_resize (m_dataToBeSent c) 0\<rparr>
           in bindE (writeBytesNonBlocking c (take (ba_size localContentCopy) (getData localContentCopy))) (\<lambda>(v, c).
                Inr (v, if v = IPC_OK then c\<lparr>events := events c @ [OnCongestionFinished]\<rparr> else c))
      else Inr (IPC_OK, c))"

text \<open>The length of a message goes on the socket as a \<open>size_t\<close> of the host.\<close>

definition length_field :: "endianness \<Rightarrow> nat \<Rightarrow> u8 list" where
  "length_field h n = object_bytes h (of_nat n :: u64)"

definition UDS_writeNonBlocking ::
    "endianness \<Rightarrow> 'a SocketStreamConnection_scheme \<Rightarrow> 'b IPCMessage_scheme
     \<Rightarrow> (IPCOperationReport \<times> 'a SocketStreamConnection_scheme) result" where
  "UDS_writeNonBlocking h c msg =
     (let n = ba_size (m_payload msg);
          data = take n (getData (m_payload msg))
      in if isCongested c
         then Inr (BUFFER_FULL, enqueueData (enqueueData c (length_field h n)) data)
         else bindE (writeBytesNonBlocking c (length_field h n)) (\<lambda>(report, c).
                case report of
                  IPC_OK \<Rightarrow> writeBytesNonBlocking c data
                | BUFFER_FULL \<Rightarrow> Inr (BUFFER_FULL, enqueueData c data)
                | DISCONNECTED \<Rightarrow> Inr (DISCONNECTED, disconnect c)))"

text \<open>
  The blocking writer calls \<open>send\<close> until everything is taken, and the virtual function
  \<open>onCongestionDetected\<close>, its first argument, after a \<open>send\<close> that did not take all. The
  outcomes to come are the recursion's argument. \<open>None\<close>: they are used up and the loop is
  still waiting.
\<close>

fun writeBytesBlocking_loop ::
    "('a SocketStreamConnection_scheme \<Rightarrow> 'a SocketStreamConnection_scheme) \<Rightarrow> u8 list \<Rightarrow> send_outcome list
     \<Rightarrow> 'a SocketStreamConnection_scheme \<Rightarrow> nat \<Rightarrow> (IPCOperationReport \<times> 'a SocketStreamConnection_scheme) result option" where
  "writeBytesBlocking_loop onCongestion buffer [] c sentBytes =
     (if sentBytes < length buffer then None else Some (Inr (IPC_OK, c)))"
| "writeBytesBlocking_loop onCongestion buffer (_ # outcomes) c sentBytes =
     (if sentBytes < length buffer
      then let (n, c) = socket_send c (drop sentBytes buffer)
           in case n of
                Inl e \<Rightarrow>
                  if e \<noteq> EAGAIN then Some (Inr (DISCONNECTED, disconnect c))
                  else writeBytesBlocking_loop onCongestion buffer outcomes (onCongestion c) sentBytes
              | Inr n \<Rightarrow>
                  writeBytesBlocking_loop onCongestion buffer outcomes
                    (if n \<noteq> length buffer - sentBytes then onCongestion c else c) (sentBytes + n)
      else Some (Inr (IPC_OK, c)))"

definition writeBytesBlocking ::
    "('a SocketStreamConnection_scheme \<Rightarrow> 'a SocketStreamConnection_scheme) \<Rightarrow> 'a SocketStreamConnection_scheme
     \<Rightarrow> u8 list \<Rightarrow> (IPCOperationReport \<times> 'a SocketStreamConnection_scheme) result option" where
  "writeBytesBlocking onCongestion c buffer =
     (if m_connectionFileDescriptor c = UNINITIALIZED_FILE_DESCRIPTOR then Some (Inl AssertFailed)
      else writeBytesBlocking_loop onCongestion buffer (sends c) (increaseWrittenBytesCounter c (length buffer)) 0)"

definition UDS_writeBlocking ::
    "endianness \<Rightarrow> ('a SocketStreamConnection_scheme \<Rightarrow> 'a SocketStreamConnection_scheme)
     \<Rightarrow> 'a SocketStreamConnection_scheme \<Rightarrow> 'b IPCMessage_scheme
     \<Rightarrow> (IPCOperationReport \<times> 'a SocketStreamConnection_scheme) result option" where
  "UDS_writeBlocking h onCongestion c msg =
     (let n = ba_size (m_payload msg)
      in bindW (writeBytesBlocking onCongestion c (length_field h n)) (\<lambda>(report, c).
           if report \<noteq> IPC_OK then Some (Inr (report, c))
           else writeBytesBlocking onCongestion c (take n (getData (m_payload msg)))))"

section \<open>Reading\<close>

record IPCBufferReader =
  rb_receivedBytesCount :: nat
  rb_size :: nat

definition setBuffer :: "nat \<Rightarrow> IPCBufferReader" where
  "setBuffer n = \<lparr>rb_receivedBytesCount = 0, rb_size = n\<rparr>"

definition reader_isComplete :: "IPCBufferReader \<Rightarrow> bool" where
  "reader_isComplete r = (rb_receivedBytesCount r = rb_size r)"

text \<open>\<open>read\<close> fills the buffer it points to, here \<open>buffer\<close>, which it returns.\<close>

definition IPCBufferReader_read ::
    "IPCBufferReader \<Rightarrow> u8 list \<Rightarrow> bool \<Rightarrow> 'a SocketStreamConnection_scheme
     \<Rightarrow> IPCOperationReport \<times> IPCBufferReader \<times> u8 list \<times> 'a SocketStreamConnection_scheme" where
  "IPCBufferReader_read r buffer blocking c =
     (if rb_size r - rb_receivedBytesCount r = 0 then (IPC_OK, r, buffer, c)
      else let (readLength, c) = socket_recv c (rb_size r - rb_receivedBytesCount r)
           in case readLength of
                Inl _ \<Rightarrow> (DISCONNECTED, r, buffer, c)
              | Inr bs \<Rightarrow>
                  if bs \<noteq> []
                  then (IPC_OK, r\<lparr>rb_receivedBytesCount := rb_receivedBytesCount r + length bs\<rparr>,
                        memcpy_at buffer (rb_receivedBytesCount r) bs, c)
                  else (if blocking then DISCONNECTED else IPC_OK, r, buffer, c))"

record UDSConnection = SocketStreamConnection +
  m_messageLengthReader :: IPCBufferReader
  m_currentInputMessage :: IPCInputMessage

definition setInputMessage :: "endianness \<Rightarrow> 'a UDSConnection_scheme \<Rightarrow> 'a UDSConnection_scheme" where
  "setInputMessage h c = c\<lparr>m_currentInputMessage := IPCInput_clear h (m_currentInputMessage c),
     m_messageLengthReader := setBuffer 8\<rparr>"

definition readAvailableData ::
    "'a SocketStreamConnection_scheme \<Rightarrow> nat \<Rightarrow> IPCOperationReport \<times> u8 list \<times> 'a SocketStreamConnection_scheme" where
  "readAvailableData c bytesCount =
     (let (n, c) = socket_recv c bytesCount
      in case n of
           Inl e \<Rightarrow> if e \<noteq> EAGAIN then (DISCONNECTED, [], disconnect c) else (IPC_OK, [], c)
         | Inr bs \<Rightarrow> (IPC_OK, bs, c))"

text \<open>
  The first part of \<open>read\<close>: the length reader points to \<open>m_totalMessageSize\<close>, whose bytes it
  fills; when they are complete the payload is given that length.
\<close>

definition UDS_readLength ::
    "endianness \<Rightarrow> bool \<Rightarrow> 'a UDSConnection_scheme \<Rightarrow> IPCOperationReport \<times> 'a UDSConnection_scheme" where
  "UDS_readLength h blocking c =
     (if \<not> reader_isComplete (m_messageLengthReader c)
      then let msg = m_currentInputMessage c;
               (report, r, buffer, c) = IPCBufferReader_read (m_messageLengthReader c)
                 (object_bytes h (m_totalMessageSize msg)) blocking c;
               msg = msg\<lparr>m_totalMessageSize := object_value h buffer\<rparr>;
               c = c\<lparr>m_messageLengthReader := r, m_currentInputMessage := msg\<rparr>
           in if report \<noteq> IPC_OK then (report, c)
              else (IPC_OK, if reader_isComplete r
                            then c\<lparr>m_currentInputMessage := setLength msg (m_totalMessageSize msg)\<rparr> else c)
      else (IPC_OK, c))"

definition UDS_readNonBlocking ::
    "endianness \<Rightarrow> 'a UDSConnection_scheme \<Rightarrow> IPCOperationReport \<times> 'a UDSConnection_scheme" where
  "UDS_readNonBlocking h c =
     (let (report, c) = UDS_readLength h False c
      in if report \<noteq> IPC_OK then (report, c)
         else if reader_isComplete (m_messageLengthReader c)
         then let msg = m_currentInputMessage c;
                  bytesToRead = unat (m_totalMessageSize msg - m_receivedSize msg);
                  (report, bs, c) = readAvailableData c bytesToRead
              in if report \<noteq> IPC_OK then (report, c)
                 else (IPC_OK, c\<lparr>m_currentInputMessage := msg
                        \<lparr>m_payload := ba_poke (m_payload msg) (unat (m_receivedSize msg)) bs,
                         m_receivedSize := m_receivedSize msg + of_nat (length bs)\<rparr>\<rparr>)
         else (IPC_OK, c))"

text \<open>The blocking reader; end of file runs into \<open>assert(false)\<close>.\<close>

function readBytesBlocking_loop ::
    "'a SocketStreamConnection_scheme \<Rightarrow> nat \<Rightarrow> u8 list
     \<Rightarrow> (IPCOperationReport \<times> u8 list \<times> 'a SocketStreamConnection_scheme) result option" where
  "readBytesBlocking_loop c n received =
     (if length received < n
      then if recvs c = [] then None
           else let (r, c) = socket_recv c (n - length received)
                in case r of
                     Inl e \<Rightarrow>
                       if e \<noteq> EAGAIN then Some (Inr (DISCONNECTED, received, disconnect c))
                       else readBytesBlocking_loop c n received
                   | Inr bs \<Rightarrow>
                       if bs = [] then Some (Inl AssertFailed) else readBytesBlocking_loop c n (received @ bs)
      else Some (Inr (IPC_OK, received, c)))"
  by pat_completeness auto
termination
  by (relation "measure (\<lambda>(c, _, _). length (recvs c))")
    (auto simp: socket_recv_def split: list.splits recv_outcome.splits if_splits)

declare readBytesBlocking_loop.simps [simp del]

text \<open>\<open>read\<close> with \<open>blocking\<close>: one \<open>recv\<close> for the length, which waits if nothing is there.\<close>

definition UDS_readBlocking ::
    "endianness \<Rightarrow> 'a UDSConnection_scheme \<Rightarrow> (IPCOperationReport \<times> 'a UDSConnection_scheme) result option" where
  "UDS_readBlocking h c =
     (if \<not> reader_isComplete (m_messageLengthReader c) \<and> recvs c = [] then None
      else let (report, c) = UDS_readLength h True c
      in if report \<noteq> IPC_OK then Some (Inr (report, c))
         else if reader_isComplete (m_messageLengthReader c)
         then let msg = m_currentInputMessage c;
                  bytesToRead = unat (m_totalMessageSize msg - m_receivedSize msg)
              in bindW (readBytesBlocking_loop c bytesToRead []) (\<lambda>(report, bs, c).
                   let msg = msg\<lparr>m_payload := ba_poke (m_payload msg) (unat (m_receivedSize msg)) bs\<rparr>
                   in if report \<noteq> IPC_OK then Some (Inr (report, c\<lparr>m_currentInputMessage := msg\<rparr>))
                      else Some (Inr (IPC_OK, c\<lparr>m_currentInputMessage :=
                              msg\<lparr>m_receivedSize := m_totalMessageSize msg\<rparr>\<rparr>)))
         else Some (Inr (IPC_OK, c)))"

text \<open>
  The loop of \<open>LocalClient::onIncomingDataAvailable\<close>: read, hand over a complete message,
  start the next, until there is no complete message. What is handed over is returned.
\<close>

lemma socket_recv_shrinks: "length (recvs (snd (socket_recv c n))) \<le> length (recvs c)"
  "recvs c \<noteq> [] \<Longrightarrow> length (recvs (snd (socket_recv c n))) < length (recvs c)"
  by (auto simp: socket_recv_def split: list.splits recv_outcome.splits)

lemma disconnect_recvs [simp]: "recvs (disconnect c) = recvs c"
  by (simp add: disconnect_def)

definition recvs_le :: "'a SocketStreamConnection_scheme \<Rightarrow> 'b SocketStreamConnection_scheme \<Rightarrow> bool" where
  "recvs_le c' c = (recvs c' = recvs c \<or> length (recvs c') < length (recvs c))"

lemma socket_recv_le: "socket_recv c n = (r, c') \<Longrightarrow> recvs_le c' c"
  by (auto simp: socket_recv_def recvs_le_def split: list.splits recv_outcome.splits)

lemma IPCBufferReader_read_le:
  "IPCBufferReader_read r buffer blocking c = (report, r', buffer', c') \<Longrightarrow> recvs_le c' c"
  by (auto simp: IPCBufferReader_read_def Let_def recvs_le_def split: if_splits prod.splits sum.splits
      dest!: socket_recv_le [unfolded recvs_le_def])

lemma readAvailableData_le: "readAvailableData c n = (report, bs, c') \<Longrightarrow> recvs_le c' c"
  by (auto simp: readAvailableData_def Let_def recvs_le_def split: if_splits prod.splits sum.splits
      dest!: socket_recv_le [unfolded recvs_le_def])

lemma UDS_readLength_le: "UDS_readLength h b c = (report, c') \<Longrightarrow> recvs_le c' c"
  by (auto simp: UDS_readLength_def Let_def recvs_le_def split: if_splits prod.splits
      dest!: IPCBufferReader_read_le [unfolded recvs_le_def])

lemma UDS_readNonBlocking_le: "UDS_readNonBlocking h c = (report, c') \<Longrightarrow> recvs_le c' c"
  by (auto simp: UDS_readNonBlocking_def Let_def recvs_le_def split: if_splits prod.splits
      dest!: UDS_readLength_le [unfolded recvs_le_def] readAvailableData_le [unfolded recvs_le_def])

lemma UDS_readLength_idle:
  assumes "\<not> reader_isComplete (m_messageLengthReader c)" and "UDS_readLength h b c = (report, c')"
  shows "c' = c \<or> length (recvs c') < length (recvs c)"
  using assms
  by (auto simp: UDS_readLength_def IPCBufferReader_read_def socket_recv_def Let_def
      split: if_splits list.splits recv_outcome.splits)

lemma readNonBlocking_progress:
  assumes "UDS_readNonBlocking h c = (report, c')" and "IPCInput_isComplete (m_currentInputMessage c')"
    and "\<not> reader_isComplete (m_messageLengthReader c)" and "\<not> IPCInput_isComplete (m_currentInputMessage c)"
  shows "length (recvs c') < length (recvs c)"
proof -
  obtain rep c1 where r: "UDS_readLength h False c = (rep, c1)" by fastforce
  from UDS_readLength_idle [OF assms(3) r] show ?thesis
  proof
    assume "c1 = c"
    with r assms show ?thesis by (simp add: UDS_readNonBlocking_def split: if_splits)
  next
    assume l: "length (recvs c1) < length (recvs c)"
    have "recvs_le c' c1"
      using assms(1) r
      by (auto simp: UDS_readNonBlocking_def Let_def recvs_le_def split: if_splits prod.splits
          dest!: readAvailableData_le [unfolded recvs_le_def])
    with l show ?thesis by (auto simp: recvs_le_def)
  qed
qed

text \<open>The number of \<open>recv\<close>s to come bounds the number of messages that can be completed.\<close>

definition read_measure :: "'a UDSConnection_scheme \<Rightarrow> nat" where
  "read_measure c = 2 * length (recvs c)
     + (if reader_isComplete (m_messageLengthReader c) \<or> IPCInput_isComplete (m_currentInputMessage c) then 1 else 0)"

lemma setInputMessage_measure: "read_measure (setInputMessage h c) = 2 * length (recvs c)"
  by (simp add: read_measure_def setInputMessage_def setBuffer_def reader_isComplete_def IPCInput_isComplete_def
      IPCInput_clear_def UNKNOWN_SIZE_def Let_def)

lemma read_measure_decreases:
  assumes r: "UDS_readNonBlocking h c = (report, c')" and complete: "IPCInput_isComplete (m_currentInputMessage c')"
  shows "2 * length (recvs c') < read_measure c"
  using UDS_readNonBlocking_le [OF r] readNonBlocking_progress [OF r complete]
  by (auto simp: recvs_le_def read_measure_def)

function onIncomingDataAvailable ::
    "endianness \<Rightarrow> 'a UDSConnection_scheme \<Rightarrow> IPCInputMessage list \<times> 'a UDSConnection_scheme" where
  "onIncomingDataAvailable h c =
     (let (_, c) = UDS_readNonBlocking h c; inputMessage = m_currentInputMessage c
      in if IPCInput_isComplete inputMessage
         then let (more, c) = onIncomingDataAvailable h (setInputMessage h c) in (inputMessage # more, c)
         else ([], c))"
  by pat_completeness auto
termination
  by (relation "measure (\<lambda>(h, c). read_measure c)")
    (auto simp: setInputMessage_measure read_measure_decreases dest: sym)

declare onIncomingDataAvailable.simps [simp del]

section \<open>The order of what is written\<close>

text \<open>
  What a stream connection promises its user: as long as it lives, the bytes on the wire
  and those still waiting are the messages written, in the order they were written.
\<close>

datatype 'm channel_op = Write 'm | Flush

locale ordered_channel =
  fixes put :: "'c \<Rightarrow> 'm \<Rightarrow> 'c result"
    and flush :: "'c \<Rightarrow> 'c result"
    and stream :: "'c \<Rightarrow> u8 list"
    and frame :: "'m \<Rightarrow> u8 list"
    and live :: "'c \<Rightarrow> bool"
    and invar :: "'c \<Rightarrow> bool"
  assumes put_stream: "invar c \<Longrightarrow> put c m = Inr c' \<Longrightarrow> live c' \<Longrightarrow> stream c' = stream c @ frame m"
    and put_keeps: "invar c \<Longrightarrow> put c m = Inr c' \<Longrightarrow> invar c' \<and> (live c' \<longrightarrow> live c)"
    and flush_stream: "invar c \<Longrightarrow> flush c = Inr c' \<Longrightarrow> live c' \<Longrightarrow> stream c' = stream c"
    and flush_keeps: "invar c \<Longrightarrow> flush c = Inr c' \<Longrightarrow> invar c' \<and> (live c' \<longrightarrow> live c)"
begin

lemma run_stream:
  assumes "foldE (\<lambda>op c. case op of Write m \<Rightarrow> put c m | Flush \<Rightarrow> flush c) ops c = Inr c'"
    and "invar c" and "live c'"
  shows "live c \<and> stream c' = stream c @ concat (map (\<lambda>op. case op of Write m \<Rightarrow> frame m | Flush \<Rightarrow> []) ops)"
  using assms
proof (induction ops arbitrary: c)
  case (Cons op ops)
  then obtain c1 where c1: "(case op of Write m \<Rightarrow> put c m | Flush \<Rightarrow> flush c) = Inr c1"
    and rest: "foldE (\<lambda>op c. case op of Write m \<Rightarrow> put c m | Flush \<Rightarrow> flush c) ops c1 = Inr c'"
    by (auto simp: bindE_eq_Inr)
  have k: "invar c1" "live c1 \<longrightarrow> live c"
    using c1 Cons.prems(2) by (cases op; auto dest: put_keeps flush_keeps)+
  with Cons.IH [OF rest] Cons.prems have ih: "live c1"
    "stream c' = stream c1 @ concat (map (\<lambda>op. case op of Write m \<Rightarrow> frame m | Flush \<Rightarrow> []) ops)"
    by auto
  show ?case
    using c1 ih k Cons.prems(2) by (cases op) (auto dest: put_stream flush_stream)
qed simp

end

definition frame :: "endianness \<Rightarrow> 'b IPCMessage_scheme \<Rightarrow> u8 list" where
  "frame h msg = length_field h (ba_size (m_payload msg)) @ contents (m_payload msg)"

definition outstanding :: "'a SocketStreamConnection_scheme \<Rightarrow> u8 list" where
  "outstanding c = wire c @ contents (m_dataToBeSent c)"

text \<open>The send outcomes do not include \<open>EBADF\<close>, on which the code drops the data.\<close>

definition writer_invar :: "'a SocketStreamConnection_scheme \<Rightarrow> bool" where
  "writer_invar c = (ba_invar (m_dataToBeSent c) \<and> SendFails EBADF \<notin> set (sends c))"

text \<open>One equation per branch of \<open>writeBytesNonBlocking\<close>.\<close>

lemma writeBytesNonBlocking_closed:
  "\<not> isConnected c \<Longrightarrow> writeBytesNonBlocking c data = Inl AssertFailed"
  by (simp add: writeBytesNonBlocking_def isConnected_def)

lemma writeBytesNonBlocking_blocked:
  "isConnected c \<Longrightarrow> sends c = [] \<Longrightarrow> writeBytesNonBlocking c data
     = Inr (BUFFER_FULL, enqueueData (increaseWrittenBytesCounter c (length data)) data)"
  by (simp add: writeBytesNonBlocking_def isConnected_def socket_send_def increaseWrittenBytesCounter_def Let_def)

lemma writeBytesNonBlocking_accepts:
  "isConnected c \<Longrightarrow> sends c = Accepts n # r \<Longrightarrow> writeBytesNonBlocking c data
     = (let c = (increaseWrittenBytesCounter c (length data))\<lparr>wire := wire c @ take n data, sends := r\<rparr>
        in if length data \<le> n then Inr (IPC_OK, c) else Inr (BUFFER_FULL, enqueueData c (drop n data)))"
  by (simp add: writeBytesNonBlocking_def isConnected_def socket_send_def increaseWrittenBytesCounter_def
      Let_def min_def)

lemma writeBytesNonBlocking_fails:
  "isConnected c \<Longrightarrow> sends c = SendFails e # r \<Longrightarrow> writeBytesNonBlocking c data
     = (let c = (increaseWrittenBytesCounter c (length data))\<lparr>sends := r\<rparr>
        in case e of EAGAIN \<Rightarrow> Inr (BUFFER_FULL, enqueueData c data) | EBADF \<Rightarrow> Inr (IPC_OK, c)
           | _ \<Rightarrow> Inr (DISCONNECTED, disconnect c))"
  by (cases e) (simp_all add: writeBytesNonBlocking_def isConnected_def socket_send_def
      increaseWrittenBytesCounter_def Let_def)

lemma enqueueData_simps [simp]:
  "ba_invar (m_dataToBeSent c) \<Longrightarrow> outstanding (enqueueData c data) = outstanding c @ data"
  "ba_invar (m_dataToBeSent c) \<Longrightarrow> ba_invar (m_dataToBeSent (enqueueData c data))"
  "wire (enqueueData c data) = wire c" "sends (enqueueData c data) = sends c"
  "isConnected (enqueueData c data) = isConnected c"
  by (simp_all add: enqueueData_def outstanding_def isConnected_def)

lemma increaseWrittenBytesCounter_simps [simp]:
  "outstanding (increaseWrittenBytesCounter c n) = outstanding c"
  "m_dataToBeSent (increaseWrittenBytesCounter c n) = m_dataToBeSent c"
  "wire (increaseWrittenBytesCounter c n) = wire c" "sends (increaseWrittenBytesCounter c n) = sends c"
  "isConnected (increaseWrittenBytesCounter c n) = isConnected c"
  "m_connectionFileDescriptor (increaseWrittenBytesCounter c n) = m_connectionFileDescriptor c"
  by (simp_all add: increaseWrittenBytesCounter_def outstanding_def isConnected_def)

lemma disconnect_simps [simp]:
  "\<not> isConnected (disconnect c)" "m_dataToBeSent (disconnect c) = m_dataToBeSent c"
  "sends (disconnect c) = sends c"
  by (simp_all add: disconnect_def isConnected_def UNINITIALIZED_FILE_DESCRIPTOR_def)

lemma writeBytesNonBlocking_stream:
  assumes w: "writeBytesNonBlocking c data = Inr (report, c')" and inv: "writer_invar c"
    and free: "contents (m_dataToBeSent c) = []"
  shows "isConnected c \<and> writer_invar c' \<and> (isConnected c' \<longrightarrow> outstanding c' = outstanding c @ data)
    \<and> (report = DISCONNECTED \<longleftrightarrow> \<not> isConnected c')
    \<and> (report = IPC_OK \<longrightarrow> contents (m_dataToBeSent c') = [])"
proof (cases "isConnected c")
  case True
  note inv' = inv [unfolded writer_invar_def]
  show ?thesis
  proof (cases "sends c")
    case Nil
    with True w inv' show ?thesis by (auto simp: writeBytesNonBlocking_blocked writer_invar_def)
  next
    case (Cons o' r)
    show ?thesis
    proof (cases o')
      case (Accepts n)
      with True w inv' Cons free show ?thesis
        by (auto simp: writeBytesNonBlocking_accepts writer_invar_def isConnected_def outstanding_def
            enqueueData_def Let_def split: if_splits)
    next
      case (SendFails e)
      with True w inv' Cons show ?thesis
        by (cases e) (auto simp: writeBytesNonBlocking_fails writer_invar_def isConnected_def outstanding_def
            enqueueData_def disconnect_def UNINITIALIZED_FILE_DESCRIPTOR_def Let_def)
    qed
  qed
qed (use w in \<open>simp add: writeBytesNonBlocking_closed\<close>)

definition uds_put :: "endianness \<Rightarrow> 'a SocketStreamConnection_scheme \<Rightarrow> IPCMessage \<Rightarrow> 'a SocketStreamConnection_scheme result" where
  "uds_put h c msg = bindE (UDS_writeNonBlocking h c msg) (\<lambda>(report, c). Inr c)"

definition uds_flush :: "'a SocketStreamConnection_scheme \<Rightarrow> 'a SocketStreamConnection_scheme result" where
  "uds_flush c = bindE (writePendingDataNonBlocking c) (\<lambda>(report, c). Inr c)"

lemma not_congested: "ba_invar (m_dataToBeSent c) \<Longrightarrow> \<not> isCongested c \<longleftrightarrow> contents (m_dataToBeSent c) = []"
  by (simp add: isCongested_def ba_size_contents)

lemma UDS_writeNonBlocking_stream:
  assumes w: "UDS_writeNonBlocking h c msg = Inr (report, c')" and inv: "writer_invar c"
  shows "writer_invar c' \<and> (isConnected c' \<longrightarrow> isConnected c \<and> outstanding c' = outstanding c @ frame h msg)"
proof (cases "isCongested c")
  case True
  with w inv show ?thesis
    by (auto simp: UDS_writeNonBlocking_def Let_def frame_def contents_def [of "m_payload msg"] writer_invar_def)
next
  case False
  let ?len = "length_field h (ba_size (m_payload msg))" and ?data = "contents (m_payload msg)"
  have free: "contents (m_dataToBeSent c) = []" using False inv not_congested writer_invar_def by blast
  obtain r1 c1 where w1: "writeBytesNonBlocking c ?len = Inr (r1, c1)"
    and w2: "(case r1 of IPC_OK \<Rightarrow> writeBytesNonBlocking c1 ?data
       | BUFFER_FULL \<Rightarrow> Inr (BUFFER_FULL, enqueueData c1 ?data)
       | DISCONNECTED \<Rightarrow> Inr (DISCONNECTED, disconnect c1)) = Inr (report, c')"
    using w False unfolding UDS_writeNonBlocking_def Let_def contents_def [symmetric]
    by (auto simp: bindE_eq_Inr)
  note s1 = writeBytesNonBlocking_stream [OF w1 inv free]
  show ?thesis
  proof (cases r1)
    case IPC_OK
    then have w3: "writeBytesNonBlocking c1 ?data = Inr (report, c')" using w2 by simp
    from writeBytesNonBlocking_stream [OF w3] s1 IPC_OK show ?thesis by (auto simp: frame_def)
  next
    case BUFFER_FULL
    with w2 s1 show ?thesis by (auto simp: frame_def writer_invar_def)
  next
    case DISCONNECTED
    with w2 s1 show ?thesis by (auto simp: writer_invar_def)
  qed
qed

lemma writePending_stream:
  assumes w: "writePendingDataNonBlocking c = Inr (report, c')" and inv: "writer_invar c"
  shows "writer_invar c' \<and> (isConnected c' \<longrightarrow> isConnected c \<and> outstanding c' = outstanding c)"
proof (cases "ba_size (m_dataToBeSent c) = 0")
  case True
  with w inv show ?thesis by (simp add: writePendingDataNonBlocking_def)
next
  case False
  let ?c = "c\<lparr>m_dataToBeSent := ba_resize (m_dataToBeSent c) 0\<rparr>"
  have copy: "take (ba_size (ba_copy b)) (getData (ba_copy b)) = contents b" for b
    by (simp add: contents_def [symmetric])
  obtain r c1 where w1: "writeBytesNonBlocking ?c (contents (m_dataToBeSent c)) = Inr (r, c1)"
    and c': "c' = (if r = IPC_OK then c1\<lparr>events := events c1 @ [OnCongestionFinished]\<rparr> else c1)"
    using w False by (auto simp: writePendingDataNonBlocking_def Let_def bindE_eq_Inr copy)
  have i: "writer_invar ?c" "contents (m_dataToBeSent ?c) = []"
    using inv by (simp_all add: writer_invar_def contents_resize_shrink)
  have "isConnected ?c = isConnected c" "outstanding ?c @ contents (m_dataToBeSent c) = outstanding c"
    using i(2) by (simp_all add: isConnected_def outstanding_def)
  with writeBytesNonBlocking_stream [OF w1 i] c' show ?thesis
    by (auto simp: writer_invar_def isConnected_def outstanding_def)
qed

interpretation uds: ordered_channel "uds_put h" uds_flush outstanding "frame h" isConnected writer_invar for h
  by unfold_locales
    (auto simp: uds_put_def uds_flush_def bindE_eq_Inr dest: UDS_writeNonBlocking_stream writePending_stream)

section \<open>Reassembling messages\<close>

text \<open>
  The part of the message being received that has already arrived: a part of its length
  field, or the length field and a part of its bytes. Whatever the pieces the kernel hands
  out, a read only moves bytes from the front of \<open>inbox\<close> to the end of \<open>arrived\<close>.
\<close>

definition arrived :: "endianness \<Rightarrow> 'a UDSConnection_scheme \<Rightarrow> u8 list" where
  "arrived h c =
     (let msg = m_currentInputMessage c; r = m_messageLengthReader c;
          len = object_bytes h (m_totalMessageSize msg)
      in if reader_isComplete r then len @ take (unat (m_receivedSize msg)) (contents (m_payload msg))
         else take (rb_receivedBytesCount r) len)"

definition reader_invar :: "endianness \<Rightarrow> 'a UDSConnection_scheme \<Rightarrow> bool" where
  "reader_invar h c =
     (let msg = m_currentInputMessage c; r = m_messageLengthReader c; k = rb_receivedBytesCount r
      in rb_size r = 8 \<and> k \<le> 8 \<and> ba_invar (m_payload msg) \<and>
         (if k < 8
          then m_receivedSize msg = 0
               \<and> drop k (object_bytes h (m_totalMessageSize msg)) = replicate (8 - k) 0xFF
          else length (contents (m_payload msg)) = unat (m_totalMessageSize msg)
               \<and> unat (m_receivedSize msg) \<le> unat (m_totalMessageSize msg)))"

lemma socket_recv_stream:
  fixes c :: "'a UDSConnection_scheme"
  assumes "socket_recv c n = (r, c')"
  shows "m_messageLengthReader c' = m_messageLengthReader c \<and> m_currentInputMessage c' = m_currentInputMessage c
    \<and> (case r of Inl _ \<Rightarrow> inbox c' = inbox c | Inr bs \<Rightarrow> length bs \<le> n \<and> inbox c = bs @ inbox c')"
  using assms by (auto simp: socket_recv_def split: list.splits recv_outcome.splits)

lemma readAvailableData_stream:
  fixes c :: "'a UDSConnection_scheme"
  assumes "readAvailableData c n = (report, bs, c')"
  shows "m_messageLengthReader c' = m_messageLengthReader c \<and> m_currentInputMessage c' = m_currentInputMessage c
    \<and> inbox c = bs @ inbox c' \<and> length bs \<le> n \<and> (report \<noteq> IPC_OK \<longrightarrow> bs = [])"
proof -
  obtain r c1 where r: "socket_recv c n = (r, c1)" by fastforce
  with socket_recv_stream [OF r] assms show ?thesis
    by (auto simp: readAvailableData_def disconnect_def split: sum.splits if_splits)
qed

lemma memcpy_into_unset:
  assumes "drop k buf = replicate (8 - k) x" and "k + length bs \<le> 8" and "length buf = 8"
  shows "take (k + length bs) (memcpy_at buf k bs) = take k buf @ bs"
    and "drop (k + length bs) (memcpy_at buf k bs) = replicate (8 - (k + length bs)) x"
proof -
  have "drop (k + length bs) buf = drop (length bs) (drop k buf)" by (simp add: add.commute)
  then have "drop (k + length bs) buf = replicate (8 - (k + length bs)) x" using assms(1) by simp
  then have m: "memcpy_at buf k bs = take k buf @ bs @ replicate (8 - (k + length bs)) x"
    using assms by (simp add: memcpy_at_def)
  show "take (k + length bs) (memcpy_at buf k bs) = take k buf @ bs"
    using assms(2,3) by (simp add: m)
  show "drop (k + length bs) (memcpy_at buf k bs) = replicate (8 - (k + length bs)) x"
    using assms(2,3) by (simp add: m)
qed

lemma length_u64_bytes [simp]: "length (object_bytes h (n :: u64)) = 8"
  by simp

lemma UDS_readLength_stream:
  assumes r: "UDS_readLength h b c = (report, c')" and inv: "reader_invar h c"
  shows "reader_invar h c' \<and> arrived h c' @ inbox c' = arrived h c @ inbox c
    \<and> (reader_isComplete (m_messageLengthReader c) \<longrightarrow> c' = c \<and> report = IPC_OK)"
proof (cases "reader_isComplete (m_messageLengthReader c)")
  case True
  with r show ?thesis using inv by (simp add: UDS_readLength_def)
next
  case False
  let ?r = "m_messageLengthReader c" and ?msg = "m_currentInputMessage c"
  let ?k = "rb_receivedBytesCount ?r" and ?buf = "object_bytes h (m_totalMessageSize ?msg)"
  have k: "?k < 8" "rb_size ?r = 8" "m_receivedSize ?msg = 0" "ba_invar (m_payload ?msg)"
    "drop ?k ?buf = replicate (8 - ?k) 0xFF"
    using inv False by (auto simp: reader_invar_def reader_isComplete_def Let_def split: if_splits)
  obtain q c1 where q: "socket_recv c (8 - ?k) = (q, c1)" by fastforce
  note s = socket_recv_stream [OF q]
  show ?thesis
  proof (cases "\<exists>bs. q = Inr bs \<and> bs \<noteq> []")
    case False
    then have "c' = c1 \<and> inbox c1 = inbox c"
      using r q s k \<open>\<not> reader_isComplete ?r\<close>
      by (auto simp: UDS_readLength_def IPCBufferReader_read_def Let_def split: sum.splits if_splits)
    with s inv \<open>\<not> reader_isComplete ?r\<close> show ?thesis
      by (auto simp: reader_invar_def arrived_def Let_def)
  next
    case True
    then obtain bs where bs: "q = Inr bs" "bs \<noteq> []" "length bs \<le> 8 - ?k" "inbox c = bs @ inbox c1"
      using s by auto
    let ?buf' = "memcpy_at ?buf ?k bs" and ?k' = "?k + length bs"
    have l: "?k' \<le> 8" using bs(3) k(1) by simp
    note m = memcpy_into_unset [OF k(5) l length_u64_bytes]
    have len: "length ?buf' = 8" by simp
    then have ob: "object_bytes h (object_value h ?buf' :: u64) = ?buf'" by (simp add: object_bytes_object_value)
    have c': "report = IPC_OK" "c' = c1\<lparr>m_messageLengthReader := ?r\<lparr>rb_receivedBytesCount := ?k'\<rparr>,
        m_currentInputMessage := (if ?k' = 8 then setLength (?msg\<lparr>m_totalMessageSize := object_value h ?buf'\<rparr>)
          (object_value h ?buf') else ?msg\<lparr>m_totalMessageSize := object_value h ?buf'\<rparr>)\<rparr>"
      using r q bs k s \<open>\<not> reader_isComplete ?r\<close>
      by (auto simp: UDS_readLength_def IPCBufferReader_read_def reader_isComplete_def Let_def)
    show ?thesis
      using c' m ob k bs l s \<open>\<not> reader_isComplete ?r\<close>
      by (auto simp: reader_invar_def arrived_def reader_isComplete_def setLength_def ba_size_contents [symmetric]
          Let_def)
  qed
qed

lemma UDS_readNonBlocking_stream:
  assumes r: "UDS_readNonBlocking h c = (report, c')" and inv: "reader_invar h c"
  shows "reader_invar h c' \<and> arrived h c' @ inbox c' = arrived h c @ inbox c"
proof -
  obtain rep1 c1 where r1: "UDS_readLength h False c = (rep1, c1)" by fastforce
  note s1 = UDS_readLength_stream [OF r1 inv]
  show ?thesis
  proof (cases "rep1 = IPC_OK \<and> reader_isComplete (m_messageLengthReader c1)")
    case False
    with r r1 s1 show ?thesis by (auto simp: UDS_readNonBlocking_def split: if_splits)
  next
    case True
    let ?msg = "m_currentInputMessage c1"
    let ?got = "unat (m_receivedSize ?msg)" and ?total = "unat (m_totalMessageSize ?msg)"
    obtain rep2 bs c2 where r2: "readAvailableData c1 (unat (m_totalMessageSize ?msg - m_receivedSize ?msg)) = (rep2, bs, c2)"
      by (metis prod_cases3)
    note s2 = readAvailableData_stream [OF r2]
    have i1: "ba_invar (m_payload ?msg)" "length (contents (m_payload ?msg)) = ?total" "?got \<le> ?total"
      "rb_size (m_messageLengthReader c1) = 8" "rb_receivedBytesCount (m_messageLengthReader c1) = 8"
      using s1 True by (auto simp: reader_invar_def reader_isComplete_def Let_def split: if_splits)
    then have "unat (m_totalMessageSize ?msg - m_receivedSize ?msg) = ?total - ?got"
      by (simp add: unat_sub word_le_nat_alt)
    with s2 have lb: "?got + length bs \<le> ?total" using i1(3) by linarith
    moreover have "?total < 2 ^ LENGTH(64)" by (rule unsigned_less)
    ultimately have "?got + length bs < 2 ^ 64" by simp
    then have got': "unat (m_receivedSize ?msg + of_nat (length bs)) = ?got + length bs"
      by (simp add: unat_word_ariths unat_of_nat)
    have pl: "take (?got + length bs) (contents (ba_poke (m_payload ?msg) ?got bs)) = take ?got (contents (m_payload ?msg)) @ bs"
      using i1 lb by (simp add: take_memcpy_at_end)
    have c': "c' = (if rep2 = IPC_OK then c2\<lparr>m_currentInputMessage := ?msg\<lparr>m_payload := ba_poke (m_payload ?msg) ?got bs,
        m_receivedSize := m_receivedSize ?msg + of_nat (length bs)\<rparr>\<rparr> else c2)"
      using r r1 r2 True by (auto simp: UDS_readNonBlocking_def Let_def split: if_splits)
    show ?thesis
      using s1 s2 c' i1 lb got' pl True
      by (auto simp: reader_invar_def arrived_def reader_isComplete_def Let_def)
  qed
qed

text \<open>A message is complete exactly when what has arrived is a whole frame.\<close>

lemma arrived_complete:
  assumes inv: "reader_invar h c" and "IPCInput_isComplete (m_currentInputMessage c)"
  shows "reader_isComplete (m_messageLengthReader c)"
    and "arrived h c = frame h (m_currentInputMessage c)"
proof -
  let ?msg = "m_currentInputMessage c" and ?k = "rb_receivedBytesCount (m_messageLengthReader c)"
  show complete: "reader_isComplete (m_messageLengthReader c)"
  proof (rule ccontr)
    assume "\<not> reader_isComplete (m_messageLengthReader c)"
    then have k: "?k < 8" "m_receivedSize ?msg = 0"
      "drop ?k (object_bytes h (m_totalMessageSize ?msg)) = replicate (8 - ?k) 0xFF"
      using inv by (auto simp: reader_invar_def reader_isComplete_def Let_def split: if_splits)
    with assms(2) have z: "m_totalMessageSize ?msg = 0" by (simp add: IPCInput_isComplete_def)
    have "object_bytes h (0 :: u64) = replicate 8 0"
      by (cases h) (simp_all add: bytes_le_def bytes_be_def map_replicate_const)
    then have "drop ?k (replicate 8 (0 :: u8)) = replicate (8 - ?k) 0xFF" using k(3) z by simp
    then show False using k(1) by (simp add: replicate_eq_replicate)
  qed
  show "arrived h c = frame h ?msg"
    using inv complete assms(2)
    by (auto simp: reader_invar_def reader_isComplete_def arrived_def frame_def length_field_def
        IPCInput_isComplete_def ba_size_contents Let_def)
qed

lemma object_bytes_minus_1: "object_bytes h (- 1 :: u64) = replicate 8 0xFF"
proof -
  have "(ucast (drop_bit (8 * i) (- 1 :: u64)) :: u8) = - 1" if "i < 8" for i
    using that by (intro bit_word_eqI) (simp add: bit_simps)
  then have "bytes_le (- 1 :: u64) = replicate 8 0xFF"
    unfolding bytes_le_def by (intro nth_equalityI) simp_all
  then show ?thesis by (cases h) (simp_all add: bytes_be_def)
qed

lemma setInputMessage_fresh:
  "reader_invar h c \<Longrightarrow> reader_invar h (setInputMessage h c) \<and> arrived h (setInputMessage h c) = []
    \<and> inbox (setInputMessage h c) = inbox c"
  by (auto simp: setInputMessage_def setBuffer_def reader_invar_def arrived_def reader_isComplete_def
      IPCInput_clear_def IPCMessage_setHeader_def UNKNOWN_SIZE_def Let_def object_bytes_minus_1)

definition frame_bytes :: "endianness \<Rightarrow> u8 list \<Rightarrow> u8 list" where
  "frame_bytes h p = length_field h (length p) @ p"

lemma frame_frame_bytes: "ba_invar (m_payload msg) \<Longrightarrow> frame h msg = frame_bytes h (contents (m_payload msg))"
  by (simp add: frame_def frame_bytes_def ba_size_contents)

lemma length_length_field [simp]: "length (length_field h n) = 8"
  by (simp add: length_field_def)

lemma length_field_inj:
  assumes "length_field h m = length_field h n" and "m < 2 ^ 64" and "n < 2 ^ 64"
  shows "m = n"
proof -
  have "(of_nat m :: u64) = of_nat n"
    using arg_cong [OF assms(1) [unfolded length_field_def], of "object_value h :: _ \<Rightarrow> u64"] by simp
  then have "unat (of_nat m :: u64) = unat (of_nat n :: u64)" by simp
  with assms(2,3) show ?thesis by (simp add: unat_of_nat)
qed

lemma frames_first:
  assumes "frame_bytes h p @ r = concat (map (frame_bytes h) qs)"
    and "length p < 2 ^ 64" and "\<forall>q \<in> set qs. length q < 2 ^ 64"
  shows "\<exists>qs'. qs = p # qs' \<and> r = concat (map (frame_bytes h) qs')"
proof (cases qs)
  case Nil
  with assms(1) have "length (frame_bytes h p) = 0" by simp
  then show ?thesis by (simp add: frame_bytes_def)
next
  case (Cons q qs')
  then have e: "length_field h (length p) @ p @ r = length_field h (length q) @ q @ concat (map (frame_bytes h) qs')"
    using assms(1) by (simp add: frame_bytes_def)
  then have "length_field h (length p) = length_field h (length q)" by simp
  then have "length p = length q" using assms(2,3) Cons by (intro length_field_inj) auto
  with e Cons show ?thesis by simp
qed

text \<open>One call of the loop, with bytes \<open>later\<close> that have not arrived yet.\<close>

lemma onIncomingDataAvailable_frames:
  assumes "onIncomingDataAvailable h c = (ms, c')" and "reader_invar h c"
    and "arrived h c @ inbox c @ later = concat (map (frame_bytes h) qs)"
    and "\<forall>q \<in> set qs. length q < 2 ^ 64"
  shows "\<exists>qs'. qs = map (\<lambda>m. contents (m_payload m)) ms @ qs' \<and> reader_invar h c'
    \<and> arrived h c' @ inbox c' @ later = concat (map (frame_bytes h) qs')
    \<and> \<not> IPCInput_isComplete (m_currentInputMessage c')"
  using assms
proof (induction h c arbitrary: ms qs rule: onIncomingDataAvailable.induct)
  case (1 h c)
  obtain rep c1 where r: "UDS_readNonBlocking h c = (rep, c1)" by fastforce
  note s = UDS_readNonBlocking_stream [OF r 1(3)]
  have stream: "arrived h c1 @ inbox c1 @ later = concat (map (frame_bytes h) qs)"
    using s 1(4) by (metis append.assoc)
  show ?case
  proof (cases "IPCInput_isComplete (m_currentInputMessage c1)")
    case False
    then have "ms = [] \<and> c' = c1"
      using 1(2) r by (subst (asm) onIncomingDataAvailable.simps) simp
    with False s stream show ?thesis by auto
  next
    case True
    let ?msg = "m_currentInputMessage c1"
    have inv: "ba_invar (m_payload ?msg)" using s by (simp add: reader_invar_def Let_def)
    obtain more where more: "onIncomingDataAvailable h (setInputMessage h c1) = (more, c')" and ms: "ms = ?msg # more"
      using 1(2) r True by (subst (asm) onIncomingDataAvailable.simps) (auto split: prod.splits)
    have "length (contents (m_payload ?msg)) = unat (m_totalMessageSize ?msg)"
      using s arrived_complete(1) [OF _ True] by (auto simp: reader_invar_def reader_isComplete_def Let_def split: if_splits)
    moreover have "unat (m_totalMessageSize ?msg) < 2 ^ LENGTH(64)" by (rule unsigned_less)
    ultimately have small: "length (contents (m_payload ?msg)) < 2 ^ 64" by simp
    have "frame_bytes h (contents (m_payload ?msg)) @ inbox c1 @ later = concat (map (frame_bytes h) qs)"
      using stream arrived_complete(2) [OF _ True] s inv by (simp add: frame_frame_bytes)
    from frames_first [OF this small 1(5)] obtain qs1 where qs: "qs = contents (m_payload ?msg) # qs1"
      "inbox c1 @ later = concat (map (frame_bytes h) qs1)" by auto
    have "\<exists>qs'. qs1 = map (\<lambda>m. contents (m_payload m)) more @ qs' \<and> reader_invar h c'
        \<and> arrived h c' @ inbox c' @ later = concat (map (frame_bytes h) qs')
        \<and> \<not> IPCInput_isComplete (m_currentInputMessage c')"
      using setInputMessage_fresh [of h c1] s qs 1(5) more
      by (intro 1(1) [OF refl r [symmetric] refl True]) auto
    with qs(1) ms show ?thesis by auto
  qed
qed

text \<open>What is left at the end is the beginning of a frame that is not complete.\<close>

lemma arrived_incomplete:
  assumes inv: "reader_invar h c" and "\<not> IPCInput_isComplete (m_currentInputMessage c)"
    and "arrived h c = concat (map (frame_bytes h) qs)" and "\<forall>q \<in> set qs. length q < 2 ^ 64"
  shows "qs = []"
proof (rule ccontr)
  assume "qs \<noteq> []"
  then obtain q qs' where qs: "qs = q # qs'" by (cases qs) auto
  let ?msg = "m_currentInputMessage c"
  have a: "arrived h c = length_field h (length q) @ q @ concat (map (frame_bytes h) qs')"
    using assms(3) qs by (simp add: frame_bytes_def)
  show False
  proof (cases "reader_isComplete (m_messageLengthReader c)")
    case False
    then have "length (arrived h c) < 8"
      using inv by (auto simp: arrived_def reader_invar_def reader_isComplete_def Let_def)
    with a show False by simp
  next
    case True
    let ?got = "unat (m_receivedSize ?msg)" and ?total = "unat (m_totalMessageSize ?msg)"
    have c: "arrived h c = object_bytes h (m_totalMessageSize ?msg) @ take ?got (contents (m_payload ?msg))"
      using True by (simp add: arrived_def Let_def)
    have "?got \<le> ?total" using inv True by (auto simp: reader_invar_def reader_isComplete_def Let_def split: if_splits)
    with assms(2) have "?got < ?total" by (auto simp: IPCInput_isComplete_def order_le_less word_unat_eq_iff)
    have "object_bytes h (m_totalMessageSize ?msg) = length_field h (length q)" using a c by simp
    then have "length_field h ?total = length_field h (length q)" by (simp add: length_field_def)
    moreover have "?total < 2 ^ LENGTH(64)" by (rule unsigned_less)
    ultimately have "?total = length q" using assms(4) qs by (intro length_field_inj [of h]) auto
    moreover have "length (arrived h c) \<le> 8 + ?got" unfolding c by simp
    moreover have "8 + length q \<le> length (arrived h c)" unfolding a by simp
    ultimately show False using \<open>?got < ?total\<close> by linarith
  qed
qed

text \<open>
  A connection's life as a receiver: calls of the loop, before each of which more bytes have
  arrived and the kernel has made up its mind about the next calls of \<open>recv\<close>.
\<close>

fun receive_all ::
    "endianness \<Rightarrow> 'a UDSConnection_scheme \<Rightarrow> (u8 list \<times> recv_outcome list) list
     \<Rightarrow> IPCInputMessage list \<times> 'a UDSConnection_scheme" where
  "receive_all h c [] = ([], c)"
| "receive_all h c ((bytes, outcomes) # rest) =
     (let (ms, c) = onIncomingDataAvailable h (c\<lparr>inbox := inbox c @ bytes, recvs := outcomes\<rparr>);
          (ms', c) = receive_all h c rest
      in (ms @ ms', c))"

lemma arrived_inbox_update [simp]:
  "arrived h (c\<lparr>inbox := i, recvs := r\<rparr>) = arrived h c" "reader_invar h (c\<lparr>inbox := i, recvs := r\<rparr>) = reader_invar h c"
  by (simp_all add: arrived_def reader_invar_def)

lemma receive_all_frames:
  assumes "receive_all h c batches = (ms, c')" and "reader_invar h c"
    and "\<not> IPCInput_isComplete (m_currentInputMessage c)"
    and "arrived h c @ inbox c @ concat (map fst batches) @ later = concat (map (frame_bytes h) qs)"
    and "\<forall>q \<in> set qs. length q < 2 ^ 64"
  shows "\<exists>qs'. qs = map (\<lambda>m. contents (m_payload m)) ms @ qs' \<and> reader_invar h c'
    \<and> arrived h c' @ inbox c' @ later = concat (map (frame_bytes h) qs')
    \<and> \<not> IPCInput_isComplete (m_currentInputMessage c')"
  using assms
proof (induction batches arbitrary: c ms qs)
  case (Cons b batches)
  obtain bytes outcomes where b: "b = (bytes, outcomes)" by fastforce
  let ?c = "c\<lparr>inbox := inbox c @ bytes, recvs := outcomes\<rparr>"
  obtain ms1 c1 where r: "onIncomingDataAvailable h ?c = (ms1, c1)" by fastforce
  obtain ms2 where r2: "receive_all h c1 batches = (ms2, c')" and ms: "ms = ms1 @ ms2"
    using Cons.prems(1) b r by (auto split: prod.splits)
  obtain qs1 where s: "qs = map (\<lambda>m. contents (m_payload m)) ms1 @ qs1" "reader_invar h c1"
    "arrived h c1 @ inbox c1 @ concat (map fst batches) @ later = concat (map (frame_bytes h) qs1)"
    "\<not> IPCInput_isComplete (m_currentInputMessage c1)"
    using onIncomingDataAvailable_frames [OF r, of "concat (map fst batches) @ later" qs] Cons.prems b by auto
  from Cons.IH [OF r2 s(2,4,3)] s(1) ms Cons.prems(5) show ?case by auto
qed auto

definition UDSConnection_new :: "endianness \<Rightarrow> int \<Rightarrow> UDSConnection" where
  "UDSConnection_new h fd = setInputMessage h
     \<lparr>m_connectionFileDescriptor = fd, m_dataToBeSent = ByteArray_new, m_writtenBytesCount = 0,
      wire = [], sends = [], inbox = [], recvs = [], events = [],
      m_messageLengthReader = setBuffer 0, m_currentInputMessage = IPCInputMessage_new h\<rparr>"

lemma UDSConnection_new_fresh:
  "reader_invar h (UDSConnection_new h fd)" "arrived h (UDSConnection_new h fd) = []"
  "inbox (UDSConnection_new h fd) = []" "\<not> IPCInput_isComplete (m_currentInputMessage (UDSConnection_new h fd))"
  "ba_invar (m_dataToBeSent (UDSConnection_new h fd))" "outstanding (UDSConnection_new h fd) = []"
proof -
  have "ba_invar (m_payload (IPCInputMessage_new h))"
    by (simp add: IPCInputMessage_new_def IPCInput_clear_def IPCMessage_setHeader_def IPCMessage_new_def
        IPCMessage.defs IPCInputMessage.defs Let_def)
  then show "reader_invar h (UDSConnection_new h fd)" "arrived h (UDSConnection_new h fd) = []"
    "inbox (UDSConnection_new h fd) = []" "\<not> IPCInput_isComplete (m_currentInputMessage (UDSConnection_new h fd))"
    "ba_invar (m_dataToBeSent (UDSConnection_new h fd))" "outstanding (UDSConnection_new h fd) = []"
    by (auto simp: UDSConnection_new_def setInputMessage_def setBuffer_def reader_invar_def arrived_def
        reader_isComplete_def IPCInput_clear_def IPCMessage_setHeader_def UNKNOWN_SIZE_def Let_def
        object_bytes_minus_1 IPCInput_isComplete_def outstanding_def)
qed

section \<open>Properties\<close>

text \<open>
  C0. The order of the data is kept: for any sequence of messages written to a Unix domain
  socket and of attempts to send what is pending, and whatever part of the data the kernel
  takes at each attempt, the bytes on the wire followed by the bytes still waiting are those
  of before followed by the frames of the messages in the order they were written. This holds
  as long as the connection is up and the kernel does not answer \<open>EBADF\<close>.
\<close>

theorem uds_write_order:
  assumes "ba_invar (m_dataToBeSent c)" and "SendFails EBADF \<notin> set (sends c)"
  shows "case foldE (\<lambda>op c. case op of Write m \<Rightarrow> uds_put h c m | Flush \<Rightarrow> uds_flush c) ops c of
      Inl _ \<Rightarrow> True
    | Inr c' \<Rightarrow> isConnected c' \<longrightarrow>
        wire c' @ contents (m_dataToBeSent c') = wire c @ contents (m_dataToBeSent c)
          @ concat (map (\<lambda>op. case op of Write m \<Rightarrow> frame h m | Flush \<Rightarrow> []) ops)"
  using uds.run_stream [of h ops c] assms by (auto simp: writer_invar_def outstanding_def split: sum.splits)

theorem uds_write_order_witness:
  "let c = (UDSConnection_new LittleEndian 3)\<lparr>sends := [Accepts 3]\<rparr>;
       c' = projr (foldE (\<lambda>op c. case op of Write m \<Rightarrow> uds_put LittleEndian c m | Flush \<Rightarrow> uds_flush c)
              [Write IPCMessage_new] c)
   in isConnected c' \<and> wire c' @ contents (m_dataToBeSent c') = frame LittleEndian IPCMessage_new"
proof -
  let ?c = "(UDSConnection_new LittleEndian 3)\<lparr>sends := [Accepts 3]\<rparr>"
  have c: "isConnected ?c" "m_dataToBeSent ?c = ByteArray_new" "wire ?c = []"
    by (simp_all add: UDSConnection_new_def setInputMessage_def isConnected_def UNINITIALIZED_FILE_DESCRIPTOR_def)
  have "\<not> isCongested ?c" using c(2) by (simp add: isCongested_def ba_size_contents)
  then obtain c' where "foldE (\<lambda>op c. case op of Write m \<Rightarrow> uds_put LittleEndian c m | Flush \<Rightarrow> uds_flush c)
      [Write IPCMessage_new] ?c = Inr c'" "isConnected c'"
    using c(1) writeBytesNonBlocking_accepts [OF c(1), of 3 "[]"]
    by (auto simp: uds_put_def UDS_writeNonBlocking_def bindE_def Let_def isConnected_def enqueueData_def
        increaseWrittenBytesCounter_def)
  with uds_write_order [of ?c LittleEndian "[Write IPCMessage_new]"] c show ?thesis
    by (simp add: Let_def del: foldE.simps)
qed

text \<open>
  C5. Messages are reassembled whatever the pieces they arrive in: of a stream of frames, of
  which some bytes have arrived in any number of batches and are read in pieces of any size
  with any failures in between, the receive loop hands over the messages of the first frames,
  unchanged, in order and each once. When every byte of the stream has arrived and been read,
  it has handed over all of them.
\<close>

theorem uds_reassembly:
  assumes "concat (map fst batches) @ later = concat (map (frame_bytes h) ps)"
    and "\<forall>p \<in> set ps. length p < 2 ^ 64"
  shows "let (ms, c) = receive_all h (UDSConnection_new h fd) batches
         in \<exists>rest. ps = map (\<lambda>m. contents (m_payload m)) ms @ rest
              \<and> (later = [] \<and> inbox c = [] \<longrightarrow> rest = [])"
proof -
  obtain ms c where r: "receive_all h (UDSConnection_new h fd) batches = (ms, c)" by fastforce
  obtain rest where s: "ps = map (\<lambda>m. contents (m_payload m)) ms @ rest" "reader_invar h c"
    "arrived h c @ inbox c @ later = concat (map (frame_bytes h) rest)"
    "\<not> IPCInput_isComplete (m_currentInputMessage c)"
    using receive_all_frames [OF r UDSConnection_new_fresh(1,4), of later ps] assms
    by (auto simp: UDSConnection_new_fresh)
  have "rest = []" if "later = []" "inbox c = []"
    using arrived_incomplete [OF s(2,4)] s(1,3) assms(2) that by auto
  with s(1) r show ?thesis by auto
qed

theorem uds_reassembly_witness:
  "let (ms, c) = receive_all LittleEndian (UDSConnection_new LittleEndian 3)
         [(take 5 (frame_bytes LittleEndian [1, 2, 3, 4]), [Delivers 2, Delivers 7]),
          (drop 5 (frame_bytes LittleEndian [1, 2, 3, 4]), [RecvFails EAGAIN, Delivers 3, Delivers 9])]
   in \<exists>rest. [[1, 2, 3, 4]] = map (\<lambda>m. contents (m_payload m)) ms @ rest \<and> (inbox c = [] \<longrightarrow> rest = [])"
  using uds_reassembly [where h = LittleEndian and fd = 3 and later = "[]" and ps = "[[1, 2, 3, 4]]"
      and batches = "[(take 5 (frame_bytes LittleEndian [1, 2, 3, 4]), [Delivers 2, Delivers 7]),
          (drop 5 (frame_bytes LittleEndian [1, 2, 3, 4]), [RecvFails EAGAIN, Delivers 3, Delivers 9])]"]
  by simp

end
