(* ===== verification/Dispatcher_Core.thy ===== *)
theory Dispatcher_Core
  imports Service_Discovery SomeIP_Messages
begin

text \<open>
  The dispatcher: \<open>Dispatcher\<close>, \<open>Notification\<close> and \<open>Service\<close> of \<open>lib/Dispatcher.h\<close> and
  \<open>lib/Dispatcher.cpp\<close>, \<open>Client\<close> of \<open>lib/Client.h\<close> and \<open>lib/Client.cpp\<close>, and the services
  started on demand, \<open>WellKnownService\<close> of \<open>daemon/Activation.h\<close> and
  \<open>daemon/Activation.cpp\<close>, which override two functions of \<open>Service\<close>.

  Objects are named by numbers, and their fields are kept in the state, so that the vectors
  of pointers of the code are lists of numbers that share objects. A client that has been
  deleted is not \<open>allocated\<close>; calling it is \<open>Inl UseAfterFree\<close>. The functions the code
  leaves to subclasses of \<open>Client\<close> and to listeners are recorded in \<open>effects\<close>, in the order
  they are called. The dispatcher handles messages as the \<open>Message\<close> their bytes stand for.
\<close>

section \<open>Objects\<close>

datatype DispatcherReturnCode = D_OK | D_DUPLICATE | D_ERROR

datatype ProcessState = STOPPED | STARTING | RUNNING | START_FAILED

record Client =
  m_id :: ClientIdentifier
  m_registered :: bool
  m_registeredServices :: "nat list"
  m_subscribedNotifications :: "nat list"
  m_pingSender :: PingSender

text \<open>A service, with the fields of a well known one, which a plain service does not use.\<close>

record Service =
  m_serviceIDs' :: ServiceIDs
  m_client :: "nat option"
  m_isLocal :: bool
  isWellKnown :: bool
  m_state :: ProcessState
  m_pendingMessages :: "Message list"

record Notification =
  m_subscribedClients :: "nat list"
  m_messageIDs :: MemberIDs
  m_providerService :: "nat option"

text \<open>The listeners for service registrations the daemon has.\<close>

datatype Listener = TCPManagerListener | ServiceAnnouncerListener | LocalClientListener nat

datatype Effect =
    SendMessage nat Message
  | SendOutputMessage nat Message
  | SendIPCMessage nat Message
  | OnNotificationSubscribed nat nat MemberID
  | OnServiceRegistered Listener nat
  | OnServiceUnregistered Listener nat
  | WriteIPC nat IPCMessage
  | InitClient nat
  | ActivateIdle
  | DeleteClient nat

text \<open>
  \<open>canSpawn\<close> and \<open>canChdir\<close> stand for the answers of the system when a well known service
  is started; \<open>nextService\<close> and \<open>nextNotification\<close> number the objects to come.
\<close>

record Dispatcher =
  clients :: "nat \<Rightarrow> Client"
  allocated :: "nat \<Rightarrow> bool"
  services :: "nat \<Rightarrow> Service"
  nextService :: nat
  notifications :: "nat \<Rightarrow> Notification"
  nextNotification :: nat
  m_notifications :: "nat list"
  m_services :: "nat list"
  m_clients :: "nat option list"
  m_disconnectedClients :: "nat list"
  m_serviceRegistrationListeners :: "Listener list"
  m_messageCounter :: int
  m_nextAvailableClientID :: ClientIdentifier
  canSpawn :: "nat \<Rightarrow> bool"
  canChdir :: "nat \<Rightarrow> bool"
  effects :: "Effect list"

definition updClient :: "nat \<Rightarrow> (Client \<Rightarrow> Client) \<Rightarrow> Dispatcher \<Rightarrow> Dispatcher" where
  "updClient c f d = d\<lparr>clients := (clients d)(c := f (clients d c))\<rparr>"

definition updService :: "nat \<Rightarrow> (Service \<Rightarrow> Service) \<Rightarrow> Dispatcher \<Rightarrow> Dispatcher" where
  "updService s f d = d\<lparr>services := (services d)(s := f (services d s))\<rparr>"

definition updNotification :: "nat \<Rightarrow> (Notification \<Rightarrow> Notification) \<Rightarrow> Dispatcher \<Rightarrow> Dispatcher" where
  "updNotification n f d = d\<lparr>notifications := (notifications d)(n := f (notifications d n))\<rparr>"

text \<open>A call of a virtual function of a client.\<close>

definition callClient :: "nat \<Rightarrow> Effect \<Rightarrow> Dispatcher \<Rightarrow> Dispatcher result" where
  "callClient c e d = (if allocated d c then Inr (d\<lparr>effects := effects d @ [e]\<rparr>) else Inl UseAfterFree)"

definition call :: "Effect \<Rightarrow> Dispatcher \<Rightarrow> Dispatcher" where
  "call e d = d\<lparr>effects := effects d @ [e]\<rparr>"

section \<open>Services\<close>

definition getServiceIDs :: "Dispatcher \<Rightarrow> nat \<Rightarrow> ServiceIDs" where
  "getServiceIDs d s = m_serviceIDs' (services d s)"

definition isDuplicate :: "Dispatcher \<Rightarrow> nat \<Rightarrow> ServiceIDs \<Rightarrow> bool" where
  "isDuplicate d s ids = ServiceIDs_eq (getServiceIDs d s) ids"

definition matchesRequest :: "Dispatcher \<Rightarrow> nat \<Rightarrow> Message \<Rightarrow> bool" where
  "matchesRequest d s msg =
     (header_getServiceID msg = serviceID (getServiceIDs d s) \<and> m_instanceID msg = instanceID (getServiceIDs d s))"

definition Service_new :: "ServiceIDs \<Rightarrow> bool \<Rightarrow> Service" where
  "Service_new ids isLocal = \<lparr>m_serviceIDs' = ids, m_client = None, m_isLocal = isLocal,
     isWellKnown = False, m_state = STOPPED, m_pendingMessages = []\<rparr>"

definition WellKnownService_new :: "ServiceIDs \<Rightarrow> Service" where
  "WellKnownService_new ids = \<lparr>m_serviceIDs' = ids, m_client = None, m_isLocal = True,
     isWellKnown = True, m_state = STOPPED, m_pendingMessages = []\<rparr>"

definition newService :: "Service \<Rightarrow> Dispatcher \<Rightarrow> nat \<times> Dispatcher" where
  "newService sv d = (nextService d, d\<lparr>services := (services d)(nextService d := sv), nextService := nextService d + 1\<rparr>)"

definition Service_setClient :: "nat \<Rightarrow> nat \<Rightarrow> Dispatcher \<Rightarrow> DispatcherReturnCode \<times> Dispatcher" where
  "Service_setClient s c d =
     (if m_client (services d s) = None then (D_OK, updService s (\<lambda>x. x\<lparr>m_client := Some c\<rparr>) d)
      else (D_ERROR, d))"

definition WellKnownService_setClient :: "nat \<Rightarrow> nat \<Rightarrow> Dispatcher \<Rightarrow> (DispatcherReturnCode \<times> Dispatcher) result" where
  "WellKnownService_setClient s c d =
     (let (v, d) = Service_setClient s c d
      in if v = D_OK
         then bindE (foldE (\<lambda>msg. callClient c (SendIPCMessage c msg)) (m_pendingMessages (services d s)) d) (\<lambda>d.
                Inr (v, updService s (\<lambda>x. x\<lparr>m_pendingMessages := []\<rparr>) d))
         else Inr (v, d))"

definition setClient :: "nat \<Rightarrow> nat \<Rightarrow> Dispatcher \<Rightarrow> (DispatcherReturnCode \<times> Dispatcher) result" where
  "setClient s c d =
     (if isWellKnown (services d s) then WellKnownService_setClient s c d else Inr (Service_setClient s c d))"

definition Service_sendMessage :: "nat \<Rightarrow> Message \<Rightarrow> Dispatcher \<Rightarrow> Dispatcher result" where
  "Service_sendMessage s msg d =
     (case m_client (services d s) of
        None \<Rightarrow> Inl NullDereference
      | Some c \<Rightarrow> callClient c (SendMessage c msg) d)"

text \<open>Without systemd, a service is started by its command line.\<close>

definition activateService :: "nat \<Rightarrow> Dispatcher \<Rightarrow> (SomeIPReturnCode \<times> Dispatcher) result" where
  "activateService s d =
     bindE (if m_state (services d s) \<noteq> STARTING
            then if \<not> canChdir d s then Inl ExceptionThrown
                 else if canSpawn d s then Inr (updService s (\<lambda>x. x\<lparr>m_state := STARTING\<rparr>) d)
                 else Inr (updService s (\<lambda>x. x\<lparr>m_state := START_FAILED\<rparr>) d)
            else Inr d) (\<lambda>d.
       Inr (if m_state (services d s) \<noteq> START_FAILED then RC_OK else RC_ERROR, d))"

definition getClientFromId :: "ClientIdentifier \<Rightarrow> Dispatcher \<Rightarrow> nat option" where
  "getClientFromId i d = (if length (m_clients d) > unat i then m_clients d ! unat i else None)"

definition WellKnownService_sendMessage :: "nat \<Rightarrow> Message \<Rightarrow> Dispatcher \<Rightarrow> Dispatcher result" where
  "WellKnownService_sendMessage s msg d =
     (case m_client (services d s) of
        None \<Rightarrow> bindE (activateService s d) (\<lambda>(code, d).
          if code = RC_OK
          then Inr (updService s (\<lambda>x. x\<lparr>m_pendingMessages := m_pendingMessages x @ [msg]\<rparr>) d)
          else let responseMessage = setMessageType (methodReturn msg) MT_ERROR
               in case getClientFromId (m_clientIdentifier msg) d of
                    None \<Rightarrow> Inl NullDereference
                  | Some c \<Rightarrow> callClient c (SendOutputMessage c responseMessage) d)
      | Some c \<Rightarrow> callClient c (SendMessage c msg) d)"

definition sendMessage :: "nat \<Rightarrow> Message \<Rightarrow> Dispatcher \<Rightarrow> Dispatcher result" where
  "sendMessage s msg d =
     (if isWellKnown (services d s) then WellKnownService_sendMessage s msg d else Service_sendMessage s msg d)"

definition Service_onNotificationSubscribed :: "nat \<Rightarrow> MemberID \<Rightarrow> Dispatcher \<Rightarrow> Dispatcher result" where
  "Service_onNotificationSubscribed s member d =
     (case m_client (services d s) of
        None \<Rightarrow> Inr d
      | Some c \<Rightarrow> callClient c (OnNotificationSubscribed c s member) d)"

fun findService :: "Dispatcher \<Rightarrow> ServiceIDs \<Rightarrow> nat list \<Rightarrow> nat option" where
  "findService d ids [] = None"
| "findService d ids (s # ss) = (if ServiceIDs_eq (getServiceIDs d s) ids then Some s else findService d ids ss)"

definition getService :: "ServiceIDs \<Rightarrow> Dispatcher \<Rightarrow> nat option" where
  "getService ids d = findService d ids (m_services d)"

section \<open>Notifications\<close>

definition Notification_setProviderService :: "nat \<Rightarrow> nat option \<Rightarrow> Dispatcher \<Rightarrow> Dispatcher result" where
  "Notification_setProviderService n s d =
     (let d = updNotification n (\<lambda>x. x\<lparr>m_providerService := s\<rparr>) d
      in case s of
           None \<Rightarrow> Inr d
         | Some s \<Rightarrow> Service_onNotificationSubscribed s (m_memberID (m_messageIDs (notifications d n))) d)"

definition Notification_init :: "nat \<Rightarrow> Dispatcher \<Rightarrow> Dispatcher result" where
  "Notification_init n d =
     (case getService (m_serviceIDs (m_messageIDs (notifications d n))) d of
        None \<Rightarrow> Inr d
      | Some s \<Rightarrow> Notification_setProviderService n (Some s) d)"

definition Notification_new :: "MemberIDs \<Rightarrow> Dispatcher \<Rightarrow> (nat \<times> Dispatcher) result" where
  "Notification_new messageID d =
     (let n = nextNotification d;
          d = d\<lparr>notifications := (notifications d)(n :=
                 \<lparr>m_subscribedClients = [], m_messageIDs = messageID, m_providerService = None\<rparr>),
                nextNotification := n + 1\<rparr>
      in bindE (Notification_init n d) (\<lambda>d. Inr (n, d)))"

definition Notification_subscribe :: "nat \<Rightarrow> nat \<Rightarrow> Dispatcher \<Rightarrow> Dispatcher result" where
  "Notification_subscribe n c d =
     (let d = updNotification n (\<lambda>x. x\<lparr>m_subscribedClients := m_subscribedClients x @ [c]\<rparr>) d
      in case m_providerService (notifications d n) of
           None \<Rightarrow> Inr d
         | Some s \<Rightarrow> Service_onNotificationSubscribed s (m_memberID (m_messageIDs (notifications d n))) d)"

definition Notification_unsubscribe :: "nat \<Rightarrow> nat \<Rightarrow> Dispatcher \<Rightarrow> Dispatcher" where
  "Notification_unsubscribe n c d =
     updNotification n (\<lambda>x. x\<lparr>m_subscribedClients := removeFromVector (m_subscribedClients x) c\<rparr>) d"

definition sendMessageToSubscribedClients :: "nat \<Rightarrow> Message \<Rightarrow> Dispatcher \<Rightarrow> Dispatcher result" where
  "sendMessageToSubscribedClients n msg d =
     foldE (\<lambda>c. callClient c (SendMessage c msg)) (m_subscribedClients (notifications d n)) d"

definition matchesServiceID :: "Dispatcher \<Rightarrow> nat \<Rightarrow> ServiceIDs \<Rightarrow> bool" where
  "matchesServiceID d n ids = ServiceIDs_eq ids (m_serviceIDs (m_messageIDs (notifications d n)))"

section \<open>The dispatcher\<close>

fun findNotification :: "Dispatcher \<Rightarrow> MemberIDs \<Rightarrow> nat list \<Rightarrow> nat option" where
  "findNotification d messageID [] = None"
| "findNotification d messageID (n # ns) =
     (if MemberIDs_eq (m_messageIDs (notifications d n)) messageID then Some n else findNotification d messageID ns)"

definition getOrCreateNotification :: "MemberIDs \<Rightarrow> Dispatcher \<Rightarrow> (nat \<times> Dispatcher) result" where
  "getOrCreateNotification messageID d =
     (case findNotification d messageID (m_notifications d) of
        Some n \<Rightarrow> Inr (n, d)
      | None \<Rightarrow> bindE (Notification_new messageID d) (\<lambda>(n, d).
          Inr (n, d\<lparr>m_notifications := m_notifications d @ [n]\<rparr>)))"

definition subscribeClientForNotifications :: "nat \<Rightarrow> MemberIDs \<Rightarrow> Dispatcher \<Rightarrow> (nat \<times> Dispatcher) result" where
  "subscribeClientForNotifications c messageID d =
     bindE (getOrCreateNotification messageID d) (\<lambda>(n, d).
       bindE (Notification_subscribe n c d) (\<lambda>d. Inr (n, d)))"

definition addServiceRegistrationListener :: "Listener \<Rightarrow> Dispatcher \<Rightarrow> Dispatcher" where
  "addServiceRegistrationListener l d =
     d\<lparr>m_serviceRegistrationListeners := m_serviceRegistrationListeners d @ [l]\<rparr>"

definition removeServiceRegistrationListener :: "Listener \<Rightarrow> Dispatcher \<Rightarrow> Dispatcher" where
  "removeServiceRegistrationListener l d =
     d\<lparr>m_serviceRegistrationListeners := removeFromVector (m_serviceRegistrationListeners d) l\<rparr>"

definition registerService :: "nat \<Rightarrow> Dispatcher \<Rightarrow> (DispatcherReturnCode \<times> Dispatcher) result" where
  "registerService s d =
     (if list_ex (\<lambda>e. isDuplicate d e (getServiceIDs d s)) (m_services d) then Inr (D_DUPLICATE, d)
      else let d = d\<lparr>m_services := m_services d @ [s]\<rparr>;
               d = fold (\<lambda>l. call (OnServiceRegistered l s)) (m_serviceRegistrationListeners d) d
           in bindE (foldE (\<lambda>n d. if matchesServiceID d n (getServiceIDs d s)
                                  then Notification_setProviderService n (Some s) d else Inr d)
                       (m_notifications d) d) (\<lambda>d. Inr (D_OK, d)))"

definition tryRegisterService :: "ServiceIDs \<Rightarrow> nat \<Rightarrow> bool \<Rightarrow> Dispatcher \<Rightarrow> (nat option \<times> Dispatcher) result" where
  "tryRegisterService ids c isLocal d =
     (case getService ids d of
        Some s \<Rightarrow>
          if isLocal
          then bindE (setClient s c d) (\<lambda>(code, d).
                 if code = D_OK then Inr (Some s, d)
                 else if m_client (services d s) \<noteq> Some c then Inr (None, d)
                 else Inr (Some s, d))
          else Inr (None, d)
      | None \<Rightarrow>
          let (s, d) = newService (Service_new ids isLocal) d
          in bindE (setClient s c d) (\<lambda>(_, d).
             bindE (registerService s d) (\<lambda>(code, d).
               if code \<noteq> D_OK then Inr (None, d)
               else if m_client (services d s) \<noteq> Some c then Inr (None, d)
               else Inr (Some s, d))))"

definition unregisterService :: "nat \<Rightarrow> Dispatcher \<Rightarrow> Dispatcher result" where
  "unregisterService s d =
     (let d = d\<lparr>m_services := removeFromVector (m_services d) s\<rparr>;
          d = fold (\<lambda>l. call (OnServiceUnregistered l s)) (rev (m_serviceRegistrationListeners d)) d
      in foldE (\<lambda>n d. if m_providerService (notifications d n) = Some s
                      then Notification_setProviderService n None d else Inr d) (m_notifications d) d)"

definition onNewClient :: "nat \<Rightarrow> Dispatcher \<Rightarrow> Dispatcher result" where
  "onNewClient c d =
     (let i = m_nextAvailableClientID d;
          d = updClient c (\<lambda>x. x\<lparr>m_id := i\<rparr>) (d\<lparr>m_nextAvailableClientID := i + 1\<rparr>)
      in if unat (m_id (clients d c)) \<noteq> length (m_clients d) then Inl AssertFailed
         else callClient c (InitClient c) (d\<lparr>m_clients := m_clients d @ [Some c]\<rparr>))"

definition onClientDisconnected :: "nat \<Rightarrow> Dispatcher \<Rightarrow> Dispatcher result" where
  "onClientDisconnected c d =
     (let i = unat (m_id (clients d c))
      in if i \<ge> length (m_clients d) then Inl OutOfBounds
         else if m_clients d ! i = None then Inl AssertFailed
         else Inr (call ActivateIdle (d\<lparr>m_clients := (m_clients d)[i := None],
                     m_disconnectedClients := m_disconnectedClients d @ [c]\<rparr>)))"

definition cleanDisconnectedClients :: "Dispatcher \<Rightarrow> Dispatcher" where
  "cleanDisconnectedClients d =
     (let d = fold (\<lambda>c d. call (DeleteClient c) (d\<lparr>allocated := (allocated d)(c := False)\<rparr>)) (m_disconnectedClients d) d
      in d\<lparr>m_disconnectedClients := []\<rparr>)"

definition dispatchMessage :: "Message \<Rightarrow> nat \<Rightarrow> Dispatcher \<Rightarrow> Dispatcher result" where
  "dispatchMessage msg c d =
     (let d = d\<lparr>m_messageCounter := m_messageCounter d + 1\<rparr>
      in if isNotification msg
         then if m_messageID msg = SERVICE_DISCOVERY_MEMBER_ID then Inl AssertFailed
              else bindE (getOrCreateNotification
                     (MemberIDs_new (header_getServiceID msg) (m_instanceID msg) (header_getMemberID msg)) d) (\<lambda>(n, d).
                     sendMessageToSubscribedClients n msg d)
         else if isReply msg
         then case getClientFromId (m_clientIdentifier msg) d of
                None \<Rightarrow> Inr d
              | Some client \<Rightarrow> callClient client (SendMessage client msg) d
         else let msg = (if isRequestWithReturn msg then msg\<lparr>m_clientIdentifier := m_id (clients d c)\<rparr> else msg)
              in bindE (foldE (\<lambda>s (bServiceFound, d).
                          if matchesRequest d s msg
                          then bindE (sendMessage s msg d) (\<lambda>d. Inr (True, d))
                          else Inr (bServiceFound, d)) (m_services d) (False, d)) (\<lambda>(bServiceFound, d).
                   if \<not> bServiceFound
                   then callClient c (SendOutputMessage c
                          ((setMessageType (methodReturn msg) MT_ERROR)\<lparr>m_clientIdentifier := -1\<rparr>)) d
                   else Inr d))"

text \<open>
  The ping timer: \<open>connected\<close> is what \<open>isConnected\<close> of the clients says. Clients that are
  connected send the ping message, which is empty without \<open>ENABLE_PING\<close>.
\<close>

definition sendPingMessages :: "(nat \<Rightarrow> bool) \<Rightarrow> Dispatcher \<Rightarrow> Dispatcher" where
  "sendPingMessages connected d =
     fold (\<lambda>client d. case client of
             None \<Rightarrow> d
           | Some c \<Rightarrow> if connected c
                      then updClient c (\<lambda>x. x\<lparr>m_pingSender := sendPingMessage (m_pingSender x)\<rparr>) d else d)
       (m_clients d) d"

section \<open>Clients\<close>

text \<open>A new client, and the dispatcher a daemon starts with.\<close>

definition Client_new :: "PingSender \<Rightarrow> Client" where
  "Client_new p = \<lparr>m_id = UNKNOWN_CLIENT, m_registered = False, m_registeredServices = [],
     m_subscribedNotifications = [], m_pingSender = p\<rparr>"

definition newClient :: "nat \<Rightarrow> PingSender \<Rightarrow> Dispatcher \<Rightarrow> Dispatcher" where
  "newClient c p d = d\<lparr>clients := (clients d)(c := Client_new p), allocated := (allocated d)(c := True)\<rparr>"

definition Dispatcher_new :: "PingSender \<Rightarrow> (nat \<Rightarrow> bool) \<Rightarrow> (nat \<Rightarrow> bool) \<Rightarrow> Dispatcher" where
  "Dispatcher_new p spawn chdir =
     \<lparr>clients = (\<lambda>_. Client_new p), allocated = (\<lambda>_. False),
      services = (\<lambda>_. Service_new (ServiceIDs_new 0 0) False), nextService = 0,
      notifications = (\<lambda>_. \<lparr>m_subscribedClients = [], m_messageIDs = MemberIDs_new 0 0 0, m_providerService = None\<rparr>),
      nextNotification = 0, m_notifications = [], m_services = [], m_clients = [],
      m_disconnectedClients = [], m_serviceRegistrationListeners = [], m_messageCounter = 0,
      m_nextAvailableClientID = 0, canSpawn = spawn, canChdir = chdir, effects = []\<rparr>"

definition unregisterClient :: "nat \<Rightarrow> Dispatcher \<Rightarrow> Dispatcher result" where
  "unregisterClient c d =
     (if m_registered (clients d c)
      then let d = fold (\<lambda>n. Notification_unsubscribe n c) (m_subscribedNotifications (clients d c)) d
           in bindE (foldE unregisterService (m_registeredServices (clients d c)) d) (\<lambda>d.
              bindE (onClientDisconnected c d) (\<lambda>d.
              Inr (updClient c (\<lambda>x. x\<lparr>m_registered := False\<rparr>) d)))
      else Inr d)"

definition registerClient :: "nat \<Rightarrow> Dispatcher \<Rightarrow> Dispatcher result" where
  "registerClient c d =
     (if \<not> m_registered (clients d c)
      then bindE (onNewClient c d) (\<lambda>d. Inr (updClient c (\<lambda>x. x\<lparr>m_registered := True\<rparr>) d))
      else Inr d)"

definition Client_registerService :: "nat \<Rightarrow> ServiceIDs \<Rightarrow> bool \<Rightarrow> Dispatcher \<Rightarrow> (nat option \<times> Dispatcher) result" where
  "Client_registerService c ids isLocal d =
     bindE (tryRegisterService ids c isLocal d) (\<lambda>(service, d).
       Inr (service, case service of
              Some s \<Rightarrow> updClient c (\<lambda>x. x\<lparr>m_registeredServices := m_registeredServices x @ [s]\<rparr>) d
            | None \<Rightarrow> d))"

definition Client_unregisterService :: "nat \<Rightarrow> ServiceIDs \<Rightarrow> Dispatcher \<Rightarrow> Dispatcher result" where
  "Client_unregisterService c ids d =
     (case findService d ids (m_registeredServices (clients d c)) of
        None \<Rightarrow> Inr d
      | Some s \<Rightarrow> bindE (unregisterService s d) (\<lambda>d.
          Inr (updClient c (\<lambda>x. x\<lparr>m_registeredServices := removeFromVector (m_registeredServices x) s\<rparr>) d)))"

definition processIncomingMessage :: "timeval \<Rightarrow> nat \<Rightarrow> Message \<Rightarrow> Dispatcher \<Rightarrow> Dispatcher result" where
  "processIncomingMessage currentTime c msg d =
     (case SomeIPEndPoint_processMessage DISPATCHER_SERVICE_ID msg of
        (_, Some pong) \<Rightarrow> callClient c (SendOutputMessage c pong) d
      | (_, None) \<Rightarrow>
          (case PingSender_processMessage currentTime (m_pingSender (clients d c)) msg of
             (NotProcessed_OK, p) \<Rightarrow> dispatchMessage msg c d
           | (_, p) \<Rightarrow> Inr (updClient c (\<lambda>x. x\<lparr>m_pingSender := p\<rparr>) d)))"

definition subscribeToNotification :: "nat \<Rightarrow> MemberIDs \<Rightarrow> Dispatcher \<Rightarrow> Dispatcher result" where
  "subscribeToNotification c messageID d =
     bindE (subscribeClientForNotifications c messageID d) (\<lambda>(subscription, d).
       Inr (updClient c (\<lambda>x. x\<lparr>m_subscribedNotifications := m_subscribedNotifications x @ [subscription]\<rparr>) d))"

end
