(* ===== verification/Dispatcher_Laws.thy ===== *)
theory Dispatcher_Laws
  imports Dispatcher_Core
begin

text \<open>
  What the operations of the dispatcher compute, as one equation per operation, the
  consistency of its tables, and that every operation keeps it. The equations hold where the
  clients an operation calls have not been deleted, which the consistency of the tables
  guarantees: so they also show that the operations do not fault.
\<close>

section \<open>Recorded calls\<close>

definition record_calls :: "Effect list \<Rightarrow> Dispatcher \<Rightarrow> Dispatcher" where
  "record_calls es d = d\<lparr>effects := effects d @ es\<rparr>"

lemma record_calls_fields [simp]:
  "clients (record_calls es d) = clients d" "allocated (record_calls es d) = allocated d"
  "services (record_calls es d) = services d" "nextService (record_calls es d) = nextService d"
  "notifications (record_calls es d) = notifications d" "nextNotification (record_calls es d) = nextNotification d"
  "m_notifications (record_calls es d) = m_notifications d" "m_services (record_calls es d) = m_services d"
  "m_clients (record_calls es d) = m_clients d" "m_disconnectedClients (record_calls es d) = m_disconnectedClients d"
  "m_serviceRegistrationListeners (record_calls es d) = m_serviceRegistrationListeners d"
  "m_nextAvailableClientID (record_calls es d) = m_nextAvailableClientID d"
  "canSpawn (record_calls es d) = canSpawn d" "canChdir (record_calls es d) = canChdir d"
  "effects (record_calls es d) = effects d @ es"
  by (simp_all add: record_calls_def)

lemma record_calls_Nil [simp]: "record_calls [] d = d"
  by (simp add: record_calls_def)

lemma record_calls_append [simp]: "record_calls es (record_calls es' d) = record_calls (es' @ es) d"
  by (simp add: record_calls_def)

lemma call_record: "call e = record_calls [e]"
  by (rule ext) (simp add: call_def record_calls_def)

lemma fold_call: "fold (\<lambda>x. call (e x)) xs d = record_calls (map e xs) d"
  by (induction xs arbitrary: d) (simp_all add: call_record)

lemma callClient_allocated: "allocated d c \<Longrightarrow> callClient c e d = Inr (record_calls [e] d)"
  by (simp add: callClient_def record_calls_def)

lemma foldE_callClient:
  assumes "\<forall>c \<in> set cs. allocated d c"
  shows "foldE (\<lambda>c. callClient c (e c)) cs d = Inr (record_calls (map e cs) d)"
  using assms by (induction cs arbitrary: d) (simp_all add: callClient_allocated)

lemma foldE_callClient_same:
  assumes "allocated d c"
  shows "foldE (\<lambda>x. callClient c (e x)) xs d = Inr (record_calls (map e xs) d)"
  using assms by (induction xs arbitrary: d) (simp_all add: callClient_allocated)

lemma getServiceIDs_record [simp]: "getServiceIDs (record_calls es d) = getServiceIDs d"
  by (rule ext) (simp add: getServiceIDs_def)

section \<open>Lookups\<close>

lemma findService_find: "findService d ids ss = find (\<lambda>s. getServiceIDs d s = ids) ss"
  by (induction ss) simp_all

lemma findNotification_find:
  "findNotification d mid ns = find (\<lambda>n. m_messageIDs (notifications d n) = mid) ns"
  by (induction ns) simp_all

lemma find_distinct_iff:
  assumes "distinct (map f xs)"
  shows "find (\<lambda>x. f x = k) xs = Some x \<longleftrightarrow> x \<in> set xs \<and> f x = k"
  using assms by (induction xs) auto

lemma find_cong_None: "find P xs = None \<longleftrightarrow> (\<forall>x \<in> set xs. \<not> P x)"
  by (induction xs) auto

lemma find_Some_member: "find P xs = Some x \<Longrightarrow> x \<in> set xs \<and> P x"
  by (induction xs) (auto split: if_splits)

lemma find_append: "find P (xs @ ys) = (case find P xs of None \<Rightarrow> find P ys | Some x \<Rightarrow> Some x)"
  by (induction xs) auto

lemma find_filter_distinct:
  assumes "distinct (map f xs)"
  shows "find (\<lambda>x. f x = k) (filter P xs)
       = (case find (\<lambda>x. f x = k) xs of None \<Rightarrow> None | Some x \<Rightarrow> if P x then Some x else None)"
  using assms distinct_map [of f xs]
  by (auto simp: find_cong_None find_distinct_iff distinct_map_filter dest: inj_onD split: option.splits)

lemma fold_remove1_distinct:
  "distinct xs \<Longrightarrow> fold remove1 ys xs = filter (\<lambda>x. x \<notin> set ys) xs"
proof (induction ys arbitrary: xs)
  case (Cons y ys)
  then have "fold remove1 (y # ys) xs = filter (\<lambda>x. x \<notin> set ys) (filter (\<lambda>x. x \<noteq> y) xs)"
    by (simp add: distinct_remove1_removeAll removeAll_filter_not_eq eq_commute)
  then show ?case by (simp add: conj_commute)
qed simp

lemma remove1_count:
  "(remove1 c ^^ count_list xs c) xs = filter (\<lambda>x. x \<noteq> c) xs"
proof -
  have "(remove1 c ^^ k) (x # xs) = x # (remove1 c ^^ k) xs" if "x \<noteq> c" for k x and xs :: "'a list"
    using that by (induction k) simp_all
  then show ?thesis by (induction xs) (auto simp: funpow_swap1)
qed

section \<open>Services and notifications\<close>

definition service_live :: "Dispatcher \<Rightarrow> nat \<Rightarrow> bool" where
  "service_live d s = (case m_client (services d s) of None \<Rightarrow> True | Some c \<Rightarrow> allocated d c)"

text \<open>The calls that tell the client of a service about a subscription.\<close>

definition subscribed_calls :: "Dispatcher \<Rightarrow> nat \<Rightarrow> MemberID \<Rightarrow> Effect list" where
  "subscribed_calls d s member =
     (case m_client (services d s) of None \<Rightarrow> [] | Some c \<Rightarrow> [OnNotificationSubscribed c s member])"

lemma onNotificationSubscribed_eq:
  "service_live d s \<Longrightarrow>
   Service_onNotificationSubscribed s member d = Inr (record_calls (subscribed_calls d s member) d)"
  by (auto simp: Service_onNotificationSubscribed_def service_live_def subscribed_calls_def callClient_allocated
      split: option.splits)

definition provide :: "nat set \<Rightarrow> nat option \<Rightarrow> Dispatcher \<Rightarrow> Dispatcher" where
  "provide N s d = d\<lparr>notifications := \<lambda>n. if n \<in> N then (notifications d n)\<lparr>m_providerService := s\<rparr> else notifications d n\<rparr>"

lemma provide_fields [simp]:
  "clients (provide N s d) = clients d" "allocated (provide N s d) = allocated d"
  "services (provide N s d) = services d" "nextService (provide N s d) = nextService d"
  "nextNotification (provide N s d) = nextNotification d"
  "m_notifications (provide N s d) = m_notifications d" "m_services (provide N s d) = m_services d"
  "m_clients (provide N s d) = m_clients d" "m_disconnectedClients (provide N s d) = m_disconnectedClients d"
  "m_serviceRegistrationListeners (provide N s d) = m_serviceRegistrationListeners d"
  "m_nextAvailableClientID (provide N s d) = m_nextAvailableClientID d"
  "canSpawn (provide N s d) = canSpawn d" "canChdir (provide N s d) = canChdir d"
  "effects (provide N s d) = effects d"
  "m_subscribedClients (notifications (provide N s d) n) = m_subscribedClients (notifications d n)"
  "m_messageIDs (notifications (provide N s d) n) = m_messageIDs (notifications d n)"
  "m_providerService (notifications (provide N s d) n)
     = (if n \<in> N then s else m_providerService (notifications d n))"
  by (simp_all add: provide_def)

lemma provide_record [simp]: "provide N s (record_calls es d) = record_calls es (provide N s d)"
  by (rule Dispatcher.equality) (auto simp: provide_def record_calls_def)

lemma provide_provide [simp]: "provide N s (provide N' s d) = provide (N \<union> N') s d"
  by (rule Dispatcher.equality) (auto simp: provide_def)

lemma provide_empty [simp]: "provide {} s d = d"
  by (rule Dispatcher.equality) (auto simp: provide_def)

lemma subscribed_calls_cong [simp]:
  "subscribed_calls (provide N p d) s = subscribed_calls d s"
  "subscribed_calls (record_calls es d) s = subscribed_calls d s"
  by (rule ext, simp add: subscribed_calls_def)+

lemma service_live_cong [simp]:
  "service_live (provide N p d) s = service_live d s"
  "service_live (record_calls es d) s = service_live d s"
  by (simp_all add: service_live_def split: option.splits)

lemma setProviderService_Some:
  assumes "service_live d s"
  shows "Notification_setProviderService n (Some s) d
       = Inr (record_calls (subscribed_calls d s (m_memberID (m_messageIDs (notifications d n)))) (provide {n} (Some s) d))"
proof -
  have "updNotification n (\<lambda>x. x\<lparr>m_providerService := Some s\<rparr>) d = provide {n} (Some s) d"
    by (rule Dispatcher.equality) (auto simp: updNotification_def provide_def)
  with assms show ?thesis
    by (simp add: Notification_setProviderService_def onNotificationSubscribed_eq)
qed

lemma setProviderService_None: "Notification_setProviderService n None d = Inr (provide {n} None d)"
proof -
  have "updNotification n (\<lambda>x. x\<lparr>m_providerService := None\<rparr>) d = provide {n} None d"
    by (rule Dispatcher.equality) (auto simp: updNotification_def provide_def)
  then show ?thesis by (simp add: Notification_setProviderService_def)
qed

lemma provider_loop:
  assumes "service_live d s" and "getServiceIDs d s = ids"
  shows "foldE (\<lambda>n d. if matchesServiceID d n (getServiceIDs d s)
                   then Notification_setProviderService n (Some s) d else Inr d) ns d
       = Inr (record_calls (concat (map (\<lambda>n. subscribed_calls d s (m_memberID (m_messageIDs (notifications d n))))
                  (filter (\<lambda>n. m_serviceIDs (m_messageIDs (notifications d n)) = ids) ns)))
                (provide {n \<in> set ns. m_serviceIDs (m_messageIDs (notifications d n)) = ids} (Some s) d))"
  using assms
proof (induction ns arbitrary: d)
  case (Cons n ns)
  let ?M = "\<lambda>n. m_serviceIDs (m_messageIDs (notifications d n)) = ids"
  have ids: "getServiceIDs (provide N p d) s = ids" for N p
    using Cons.prems(2) by (simp add: getServiceIDs_def)
  show ?case
  proof (cases "?M n")
    case True
    then have "insert n {x \<in> set ns. ?M x} = {x \<in> set (n # ns). ?M x}" by auto
    with True show ?thesis
      using Cons.prems Cons.IH [of "record_calls (subscribed_calls d s (m_memberID (m_messageIDs (notifications d n)))) (provide {n} (Some s) d)"]
      by (simp add: matchesServiceID_def setProviderService_Some ids)
  next
    case False
    then have "{x \<in> set (n # ns). ?M x} = {x \<in> set ns. ?M x}" by auto
    with False show ?thesis
      using Cons.prems Cons.IH [of d] by (simp add: matchesServiceID_def eq_commute [of ids])
  qed
qed simp

definition register :: "nat \<Rightarrow> Dispatcher \<Rightarrow> Dispatcher" where
  "register s d =
     (let ns = filter (\<lambda>n. m_serviceIDs (m_messageIDs (notifications d n)) = getServiceIDs d s) (m_notifications d)
      in record_calls
           (map (\<lambda>l. OnServiceRegistered l s) (m_serviceRegistrationListeners d)
            @ concat (map (\<lambda>n. subscribed_calls d s (m_memberID (m_messageIDs (notifications d n)))) ns))
           (provide (set ns) (Some s) (d\<lparr>m_services := m_services d @ [s]\<rparr>)))"

lemma registerService_new:
  assumes "service_live d s" and "\<forall>e \<in> set (m_services d). getServiceIDs d e \<noteq> getServiceIDs d s"
  shows "registerService s d = Inr (D_OK, register s d)"
proof -
  let ?d = "record_calls (map (\<lambda>l. OnServiceRegistered l s) (m_serviceRegistrationListeners d)) (d\<lparr>m_services := m_services d @ [s]\<rparr>)"
  have "\<not> list_ex (\<lambda>e. isDuplicate d e (getServiceIDs d s)) (m_services d)"
    using assms(2) by (simp add: list_ex_iff isDuplicate_def)
  moreover have "service_live ?d s" "getServiceIDs ?d = getServiceIDs d"
    using assms(1) by (simp_all add: service_live_def getServiceIDs_def fun_eq_iff split: option.splits)
  ultimately show ?thesis
    using provider_loop [of ?d s "getServiceIDs d s" "m_notifications d"]
    by (simp add: registerService_def fold_call register_def Let_def subscribed_calls_def)
qed

lemma registerService_duplicate:
  "e \<in> set (m_services d) \<Longrightarrow> getServiceIDs d e = getServiceIDs d s \<Longrightarrow> registerService s d = Inr (D_DUPLICATE, d)"
  by (auto simp: registerService_def list_ex_iff isDuplicate_def)

definition unregister :: "nat \<Rightarrow> Dispatcher \<Rightarrow> Dispatcher" where
  "unregister s d =
     record_calls (map (\<lambda>l. OnServiceUnregistered l s) (rev (m_serviceRegistrationListeners d)))
       (provide {n \<in> set (m_notifications d). m_providerService (notifications d n) = Some s} None
          (d\<lparr>m_services := remove1 s (m_services d)\<rparr>))"

lemma unprovide_loop:
  "foldE (\<lambda>n d. if m_providerService (notifications d n) = Some s
            then Notification_setProviderService n None d else Inr d) ns d
   = Inr (provide {n \<in> set ns. m_providerService (notifications d n) = Some s} None d)"
proof (induction ns arbitrary: d)
  case (Cons n ns)
  let ?P = "\<lambda>n. m_providerService (notifications d n) = Some s"
  have "{x \<in> set ns. (if x \<in> {n} then None else m_providerService (notifications d x)) = Some s} \<union> {n}
      = {x \<in> set (n # ns). ?P x}" if "?P n" using that by auto
  moreover have "{x \<in> set (n # ns). ?P x} = {x \<in> set ns. ?P x}" if "\<not> ?P n" using that by auto
  ultimately show ?case
    using Cons.IH [of d] Cons.IH [of "provide {n} None d"] by (simp add: setProviderService_None)
qed simp

lemma unregisterService_eq: "unregisterService s d = Inr (unregister s d)"
  by (simp add: unregisterService_def removeFromVector_remove1 fold_call unprovide_loop unregister_def)

section \<open>Consistency of the tables\<close>

text \<open>
  Registered services have distinct identifiers; each belongs to a registered client that
  lists it, and only a well known one may have no client yet.
\<close>

definition services_ok :: "Dispatcher \<Rightarrow> bool" where
  "services_ok d =
     (distinct (map (getServiceIDs d) (m_services d))
      \<and> (\<forall>s \<in> set (m_services d). s < nextService d
          \<and> (case m_client (services d s) of
                None \<Rightarrow> isWellKnown (services d s)
              | Some c \<Rightarrow> m_registered (clients d c) \<and> s \<in> set (m_registeredServices (clients d c)))))"

text \<open>What a client lists as its services are services of it, and waiting messages are for no client.\<close>

definition owners_ok :: "Dispatcher \<Rightarrow> bool" where
  "owners_ok d =
     ((\<forall>c. \<forall>s \<in> set (m_registeredServices (clients d c)). s < nextService d \<and> m_client (services d s) = Some c)
      \<and> (\<forall>s. m_client (services d s) \<noteq> None \<longrightarrow> m_pendingMessages (services d s) = []))"

text \<open>There is one notification for a member, and its provider is the registered service of the member.\<close>

definition notifications_ok :: "Dispatcher \<Rightarrow> bool" where
  "notifications_ok d =
     (distinct (map (\<lambda>n. m_messageIDs (notifications d n)) (m_notifications d))
      \<and> (\<forall>n \<in> set (m_notifications d). n < nextNotification d
          \<and> m_providerService (notifications d n) = getService (m_serviceIDs (m_messageIDs (notifications d n))) d))"

text \<open>
  A client is as often among the subscribers of a notification as the notification is among
  its subscriptions, and not at all once it is unregistered.
\<close>

definition subscriptions_ok :: "Dispatcher \<Rightarrow> bool" where
  "subscriptions_ok d =
     ((\<forall>n \<in> set (m_notifications d). \<forall>c. count_list (m_subscribedClients (notifications d n)) c
         = (if m_registered (clients d c) then count_list (m_subscribedNotifications (clients d c)) n else 0))
      \<and> (\<forall>c. m_registered (clients d c) \<longrightarrow> set (m_subscribedNotifications (clients d c)) \<subseteq> set (m_notifications d)))"

text \<open>
  The table of clients is indexed by their identifiers, registered clients exist, and the
  clients waiting to be deleted are not registered any more.
\<close>

definition clients_ok :: "Dispatcher \<Rightarrow> bool" where
  "clients_ok d =
     (length (m_clients d) \<le> 65536 \<and> m_nextAvailableClientID d = of_nat (length (m_clients d))
      \<and> (\<forall>i < length (m_clients d). \<forall>c. m_clients d ! i = Some c \<longrightarrow> m_registered (clients d c) \<and> unat (m_id (clients d c)) = i)
      \<and> (\<forall>c. m_registered (clients d c) \<longrightarrow>
            allocated d c \<and> unat (m_id (clients d c)) < length (m_clients d) \<and> m_clients d ! unat (m_id (clients d c)) = Some c)
      \<and> distinct (m_disconnectedClients d)
      \<and> (\<forall>c \<in> set (m_disconnectedClients d). allocated d c \<and> \<not> m_registered (clients d c)))"

definition dispatcher_ok :: "Dispatcher \<Rightarrow> bool" where
  "dispatcher_ok d = (services_ok d \<and> owners_ok d \<and> notifications_ok d \<and> subscriptions_ok d \<and> clients_ok d)"

lemmas tables_ok = services_ok_def owners_ok_def notifications_ok_def subscriptions_ok_def clients_ok_def

lemma getService_find: "getService ids d = find (\<lambda>s. getServiceIDs d s = ids) (m_services d)"
  by (simp add: getService_def findService_find)

lemma getService_cong:
  "m_services d' = m_services d \<Longrightarrow> getServiceIDs d' = getServiceIDs d \<Longrightarrow> getService ids d' = getService ids d"
  by (simp add: getService_find)

lemma dispatcher_ok_record [simp]: "dispatcher_ok (record_calls es d) = dispatcher_ok d"
  by (simp add: dispatcher_ok_def tables_ok getService_find cong: option.case_cong)

lemma getService_Some_iff:
  "services_ok d \<Longrightarrow> getService ids d = Some s \<longleftrightarrow> s \<in> set (m_services d) \<and> getServiceIDs d s = ids"
  unfolding getService_find services_ok_def by (rule find_distinct_iff) simp

lemma getService_None_iff: "getService ids d = None \<longleftrightarrow> (\<forall>s \<in> set (m_services d). getServiceIDs d s \<noteq> ids)"
  by (simp add: getService_find find_cong_None)

lemma registered_service_live:
  "dispatcher_ok d \<Longrightarrow> s \<in> set (m_services d) \<Longrightarrow> service_live d s"
  by (auto simp: dispatcher_ok_def services_ok_def clients_ok_def service_live_def split: option.splits)

lemma subscriber_registered:
  assumes "dispatcher_ok d" and "n \<in> set (m_notifications d)" and "c \<in> set (m_subscribedClients (notifications d n))"
  shows "m_registered (clients d c)" and "allocated d c"
proof -
  have "count_list (m_subscribedClients (notifications d n)) c \<noteq> 0"
    using assms(3) by (simp add: count_list_0_iff)
  then show "m_registered (clients d c)"
    using assms(1,2) by (auto simp: dispatcher_ok_def subscriptions_ok_def split: if_splits)
  then show "allocated d c" using assms(1) by (simp add: dispatcher_ok_def clients_ok_def)
qed

lemma registered_allocated: "dispatcher_ok d \<Longrightarrow> m_registered (clients d c) \<Longrightarrow> allocated d c"
  by (simp add: dispatcher_ok_def clients_ok_def)

lemma Dispatcher_new_ok: "dispatcher_ok (Dispatcher_new p spawn chdir)"
  by (simp add: dispatcher_ok_def tables_ok Dispatcher_new_def Client_new_def Service_new_def)

section \<open>Registering services\<close>

definition listService :: "nat \<Rightarrow> nat \<Rightarrow> Dispatcher \<Rightarrow> Dispatcher" where
  "listService c s = updClient c (\<lambda>x. x\<lparr>m_registeredServices := m_registeredServices x @ [s]\<rparr>)"

text \<open>A client takes over a well known service, and gets what has been waiting for it.\<close>

definition attach :: "nat \<Rightarrow> nat \<Rightarrow> Dispatcher \<Rightarrow> Dispatcher" where
  "attach s c d = record_calls (map (SendIPCMessage c) (m_pendingMessages (services d s)))
     (updService s (\<lambda>x. x\<lparr>m_client := Some c, m_pendingMessages := []\<rparr>) d)"

text \<open>A client brings a new service.\<close>

definition bring :: "ServiceIDs \<Rightarrow> bool \<Rightarrow> nat \<Rightarrow> Dispatcher \<Rightarrow> Dispatcher" where
  "bring ids isLocal c d = register (nextService d)
     (d\<lparr>services := (services d)(nextService d := (Service_new ids isLocal)\<lparr>m_client := Some c\<rparr>),
        nextService := nextService d + 1\<rparr>)"

lemma setClient_vacant:
  assumes "m_client (services d s) = None" and "allocated d c" and "isWellKnown (services d s)"
  shows "setClient s c d = Inr (D_OK, attach s c d)"
proof -
  have "updService s (\<lambda>x. x\<lparr>m_pendingMessages := []\<rparr>) (record_calls es (updService s (\<lambda>x. x\<lparr>m_client := Some c\<rparr>) d))
      = record_calls es (updService s (\<lambda>x. x\<lparr>m_client := Some c, m_pendingMessages := []\<rparr>) d)" for es
    by (rule Dispatcher.equality) (auto simp: updService_def record_calls_def)
  with assms show ?thesis
    by (simp add: setClient_def WellKnownService_setClient_def Service_setClient_def attach_def
        foldE_callClient_same updService_def)
qed

lemma setClient_taken:
  "m_client (services d s) = Some c' \<Longrightarrow> setClient s c d = Inr (D_ERROR, d)"
  by (simp add: setClient_def WellKnownService_setClient_def Service_setClient_def)

lemma tryRegisterService_known:
  assumes "getService ids d = Some s" and "dispatcher_ok d" and "m_registered (clients d c)"
  shows "tryRegisterService ids c isLocal d = Inr
      (if \<not> isLocal then (None, d)
       else case m_client (services d s) of
              None \<Rightarrow> (Some s, attach s c d)
            | Some c' \<Rightarrow> (if c' = c then Some s else None, d))"
proof -
  have "s \<in> set (m_services d)" using assms(1,2) by (simp add: dispatcher_ok_def getService_Some_iff)
  then have "isWellKnown (services d s)" if "m_client (services d s) = None"
    using that assms(2) by (auto simp: dispatcher_ok_def services_ok_def)
  with assms registered_allocated [OF assms(2,3)] show ?thesis
    by (auto simp: tryRegisterService_def setClient_vacant setClient_taken split: option.splits)
qed

lemma register_services [simp]:
  "services (register s d) = services d" "clients (register s d) = clients d" "allocated (register s d) = allocated d"
  "nextService (register s d) = nextService d" "nextNotification (register s d) = nextNotification d"
  "m_notifications (register s d) = m_notifications d" "m_services (register s d) = m_services d @ [s]"
  "m_clients (register s d) = m_clients d" "m_disconnectedClients (register s d) = m_disconnectedClients d"
  "m_nextAvailableClientID (register s d) = m_nextAvailableClientID d"
  "m_subscribedClients (notifications (register s d) n) = m_subscribedClients (notifications d n)"
  "m_messageIDs (notifications (register s d) n) = m_messageIDs (notifications d n)"
  "m_providerService (notifications (register s d) n)
     = (if n \<in> set (m_notifications d) \<and> m_serviceIDs (m_messageIDs (notifications d n)) = getServiceIDs d s then Some s
        else m_providerService (notifications d n))"
  by (simp_all add: register_def Let_def)

lemma tryRegisterService_new:
  assumes "getService ids d = None" and "dispatcher_ok d" and "m_registered (clients d c)"
  shows "tryRegisterService ids c isLocal d = Inr (Some (nextService d), bring ids isLocal c d)"
proof -
  let ?sv = "(Service_new ids isLocal)\<lparr>m_client := Some c\<rparr>"
  let ?d = "d\<lparr>services := (services d)(nextService d := ?sv), nextService := nextService d + 1\<rparr>"
  have old: "\<forall>s \<in> set (m_services d). s \<noteq> nextService d"
    using assms(2) by (auto simp: dispatcher_ok_def services_ok_def)
  have "setClient (nextService d) c (d\<lparr>services := (services d)(nextService d := Service_new ids isLocal), nextService := nextService d + 1\<rparr>)
      = Inr (D_OK, ?d)"
    by (simp add: setClient_def Service_setClient_def updService_def Service_new_def)
  moreover have "service_live ?d (nextService d)"
    using registered_allocated [OF assms(2,3)] by (simp add: service_live_def)
  moreover have "\<forall>e \<in> set (m_services ?d). getServiceIDs ?d e \<noteq> getServiceIDs ?d (nextService d)"
    using assms(1) old by (auto simp: getService_None_iff getServiceIDs_def Service_new_def)
  ultimately show ?thesis
    using assms(1) by (simp add: tryRegisterService_def newService_def registerService_new bring_def)
qed

lemma listService_fields [simp]:
  "services (listService c s d) = services d" "allocated (listService c s d) = allocated d"
  "nextService (listService c s d) = nextService d" "nextNotification (listService c s d) = nextNotification d"
  "notifications (listService c s d) = notifications d"
  "m_notifications (listService c s d) = m_notifications d" "m_services (listService c s d) = m_services d"
  "m_clients (listService c s d) = m_clients d" "m_disconnectedClients (listService c s d) = m_disconnectedClients d"
  "m_nextAvailableClientID (listService c s d) = m_nextAvailableClientID d"
  "m_serviceRegistrationListeners (listService c s d) = m_serviceRegistrationListeners d"
  "effects (listService c s d) = effects d"
  "m_registered (clients (listService c s d) c') = m_registered (clients d c')"
  "m_id (clients (listService c s d) c') = m_id (clients d c')"
  "m_subscribedNotifications (clients (listService c s d) c') = m_subscribedNotifications (clients d c')"
  "m_registeredServices (clients (listService c s d) c')
     = m_registeredServices (clients d c') @ (if c' = c then [s] else [])"
  by (simp_all add: listService_def updClient_def)

lemma attach_fields [simp]:
  "clients (attach s c d) = clients d" "allocated (attach s c d) = allocated d"
  "nextService (attach s c d) = nextService d" "nextNotification (attach s c d) = nextNotification d"
  "notifications (attach s c d) = notifications d"
  "m_notifications (attach s c d) = m_notifications d" "m_services (attach s c d) = m_services d"
  "m_clients (attach s c d) = m_clients d" "m_disconnectedClients (attach s c d) = m_disconnectedClients d"
  "m_nextAvailableClientID (attach s c d) = m_nextAvailableClientID d"
  "m_serviceIDs' (services (attach s c d) s') = m_serviceIDs' (services d s')"
  "isWellKnown (services (attach s c d) s') = isWellKnown (services d s')"
  "m_client (services (attach s c d) s') = (if s' = s then Some c else m_client (services d s'))"
  "m_pendingMessages (services (attach s c d) s') = (if s' = s then [] else m_pendingMessages (services d s'))"
  "effects (attach s c d) = effects d @ map (SendIPCMessage c) (m_pendingMessages (services d s))"
  by (simp_all add: attach_def updService_def)

lemma getServiceIDs_cong [simp]:
  "getServiceIDs (listService c s d) = getServiceIDs d" "getServiceIDs (attach s c d) = getServiceIDs d"
  "getServiceIDs (register s d) = getServiceIDs d" "getServiceIDs (provide N p d) = getServiceIDs d"
  by (rule ext, simp add: getServiceIDs_def)+

lemma getService_listService [simp]: "getService ids (listService c s d) = getService ids d"
  by (simp add: getService_find)

lemma listService_ok:
  assumes "dispatcher_ok d" and "m_client (services d s) = Some c" and "s \<in> set (m_services d)"
  shows "dispatcher_ok (listService c s d)"
proof -
  have ok: "services_ok d" "owners_ok d" "notifications_ok d" "subscriptions_ok d" "clients_ok d"
    using assms(1) by (simp_all add: dispatcher_ok_def)
  have "services_ok (listService c s d)"
    using ok(1) by (auto simp: services_ok_def split: option.splits)
  moreover have "owners_ok (listService c s d)"
    using ok(1,2) assms(2,3) by (auto simp: services_ok_def owners_ok_def)
  moreover have "notifications_ok (listService c s d)" "subscriptions_ok (listService c s d)" "clients_ok (listService c s d)"
    using ok(3-) by (simp_all add: notifications_ok_def subscriptions_ok_def clients_ok_def)
  ultimately show ?thesis by (simp add: dispatcher_ok_def)
qed

lemma attach_ok:
  assumes "dispatcher_ok d" and "m_client (services d s) = None" and "s \<in> set (m_services d)"
    and "m_registered (clients d c)"
  shows "dispatcher_ok (listService c s (attach s c d))"
proof -
  have ok: "services_ok d" "owners_ok d" "notifications_ok d" "subscriptions_ok d" "clients_ok d"
    using assms(1) by (simp_all add: dispatcher_ok_def)
  have "services_ok (listService c s (attach s c d))"
    using ok(1) assms(2-) by (auto simp: services_ok_def split: option.splits)
  moreover have "owners_ok (listService c s (attach s c d))"
    using ok(1,2) assms(2-) by (fastforce simp: services_ok_def owners_ok_def)
  moreover have "notifications_ok (listService c s (attach s c d))"
    using ok(3) by (simp add: notifications_ok_def getService_find)
  moreover have "subscriptions_ok (listService c s (attach s c d))" "clients_ok (listService c s (attach s c d))"
    using ok(4,5) by (simp_all add: subscriptions_ok_def clients_ok_def)
  ultimately show ?thesis by (simp add: dispatcher_ok_def)
qed

lemma bring_fields [simp]:
  "clients (bring ids l c d) = clients d" "allocated (bring ids l c d) = allocated d"
  "services (bring ids l c d) = (services d)(nextService d := (Service_new ids l)\<lparr>m_client := Some c\<rparr>)"
  "nextService (bring ids l c d) = nextService d + 1" "nextNotification (bring ids l c d) = nextNotification d"
  "m_notifications (bring ids l c d) = m_notifications d" "m_services (bring ids l c d) = m_services d @ [nextService d]"
  "m_clients (bring ids l c d) = m_clients d" "m_disconnectedClients (bring ids l c d) = m_disconnectedClients d"
  "m_nextAvailableClientID (bring ids l c d) = m_nextAvailableClientID d"
  "m_subscribedClients (notifications (bring ids l c d) n) = m_subscribedClients (notifications d n)"
  "m_messageIDs (notifications (bring ids l c d) n) = m_messageIDs (notifications d n)"
  "m_providerService (notifications (bring ids l c d) n)
     = (if n \<in> set (m_notifications d) \<and> m_serviceIDs (m_messageIDs (notifications d n)) = ids then Some (nextService d)
        else m_providerService (notifications d n))"
  "getServiceIDs (bring ids l c d) = (getServiceIDs d)(nextService d := ids)"
  by (auto simp: bring_def getServiceIDs_def Service_new_def)

lemma find_cong_set: "(\<And>x. x \<in> set xs \<Longrightarrow> P x = Q x) \<Longrightarrow> find P xs = find Q xs"
  by (induction xs) auto

lemma getService_appended:
  assumes "m_services d' = m_services d @ [s]" and "getServiceIDs d' = (getServiceIDs d)(s := ids)"
    and "s \<notin> set (m_services d)" and "getService ids d = None"
  shows "getService ids' d' = (if ids' = ids then Some s else getService ids' d)"
proof -
  have "find (\<lambda>x. getServiceIDs d' x = ids') (m_services d) = getService ids' d"
    unfolding getService_find using assms(2,3) by (intro find_cong_set) auto
  with assms show ?thesis by (auto simp: getService_find find_append split: option.splits)
qed

lemma bring_ok:
  assumes "dispatcher_ok d" and "getService ids d = None" and "m_registered (clients d c)"
  shows "dispatcher_ok (listService c (nextService d) (bring ids l c d))"
proof -
  let ?d = "listService c (nextService d) (bring ids l c d)"
  have ok: "services_ok d" "owners_ok d" "notifications_ok d" "subscriptions_ok d" "clients_ok d"
    using assms(1) by (simp_all add: dispatcher_ok_def)
  have new: "nextService d \<notin> set (m_services d)" using ok(1) by (auto simp: services_ok_def)
  have "map (getServiceIDs ?d) (m_services d) = map (getServiceIDs d) (m_services d)"
    using new by (intro map_cong) auto
  then have "services_ok ?d"
    using ok(1) assms(2,3) new
    by (auto simp: services_ok_def getService_None_iff less_Suc_eq split: option.splits)
  moreover have "owners_ok ?d"
    using ok(2) by (fastforce simp: owners_ok_def Service_new_def less_Suc_eq)
  moreover have "notifications_ok ?d"
    using ok(3) getService_appended [OF _ _ new assms(2), of "bring ids l c d"]
    by (auto simp: notifications_ok_def)
  moreover have "subscriptions_ok ?d" "clients_ok ?d"
    using ok(4,5) by (simp_all add: subscriptions_ok_def clients_ok_def)
  ultimately show ?thesis by (simp add: dispatcher_ok_def)
qed

lemma Client_registerService_cases:
  assumes "dispatcher_ok d" and "m_registered (clients d c)"
  obtains (remote_known) s where "getService ids d = Some s" "\<not> isLocal"
      "Client_registerService c ids isLocal d = Inr (None, d)"
  | (taken) s c' where "getService ids d = Some s" "isLocal" "m_client (services d s) = Some c'" "c' \<noteq> c"
      "Client_registerService c ids isLocal d = Inr (None, d)"
  | (again) s where "getService ids d = Some s" "isLocal" "m_client (services d s) = Some c"
      "Client_registerService c ids isLocal d = Inr (Some s, listService c s d)"
  | (activated) s where "getService ids d = Some s" "isLocal" "m_client (services d s) = None"
      "Client_registerService c ids isLocal d = Inr (Some s, listService c s (attach s c d))"
  | (new) "getService ids d = None"
      "Client_registerService c ids isLocal d = Inr (Some (nextService d), listService c (nextService d) (bring ids isLocal c d))"
proof (cases "getService ids d")
  case None
  with assms that(5) show ?thesis
    by (simp add: Client_registerService_def tryRegisterService_new listService_def)
next
  case (Some s)
  with assms that show ?thesis
    by (cases isLocal; cases "m_client (services d s)"; cases "m_client (services d s) = Some c")
      (auto simp: Client_registerService_def tryRegisterService_known listService_def)
qed

lemma Client_registerService_ok:
  assumes "dispatcher_ok d" and "m_registered (clients d c)"
  shows "\<exists>s d'. Client_registerService c ids isLocal d = Inr (s, d') \<and> dispatcher_ok d'"
proof -
  have "s \<in> set (m_services d)" if "getService ids d = Some s" for s
    using that assms(1) by (simp add: dispatcher_ok_def getService_Some_iff)
  with assms show ?thesis
    by (cases rule: Client_registerService_cases [of d c ids isLocal]) (simp_all add: assms listService_ok attach_ok bring_ok)
qed

section \<open>Unregistering services and clients\<close>

lemma unregister_fields [simp]:
  "services (unregister s d) = services d" "clients (unregister s d) = clients d" "allocated (unregister s d) = allocated d"
  "nextService (unregister s d) = nextService d" "nextNotification (unregister s d) = nextNotification d"
  "m_notifications (unregister s d) = m_notifications d" "m_services (unregister s d) = remove1 s (m_services d)"
  "m_clients (unregister s d) = m_clients d" "m_disconnectedClients (unregister s d) = m_disconnectedClients d"
  "m_nextAvailableClientID (unregister s d) = m_nextAvailableClientID d"
  "m_serviceRegistrationListeners (unregister s d) = m_serviceRegistrationListeners d"
  "m_subscribedClients (notifications (unregister s d) n) = m_subscribedClients (notifications d n)"
  "m_messageIDs (notifications (unregister s d) n) = m_messageIDs (notifications d n)"
  "m_providerService (notifications (unregister s d) n)
     = (if n \<in> set (m_notifications d) \<and> m_providerService (notifications d n) = Some s then None
        else m_providerService (notifications d n))"
  "getServiceIDs (unregister s d) = getServiceIDs d"
  "effects (unregister s d) = effects d @ map (\<lambda>l. OnServiceUnregistered l s) (rev (m_serviceRegistrationListeners d))"
  by (simp_all add: unregister_def getServiceIDs_def fun_eq_iff)

lemma unregister_services_ok: "services_ok d \<Longrightarrow> services_ok (unregister s d)"
  by (auto simp: services_ok_def distinct_map inj_on_diff split: option.splits)

lemma unregister_owners_ok: "owners_ok d \<Longrightarrow> owners_ok (unregister s d)"
  by (simp add: owners_ok_def)

lemma getService_unregister:
  assumes "services_ok d"
  shows "getService ids (unregister s d) = (if getService ids d = Some s then None else getService ids d)"
proof -
  have dist: "distinct (map (getServiceIDs d) (m_services d))" using assms by (simp add: services_ok_def)
  then have "remove1 s (m_services d) = filter (\<lambda>x. x \<noteq> s) (m_services d)"
    by (simp add: distinct_map distinct_remove1_removeAll removeAll_filter_not_eq eq_commute)
  with find_filter_distinct [OF dist, of ids "\<lambda>x. x \<noteq> s"] show ?thesis
    by (auto simp: getService_find split: option.splits)
qed

lemma unregister_notifications_ok:
  "services_ok d \<Longrightarrow> notifications_ok d \<Longrightarrow> notifications_ok (unregister s d)"
  by (simp add: notifications_ok_def getService_unregister)

lemma unregister_ok: "dispatcher_ok d \<Longrightarrow> dispatcher_ok (unregister s d)"
  by (simp add: dispatcher_ok_def unregister_services_ok unregister_owners_ok unregister_notifications_ok)
    (simp add: subscriptions_ok_def clients_ok_def)

definition unlistService :: "nat \<Rightarrow> nat \<Rightarrow> Dispatcher \<Rightarrow> Dispatcher" where
  "unlistService c s = updClient c (\<lambda>x. x\<lparr>m_registeredServices := remove1 s (m_registeredServices x)\<rparr>)"

lemma unlistService_fields [simp]:
  "services (unlistService c s d) = services d" "allocated (unlistService c s d) = allocated d"
  "nextService (unlistService c s d) = nextService d" "nextNotification (unlistService c s d) = nextNotification d"
  "notifications (unlistService c s d) = notifications d"
  "m_notifications (unlistService c s d) = m_notifications d" "m_services (unlistService c s d) = m_services d"
  "m_clients (unlistService c s d) = m_clients d" "m_disconnectedClients (unlistService c s d) = m_disconnectedClients d"
  "m_nextAvailableClientID (unlistService c s d) = m_nextAvailableClientID d"
  "effects (unlistService c s d) = effects d"
  "m_registered (clients (unlistService c s d) c') = m_registered (clients d c')"
  "m_id (clients (unlistService c s d) c') = m_id (clients d c')"
  "m_subscribedNotifications (clients (unlistService c s d) c') = m_subscribedNotifications (clients d c')"
  "m_registeredServices (clients (unlistService c s d) c')
     = (if c' = c then remove1 s (m_registeredServices (clients d c)) else m_registeredServices (clients d c'))"
  "getServiceIDs (unlistService c s d) = getServiceIDs d"
  by (simp_all add: unlistService_def updClient_def getServiceIDs_def fun_eq_iff)

lemma unlistService_ok:
  assumes "dispatcher_ok d" and "s \<notin> set (m_services d)"
  shows "dispatcher_ok (unlistService c s d)"
proof -
  have ok: "services_ok d" "owners_ok d" "notifications_ok d" "subscriptions_ok d" "clients_ok d"
    using assms(1) by (simp_all add: dispatcher_ok_def)
  have "s' \<in> set (remove1 s ss)" if "s' \<in> set (m_services d)" "s' \<in> set ss" for s' ss
    using that assms(2) by (metis in_set_remove1)
  then have "services_ok (unlistService c s d)"
    using ok(1) by (auto simp: services_ok_def split: option.splits)
  moreover have "owners_ok (unlistService c s d)"
    using ok(2) by (auto simp: owners_ok_def dest: set_remove1_subset [THEN subsetD])
  moreover have "notifications_ok (unlistService c s d)" "subscriptions_ok (unlistService c s d)" "clients_ok (unlistService c s d)"
    using ok(3-) by (simp_all add: notifications_ok_def subscriptions_ok_def clients_ok_def getService_find)
  ultimately show ?thesis by (simp add: dispatcher_ok_def)
qed

lemma Client_unregisterService_eq:
  "Client_unregisterService c ids d =
     (case find (\<lambda>s. getServiceIDs d s = ids) (m_registeredServices (clients d c)) of
        None \<Rightarrow> Inr d | Some s \<Rightarrow> Inr (unlistService c s (unregister s d)))"
  by (simp add: Client_unregisterService_def findService_find unregisterService_eq unlistService_def
      removeFromVector_remove1 updClient_def split: option.splits)

lemma distinct_services: "services_ok d \<Longrightarrow> distinct (m_services d)"
  by (simp add: services_ok_def distinct_map)

lemma Client_unregisterService_ok:
  assumes "dispatcher_ok d"
  shows "\<exists>d'. Client_unregisterService c ids d = Inr d' \<and> dispatcher_ok d'"
proof -
  have "dispatcher_ok (unlistService c s (unregister s d))" for s
    using assms distinct_services [of d] unregister_ok [OF assms]
    by (intro unlistService_ok) (simp_all add: dispatcher_ok_def [of d])
  with assms show ?thesis by (simp add: Client_unregisterService_eq split: option.splits)
qed

definition dropSubscriptions :: "nat \<Rightarrow> nat list \<Rightarrow> Dispatcher \<Rightarrow> Dispatcher" where
  "dropSubscriptions c ns d = d\<lparr>notifications := \<lambda>n. (notifications d n)\<lparr>m_subscribedClients :=
     (remove1 c ^^ count_list ns n) (m_subscribedClients (notifications d n))\<rparr>\<rparr>"

lemma fold_unsubscribe: "fold (\<lambda>n. Notification_unsubscribe n c) ns d = dropSubscriptions c ns d"
proof (induction ns arbitrary: d)
  case (Cons n ns)
  have "dropSubscriptions c ns (Notification_unsubscribe n c d) = dropSubscriptions c (n # ns) d"
    by (rule Dispatcher.equality)
      (auto simp: dropSubscriptions_def Notification_unsubscribe_def updNotification_def
        removeFromVector_remove1 funpow_swap1 fun_eq_iff)
  with Cons.IH show ?case by simp
qed (simp add: dropSubscriptions_def)

lemma dropSubscriptions_fields [simp]:
  "services (dropSubscriptions c ns d) = services d" "clients (dropSubscriptions c ns d) = clients d"
  "allocated (dropSubscriptions c ns d) = allocated d" "nextService (dropSubscriptions c ns d) = nextService d"
  "nextNotification (dropSubscriptions c ns d) = nextNotification d"
  "m_notifications (dropSubscriptions c ns d) = m_notifications d" "m_services (dropSubscriptions c ns d) = m_services d"
  "m_clients (dropSubscriptions c ns d) = m_clients d"
  "m_disconnectedClients (dropSubscriptions c ns d) = m_disconnectedClients d"
  "m_nextAvailableClientID (dropSubscriptions c ns d) = m_nextAvailableClientID d"
  "m_serviceRegistrationListeners (dropSubscriptions c ns d) = m_serviceRegistrationListeners d"
  "m_messageIDs (notifications (dropSubscriptions c ns d) n) = m_messageIDs (notifications d n)"
  "m_providerService (notifications (dropSubscriptions c ns d) n) = m_providerService (notifications d n)"
  "m_subscribedClients (notifications (dropSubscriptions c ns d) n)
     = (remove1 c ^^ count_list ns n) (m_subscribedClients (notifications d n))"
  "getServiceIDs (dropSubscriptions c ns d) = getServiceIDs d"
  "effects (dropSubscriptions c ns d) = effects d"
  by (simp_all add: dropSubscriptions_def getServiceIDs_def fun_eq_iff)

lemma foldE_unregisterService: "foldE unregisterService ss d = Inr (fold unregister ss d)"
  by (induction ss arbitrary: d) (simp_all add: unregisterService_eq)

lemma fold_unregister_fields [simp]:
  "services (fold unregister ss d) = services d" "clients (fold unregister ss d) = clients d"
  "allocated (fold unregister ss d) = allocated d" "nextService (fold unregister ss d) = nextService d"
  "nextNotification (fold unregister ss d) = nextNotification d"
  "m_notifications (fold unregister ss d) = m_notifications d"
  "m_services (fold unregister ss d) = fold remove1 ss (m_services d)"
  "m_clients (fold unregister ss d) = m_clients d"
  "m_disconnectedClients (fold unregister ss d) = m_disconnectedClients d"
  "m_nextAvailableClientID (fold unregister ss d) = m_nextAvailableClientID d"
  "m_serviceRegistrationListeners (fold unregister ss d) = m_serviceRegistrationListeners d"
  "m_subscribedClients (notifications (fold unregister ss d) n) = m_subscribedClients (notifications d n)"
  "m_messageIDs (notifications (fold unregister ss d) n) = m_messageIDs (notifications d n)"
  "getServiceIDs (fold unregister ss d) = getServiceIDs d"
  "effects (fold unregister ss d) = effects d
     @ concat (map (\<lambda>s. map (\<lambda>l. OnServiceUnregistered l s) (rev (m_serviceRegistrationListeners d))) ss)"
  by (induction ss arbitrary: d) simp_all

lemma fold_unregister_ok:
  "services_ok d \<Longrightarrow> owners_ok d \<Longrightarrow> notifications_ok d \<Longrightarrow>
   services_ok (fold unregister ss d) \<and> owners_ok (fold unregister ss d) \<and> notifications_ok (fold unregister ss d)"
  by (induction ss arbitrary: d)
    (simp_all add: unregister_services_ok unregister_owners_ok unregister_notifications_ok)

text \<open>The state after a client has left: its subscriptions and services are gone.\<close>

definition left :: "nat \<Rightarrow> Dispatcher \<Rightarrow> Dispatcher" where
  "left c d = fold unregister (m_registeredServices (clients d c))
     (dropSubscriptions c (m_subscribedNotifications (clients d c)) d)"

definition leave :: "nat \<Rightarrow> Dispatcher \<Rightarrow> Dispatcher" where
  "leave c d = updClient c (\<lambda>x. x\<lparr>m_registered := False\<rparr>) (record_calls [ActivateIdle]
     ((left c d)\<lparr>m_clients := (m_clients d)[unat (m_id (clients d c)) := None],
        m_disconnectedClients := m_disconnectedClients d @ [c]\<rparr>))"

lemma unregisterClient_eq:
  assumes "dispatcher_ok d" and "m_registered (clients d c)"
  shows "unregisterClient c d = Inr (leave c d)"
proof -
  have "unat (m_id (clients d c)) < length (m_clients d)" "m_clients d ! unat (m_id (clients d c)) = Some c"
    using assms by (simp_all add: dispatcher_ok_def clients_ok_def)
  with assms(2) show ?thesis
    by (simp add: unregisterClient_def fold_unsubscribe foldE_unregisterService onClientDisconnected_def
        leave_def left_def call_record)
qed

lemma leave_fields [simp]:
  "services (leave c d) = services d" "allocated (leave c d) = allocated d"
  "nextService (leave c d) = nextService d" "nextNotification (leave c d) = nextNotification d"
  "notifications (leave c d) = notifications (left c d)"
  "m_notifications (leave c d) = m_notifications d" "m_services (leave c d) = m_services (left c d)"
  "m_clients (leave c d) = (m_clients d)[unat (m_id (clients d c)) := None]"
  "m_disconnectedClients (leave c d) = m_disconnectedClients d @ [c]"
  "m_nextAvailableClientID (leave c d) = m_nextAvailableClientID d"
  "m_registered (clients (leave c d) c') = (c' \<noteq> c \<and> m_registered (clients d c'))"
  "m_id (clients (leave c d) c') = m_id (clients d c')"
  "m_subscribedNotifications (clients (leave c d) c') = m_subscribedNotifications (clients d c')"
  "m_registeredServices (clients (leave c d) c') = m_registeredServices (clients d c')"
  "getServiceIDs (leave c d) = getServiceIDs d"
  by (simp_all add: leave_def left_def updClient_def getServiceIDs_def fun_eq_iff)

lemma left_services:
  "services_ok d \<Longrightarrow> m_services (left c d) = filter (\<lambda>s. s \<notin> set (m_registeredServices (clients d c))) (m_services d)"
  by (simp add: left_def fold_remove1_distinct distinct_services)

lemma left_subscribers:
  assumes "dispatcher_ok d" and "m_registered (clients d c)" and "n \<in> set (m_notifications d)"
  shows "m_subscribedClients (notifications (left c d) n) = filter (\<lambda>x. x \<noteq> c) (m_subscribedClients (notifications d n))"
proof -
  have "count_list (m_subscribedNotifications (clients d c)) n = count_list (m_subscribedClients (notifications d n)) c"
    using assms by (simp add: dispatcher_ok_def subscriptions_ok_def)
  then show ?thesis by (simp add: left_def remove1_count)
qed

lemma count_list_filter_neq: "count_list (filter (\<lambda>x. x \<noteq> c) xs) y = (if y = c then 0 else count_list xs y)"
  by (induction xs) auto

lemma leave_clients_ok:
  assumes "clients_ok d" and "m_registered (clients d c)"
  shows "clients_ok (leave c d)"
proof -
  let ?k = "unat (m_id (clients d c))"
  have table: "\<And>i c'. i < length (m_clients d) \<Longrightarrow> m_clients d ! i = Some c' \<Longrightarrow>
      m_registered (clients d c') \<and> unat (m_id (clients d c')) = i"
    and reg: "\<And>c'. m_registered (clients d c') \<Longrightarrow> allocated d c' \<and> unat (m_id (clients d c')) < length (m_clients d)
      \<and> m_clients d ! unat (m_id (clients d c')) = Some c'"
    using assms(1) by (auto simp: clients_ok_def)
  have ids: "unat (m_id (clients d c')) \<noteq> ?k" if "c' \<noteq> c" "m_registered (clients d c')" for c'
    using that reg [of c'] reg [OF assms(2)] by auto
  have "(c' \<noteq> c \<and> m_registered (clients d c')) \<and> unat (m_id (clients d c')) = i"
    if "i < length (m_clients d)" "(m_clients d)[?k := None] ! i = Some c'" for i c'
    using that table [of i c'] by (cases "i = ?k") auto
  moreover have "allocated d c' \<and> unat (m_id (clients d c')) < length (m_clients d)
      \<and> (m_clients d)[?k := None] ! unat (m_id (clients d c')) = Some c'"
    if "c' \<noteq> c \<and> m_registered (clients d c')" for c'
    using reg [of c'] ids [of c'] that by simp
  moreover have "distinct (m_disconnectedClients d @ [c])"
    "\<forall>x \<in> set (m_disconnectedClients d @ [c]). allocated d x \<and> \<not> (x \<noteq> c \<and> m_registered (clients d x))"
    using assms(1) assms(2) by (auto simp: clients_ok_def)
  ultimately show ?thesis
    using assms(1) unfolding clients_ok_def leave_fields length_list_update by blast
qed

lemma leave_ok:
  assumes "dispatcher_ok d" and "m_registered (clients d c)"
  shows "dispatcher_ok (leave c d)"
proof -
  have ok: "services_ok d" "owners_ok d" "notifications_ok d" "subscriptions_ok d" "clients_ok d"
    using assms(1) by (simp_all add: dispatcher_ok_def)
  have "services_ok (dropSubscriptions c ns d)" "owners_ok (dropSubscriptions c ns d)"
    "notifications_ok (dropSubscriptions c ns d)" for ns
    using ok(1-3) by (simp_all add: services_ok_def owners_ok_def notifications_ok_def getService_find cong: option.case_cong)
  then have l: "notifications_ok (left c d)"
    unfolding left_def using fold_unregister_ok by blast
  have "services_ok (leave c d)"
    using ok(1) by (auto simp: services_ok_def left_services [OF ok(1)] distinct_map_filter split: option.splits)
  moreover have "owners_ok (leave c d)" using ok(2) by (simp add: owners_ok_def)
  moreover have "notifications_ok (leave c d)"
    using l by (simp add: notifications_ok_def getService_find) (simp add: left_def)
  moreover have "subscriptions_ok (leave c d)"
    using ok(4) left_subscribers [OF assms] by (simp add: subscriptions_ok_def count_list_filter_neq)
  moreover have "clients_ok (leave c d)" using ok(5) assms(2) by (rule leave_clients_ok)
  ultimately show ?thesis by (simp add: dispatcher_ok_def)
qed

section \<open>Clients that come and go\<close>

definition join :: "nat \<Rightarrow> PingSender \<Rightarrow> Dispatcher \<Rightarrow> Dispatcher" where
  "join c p d = record_calls [InitClient c]
     (d\<lparr>clients := (clients d)(c := (Client_new p)\<lparr>m_id := of_nat (length (m_clients d)), m_registered := True\<rparr>),
        allocated := (allocated d)(c := True), m_clients := m_clients d @ [Some c],
        m_nextAvailableClientID := m_nextAvailableClientID d + 1\<rparr>)"

lemma unat_client_id: "n \<le> 65536 \<Longrightarrow> unat (of_nat n :: ClientIdentifier) = n \<longleftrightarrow> n \<noteq> 65536"
  by (auto simp: unat_of_nat)

lemma registerClient_new:
  assumes "clients_ok d"
  shows "registerClient c (newClient c p d)
       = (if length (m_clients d) = 65536 then Inl AssertFailed else Inr (join c p d))"
proof -
  have "length (m_clients d) \<le> 65536" "m_nextAvailableClientID d = of_nat (length (m_clients d))"
    using assms by (simp_all add: clients_ok_def)
  then show ?thesis
    using unat_client_id [of "length (m_clients d)"]
    by (auto simp: registerClient_def newClient_def Client_new_def onNewClient_def updClient_def
        callClient_def join_def record_calls_def Let_def intro!: Dispatcher.equality)
qed

lemma join_fields [simp]:
  "services (join c p d) = services d" "nextService (join c p d) = nextService d"
  "allocated (join c p d) = (allocated d)(c := True)"
  "nextNotification (join c p d) = nextNotification d" "notifications (join c p d) = notifications d"
  "m_notifications (join c p d) = m_notifications d" "m_services (join c p d) = m_services d"
  "m_clients (join c p d) = m_clients d @ [Some c]" "m_disconnectedClients (join c p d) = m_disconnectedClients d"
  "m_nextAvailableClientID (join c p d) = m_nextAvailableClientID d + 1"
  "m_registered (clients (join c p d) c') = (c' = c \<or> m_registered (clients d c'))"
  "m_id (clients (join c p d) c') = (if c' = c then of_nat (length (m_clients d)) else m_id (clients d c'))"
  "m_subscribedNotifications (clients (join c p d) c') = (if c' = c then [] else m_subscribedNotifications (clients d c'))"
  "m_registeredServices (clients (join c p d) c') = (if c' = c then [] else m_registeredServices (clients d c'))"
  "getServiceIDs (join c p d) = getServiceIDs d"
  by (auto simp: join_def Client_new_def getServiceIDs_def)

lemma join_clients_ok:
  assumes "clients_ok d" and "\<not> allocated d c" and "length (m_clients d) \<noteq> 65536"
  shows "clients_ok (join c p d)"
proof -
  let ?n = "length (m_clients d)"
  have new: "\<not> m_registered (clients d c)" "c \<notin> set (m_disconnectedClients d)" "?n < 65536"
    and table: "\<And>i c'. i < ?n \<Longrightarrow> m_clients d ! i = Some c' \<Longrightarrow> m_registered (clients d c') \<and> unat (m_id (clients d c')) = i"
    and reg: "\<And>c'. m_registered (clients d c') \<Longrightarrow> allocated d c' \<and> unat (m_id (clients d c')) < ?n
        \<and> m_clients d ! unat (m_id (clients d c')) = Some c'"
    using assms by (auto simp: clients_ok_def)
  have num: "unat (of_nat ?n :: ClientIdentifier) = ?n" using new(3) by (simp add: unat_client_id)
  have "m_registered (clients (join c p d) c') \<and> unat (m_id (clients (join c p d) c')) = i"
    if "i < length (m_clients (join c p d))" "m_clients (join c p d) ! i = Some c'" for i c'
    using that table [of i c'] new(1) num by (auto simp: nth_append split: if_splits)
  moreover have "allocated (join c p d) c' \<and> unat (m_id (clients (join c p d) c')) < length (m_clients (join c p d))
      \<and> m_clients (join c p d) ! unat (m_id (clients (join c p d) c')) = Some c'"
    if "m_registered (clients (join c p d) c')" for c'
    using that reg [of c'] num new(1) by (cases "c' = c") (auto simp: nth_append)
  moreover have "length (m_clients (join c p d)) \<le> 65536"
    "m_nextAvailableClientID (join c p d) = of_nat (length (m_clients (join c p d)))"
    "distinct (m_disconnectedClients (join c p d))"
    "\<forall>x \<in> set (m_disconnectedClients (join c p d)). allocated (join c p d) x \<and> \<not> m_registered (clients (join c p d) x)"
    using assms(1) new(2,3) by (auto simp: clients_ok_def)
  ultimately show ?thesis unfolding clients_ok_def by blast
qed

lemma join_ok:
  assumes "dispatcher_ok d" and "\<not> allocated d c" and "length (m_clients d) \<noteq> 65536"
  shows "dispatcher_ok (join c p d)"
proof -
  have ok: "services_ok d" "owners_ok d" "notifications_ok d" "subscriptions_ok d" "clients_ok d"
    using assms(1) by (simp_all add: dispatcher_ok_def)
  have new: "\<not> m_registered (clients d c)" using ok(5) assms(2) by (auto simp: clients_ok_def)
  have "services_ok (join c p d)" using ok(1) new by (auto simp: services_ok_def split: option.splits)
  moreover have "owners_ok (join c p d)" using ok(2) by (simp add: owners_ok_def)
  moreover have "notifications_ok (join c p d)" using ok(3) by (simp add: notifications_ok_def getService_find)
  moreover have "subscriptions_ok (join c p d)" using ok(4) new by (simp add: subscriptions_ok_def)
  moreover have "clients_ok (join c p d)" using ok(5) assms(2,3) by (rule join_clients_ok)
  ultimately show ?thesis by (simp add: dispatcher_ok_def)
qed

lemma cleanDisconnectedClients_eq:
  "cleanDisconnectedClients d = record_calls (map DeleteClient (m_disconnectedClients d))
     (d\<lparr>allocated := \<lambda>c. c \<notin> set (m_disconnectedClients d) \<and> allocated d c, m_disconnectedClients := []\<rparr>)"
proof -
  have "fold (\<lambda>c d. call (DeleteClient c) (d\<lparr>allocated := (allocated d)(c := False)\<rparr>)) cs d
      = record_calls (map DeleteClient cs) (d\<lparr>allocated := \<lambda>c. c \<notin> set cs \<and> allocated d c\<rparr>)" for cs
    by (induction cs arbitrary: d) (auto simp: call_def record_calls_def fun_upd_def intro!: Dispatcher.equality)
  then show ?thesis by (simp add: cleanDisconnectedClients_def record_calls_def)
qed

lemma cleanDisconnectedClients_ok:
  assumes "dispatcher_ok d"
  shows "dispatcher_ok (cleanDisconnectedClients d)"
proof -
  let ?d = "d\<lparr>allocated := \<lambda>c. c \<notin> set (m_disconnectedClients d) \<and> allocated d c, m_disconnectedClients := []\<rparr>"
  have ids: "getServiceIDs ?d = getServiceIDs d" by (rule ext) (simp add: getServiceIDs_def)
  have "services_ok ?d" "owners_ok ?d" "notifications_ok ?d" "subscriptions_ok ?d"
    using assms by (simp_all add: dispatcher_ok_def services_ok_def owners_ok_def notifications_ok_def
        subscriptions_ok_def getService_find ids cong: option.case_cong)
  moreover have "clients_ok ?d" using assms by (auto simp: dispatcher_ok_def clients_ok_def)
  ultimately show ?thesis by (simp add: cleanDisconnectedClients_eq dispatcher_ok_def [of ?d])
qed

section \<open>Subscriptions\<close>

definition announce :: "MemberIDs \<Rightarrow> Dispatcher \<Rightarrow> Dispatcher" where
  "announce mid d =
     (let s = getService (m_serviceIDs mid) d
      in record_calls (case s of None \<Rightarrow> [] | Some s \<Rightarrow> subscribed_calls d s (m_memberID mid))
           (d\<lparr>notifications := (notifications d)(nextNotification d :=
                \<lparr>m_subscribedClients = [], m_messageIDs = mid, m_providerService = s\<rparr>),
              nextNotification := nextNotification d + 1, m_notifications := m_notifications d @ [nextNotification d]\<rparr>))"

lemma getOrCreateNotification_eq:
  assumes "dispatcher_ok d"
  shows "getOrCreateNotification mid d = Inr
      (case find (\<lambda>n. m_messageIDs (notifications d n) = mid) (m_notifications d) of
         Some n \<Rightarrow> (n, d) | None \<Rightarrow> (nextNotification d, announce mid d))"
proof -
  let ?n = "nextNotification d"
  let ?d = "d\<lparr>notifications := (notifications d)(?n := \<lparr>m_subscribedClients = [], m_messageIDs = mid, m_providerService = None\<rparr>),
      nextNotification := Suc ?n\<rparr>"
  have gs: "getService ids ?d = getService ids d" for ids
    by (rule getService_cong) (simp_all add: getServiceIDs_def fun_eq_iff)
  have "service_live ?d s" if "getService (m_serviceIDs mid) d = Some s" for s
    using that registered_service_live [OF assms, of s] assms
    by (simp add: getService_Some_iff dispatcher_ok_def service_live_def split: option.splits)
  then have "Notification_new mid d = Inr (?n, (announce mid d)\<lparr>m_notifications := m_notifications d\<rparr>)"
    by (auto simp: Notification_new_def Notification_init_def gs setProviderService_Some announce_def Let_def
        record_calls_def provide_def subscribed_calls_def split: option.splits intro!: Dispatcher.equality)
  then show ?thesis
    by (simp add: getOrCreateNotification_def findNotification_find announce_def Let_def record_calls_def
        split: option.splits)
qed

lemma announce_fields [simp]:
  "clients (announce mid d) = clients d" "allocated (announce mid d) = allocated d"
  "services (announce mid d) = services d" "nextService (announce mid d) = nextService d"
  "nextNotification (announce mid d) = nextNotification d + 1"
  "m_notifications (announce mid d) = m_notifications d @ [nextNotification d]" "m_services (announce mid d) = m_services d"
  "m_clients (announce mid d) = m_clients d" "m_disconnectedClients (announce mid d) = m_disconnectedClients d"
  "m_nextAvailableClientID (announce mid d) = m_nextAvailableClientID d"
  "notifications (announce mid d) = (notifications d)(nextNotification d :=
     \<lparr>m_subscribedClients = [], m_messageIDs = mid, m_providerService = getService (m_serviceIDs mid) d\<rparr>)"
  "getServiceIDs (announce mid d) = getServiceIDs d"
  by (simp_all add: announce_def Let_def getServiceIDs_def fun_eq_iff)

lemma distinct_map_new:
  "distinct (map f xs) \<Longrightarrow> n \<notin> set xs \<Longrightarrow> k \<notin> f ` set xs \<Longrightarrow>
   distinct (map (\<lambda>x. if x = n then k else f x) (xs @ [n]))"
  by (induction xs) auto

lemma announce_ok:
  assumes "dispatcher_ok d" and "find (\<lambda>n. m_messageIDs (notifications d n) = mid) (m_notifications d) = None"
  shows "dispatcher_ok (announce mid d)"
proof -
  have ok: "services_ok d" "owners_ok d" "notifications_ok d" "subscriptions_ok d" "clients_ok d"
    using assms(1) by (simp_all add: dispatcher_ok_def)
  have new: "nextNotification d \<notin> set (m_notifications d)" using ok(3) by (auto simp: notifications_ok_def)
  have "services_ok (announce mid d)" "owners_ok (announce mid d)" "clients_ok (announce mid d)"
    using ok(1,2,5) by (simp_all add: services_ok_def owners_ok_def clients_ok_def cong: option.case_cong)
  moreover have "notifications_ok (announce mid d)"
  proof -
    have ids: "(\<lambda>n. m_messageIDs (notifications (announce mid d) n))
        = (\<lambda>n. if n = nextNotification d then mid else m_messageIDs (notifications d n))" by auto
    have "distinct (map (\<lambda>n. m_messageIDs (notifications d n)) (m_notifications d))"
      "mid \<notin> (\<lambda>n. m_messageIDs (notifications d n)) ` set (m_notifications d)"
      using ok(3) assms(2) by (auto simp: notifications_ok_def find_cong_None)
    then have "distinct (map (\<lambda>n. m_messageIDs (notifications (announce mid d) n)) (m_notifications (announce mid d)))"
      unfolding ids announce_fields(6) by (intro distinct_map_new new)
    moreover have "getService ids (announce mid d) = getService ids d" for ids by (rule getService_cong) simp_all
    then have "n < nextNotification (announce mid d) \<and> m_providerService (notifications (announce mid d) n)
        = getService (m_serviceIDs (m_messageIDs (notifications (announce mid d) n))) (announce mid d)"
      if "n \<in> set (m_notifications (announce mid d))" for n
      using that ok(3) new by (cases "n = nextNotification d") (auto simp: notifications_ok_def)
    ultimately show ?thesis unfolding notifications_ok_def by blast
  qed
  moreover have "subscriptions_ok (announce mid d)"
  proof -
    have "count_list (m_subscribedNotifications (clients d c)) (nextNotification d) = 0" if "m_registered (clients d c)" for c
      using that ok(4) new by (auto simp: subscriptions_ok_def count_list_0_iff)
    with ok(4) new show ?thesis by (auto simp: subscriptions_ok_def)
  qed
  ultimately show ?thesis by (simp add: dispatcher_ok_def)
qed

text \<open>The notification of a member, and the state in which it exists.\<close>

lemma getOrCreateNotification_ok:
  assumes "dispatcher_ok d"
  obtains n d' where "getOrCreateNotification mid d = Inr (n, d')" "dispatcher_ok d'" "n \<in> set (m_notifications d')"
    "m_messageIDs (notifications d' n) = mid" "clients d' = clients d" "allocated d' = allocated d"
    "m_clients d' = m_clients d" "m_services d' = m_services d" "services d' = services d"
proof (cases "find (\<lambda>n. m_messageIDs (notifications d n) = mid) (m_notifications d)")
  case None
  show ?thesis
    by (rule that [of "nextNotification d" "announce mid d"])
      (simp_all add: getOrCreateNotification_eq assms None announce_ok)
next
  case (Some n)
  show ?thesis
    by (rule that [of n d]) (use find_Some_member [OF Some] in \<open>simp_all add: getOrCreateNotification_eq assms Some\<close>)
qed

definition subscription :: "nat \<Rightarrow> nat \<Rightarrow> Dispatcher \<Rightarrow> Dispatcher" where
  "subscription n c d =
     record_calls (case m_providerService (notifications d n) of None \<Rightarrow> []
         | Some s \<Rightarrow> subscribed_calls d s (m_memberID (m_messageIDs (notifications d n))))
       (updClient c (\<lambda>x. x\<lparr>m_subscribedNotifications := m_subscribedNotifications x @ [n]\<rparr>)
         (updNotification n (\<lambda>x. x\<lparr>m_subscribedClients := m_subscribedClients x @ [c]\<rparr>) d))"

lemma subscribeToNotification_eq:
  assumes "dispatcher_ok d" and "getOrCreateNotification mid d = Inr (n, d')"
    and "dispatcher_ok d'" and "n \<in> set (m_notifications d')"
  shows "subscribeToNotification c mid d = Inr (subscription n c d')"
proof -
  let ?u = "updNotification n (\<lambda>x. x\<lparr>m_subscribedClients := m_subscribedClients x @ [c]\<rparr>) d'"
  have "service_live ?u s" if "m_providerService (notifications d' n) = Some s" for s
  proof -
    have "getService (m_serviceIDs (m_messageIDs (notifications d' n))) d' = Some s"
      using that assms(3,4) by (simp add: dispatcher_ok_def notifications_ok_def)
    then have "s \<in> set (m_services d')" using assms(3) by (simp add: getService_Some_iff dispatcher_ok_def)
    then have "service_live d' s" by (rule registered_service_live [OF assms(3)])
    then show ?thesis by (simp add: service_live_def updNotification_def split: option.splits)
  qed
  then have "Notification_subscribe n c d' = Inr (record_calls
      (case m_providerService (notifications d' n) of None \<Rightarrow> []
         | Some s \<Rightarrow> subscribed_calls d' s (m_memberID (m_messageIDs (notifications d' n)))) ?u)"
    by (simp add: Notification_subscribe_def updNotification_def onNotificationSubscribed_eq subscribed_calls_def
        split: option.splits)
  with assms(2) show ?thesis
    by (simp add: subscribeToNotification_def subscribeClientForNotifications_def subscription_def
        updClient_def record_calls_def)
qed

lemma subscription_fields [simp]:
  "services (subscription n c d) = services d" "allocated (subscription n c d) = allocated d"
  "nextService (subscription n c d) = nextService d" "nextNotification (subscription n c d) = nextNotification d"
  "m_notifications (subscription n c d) = m_notifications d" "m_services (subscription n c d) = m_services d"
  "m_clients (subscription n c d) = m_clients d" "m_disconnectedClients (subscription n c d) = m_disconnectedClients d"
  "m_nextAvailableClientID (subscription n c d) = m_nextAvailableClientID d"
  "m_registered (clients (subscription n c d) c') = m_registered (clients d c')"
  "m_id (clients (subscription n c d) c') = m_id (clients d c')"
  "m_registeredServices (clients (subscription n c d) c') = m_registeredServices (clients d c')"
  "m_subscribedNotifications (clients (subscription n c d) c')
     = m_subscribedNotifications (clients d c') @ (if c' = c then [n] else [])"
  "m_messageIDs (notifications (subscription n c d) n') = m_messageIDs (notifications d n')"
  "m_providerService (notifications (subscription n c d) n') = m_providerService (notifications d n')"
  "m_subscribedClients (notifications (subscription n c d) n')
     = m_subscribedClients (notifications d n') @ (if n' = n then [c] else [])"
  "getServiceIDs (subscription n c d) = getServiceIDs d"
  by (simp_all add: subscription_def updClient_def updNotification_def getServiceIDs_def fun_eq_iff)

lemma subscription_ok:
  assumes "dispatcher_ok d" and "n \<in> set (m_notifications d)" and "m_registered (clients d c)"
  shows "dispatcher_ok (subscription n c d)"
proof -
  have ok: "services_ok d" "owners_ok d" "notifications_ok d" "subscriptions_ok d" "clients_ok d"
    using assms(1) by (simp_all add: dispatcher_ok_def)
  have "services_ok (subscription n c d)" "owners_ok (subscription n c d)" "notifications_ok (subscription n c d)"
    "clients_ok (subscription n c d)"
    using ok by (simp_all add: services_ok_def owners_ok_def notifications_ok_def clients_ok_def getService_find cong: option.case_cong)
  moreover have "subscriptions_ok (subscription n c d)"
    using ok(4) assms(2,3) by (simp add: subscriptions_ok_def) blast
  ultimately show ?thesis by (simp add: dispatcher_ok_def)
qed

lemma subscribeToNotification_ok:
  assumes "dispatcher_ok d" and "m_registered (clients d c)"
  shows "\<exists>d'. subscribeToNotification c mid d = Inr d' \<and> dispatcher_ok d'"
proof -
  obtain n d' where d': "getOrCreateNotification mid d = Inr (n, d')" "dispatcher_ok d'" "n \<in> set (m_notifications d')"
    "clients d' = clients d" using assms(1) by (rule getOrCreateNotification_ok)
  with assms show ?thesis by (simp add: subscribeToNotification_eq subscription_ok)
qed

end
