(* ===== verification/Dispatcher_Routing.thy ===== *)
theory Dispatcher_Routing
  imports Dispatcher_Laws
begin

text \<open>
  Where the dispatcher sends messages: requests to the one service they name, answers to the
  client that asked, notifications to the subscribers. The commands a daemon gives its
  dispatcher are collected in \<open>Command\<close>; what holds in every state they lead to is at the end.
\<close>

section \<open>Sending to a service\<close>

lemma dispatcher_ok_counter [simp]: "dispatcher_ok (d\<lparr>m_messageCounter := k\<rparr>) = dispatcher_ok d"
proof -
  have "getServiceIDs (d\<lparr>m_messageCounter := k\<rparr>) = getServiceIDs d" by (simp add: getServiceIDs_def fun_eq_iff)
  then show ?thesis by (simp add: dispatcher_ok_def tables_ok getService_find cong: option.case_cong)
qed

text \<open>What happens to a well known service while it has no client.\<close>

definition await :: "ProcessState \<Rightarrow> Message list \<Rightarrow> nat \<Rightarrow> Dispatcher \<Rightarrow> Dispatcher" where
  "await st ms s = updService s (\<lambda>x. x\<lparr>m_state := st, m_pendingMessages := m_pendingMessages x @ ms\<rparr>)"

lemma await_fields [simp]:
  "clients (await st ms s d) = clients d" "allocated (await st ms s d) = allocated d"
  "nextService (await st ms s d) = nextService d" "nextNotification (await st ms s d) = nextNotification d"
  "notifications (await st ms s d) = notifications d"
  "m_notifications (await st ms s d) = m_notifications d" "m_services (await st ms s d) = m_services d"
  "m_clients (await st ms s d) = m_clients d" "m_disconnectedClients (await st ms s d) = m_disconnectedClients d"
  "m_nextAvailableClientID (await st ms s d) = m_nextAvailableClientID d"
  "m_serviceRegistrationListeners (await st ms s d) = m_serviceRegistrationListeners d"
  "effects (await st ms s d) = effects d"
  "m_client (services (await st ms s d) s') = m_client (services d s')"
  "isWellKnown (services (await st ms s d) s') = isWellKnown (services d s')"
  "m_pendingMessages (services (await st ms s d) s') = m_pendingMessages (services d s') @ (if s' = s then ms else [])"
  "getServiceIDs (await st ms s d) = getServiceIDs d"
  by (simp_all add: await_def updService_def getServiceIDs_def fun_eq_iff)

lemma await_ok:
  assumes "dispatcher_ok d" and "m_client (services d s) = None"
  shows "dispatcher_ok (await st ms s d)"
  using assms
  by (simp add: dispatcher_ok_def tables_ok getService_find cong: option.case_cong)

lemma getClientFromId_registered:
  assumes "dispatcher_ok d" and "m_registered (clients d c)"
  shows "getClientFromId (m_id (clients d c)) d = Some c"
  using assms by (simp add: getClientFromId_def dispatcher_ok_def clients_ok_def)

lemma getClientFromId_allocated:
  assumes "dispatcher_ok d" and "getClientFromId i d = Some c"
  shows "allocated d c" and "m_registered (clients d c)" and "m_id (clients d c) = i"
proof -
  have "unat i < length (m_clients d)" "m_clients d ! unat i = Some c"
    using assms(2) by (auto simp: getClientFromId_def split: if_splits)
  with assms(1) have "m_registered (clients d c) \<and> unat (m_id (clients d c)) = unat i"
    by (simp add: dispatcher_ok_def clients_ok_def)
  then show "m_registered (clients d c)" and "m_id (clients d c) = i" by (simp_all add: word_unat_eq_iff)
  with assms(1) show "allocated d c" by (simp add: registered_allocated)
qed

lemma sendMessage_client:
  assumes "m_client (services d s) = Some c" and "allocated d c"
  shows "sendMessage s msg d = Inr (record_calls [SendMessage c msg] d)"
  using assms by (simp add: sendMessage_def WellKnownService_sendMessage_def Service_sendMessage_def callClient_allocated)

lemma sendMessage_activated:
  assumes "m_client (services d s) = None" and "isWellKnown (services d s)"
    and "m_state (services d s) = STARTING \<or> canChdir d s \<and> canSpawn d s"
  shows "sendMessage s msg d = Inr (await STARTING [msg] s d)"
  using assms
  by (auto simp: sendMessage_def WellKnownService_sendMessage_def activateService_def await_def updService_def
      intro!: Dispatcher.equality)

lemma sendMessage_bad_directory:
  assumes "m_client (services d s) = None" and "isWellKnown (services d s)"
    and "m_state (services d s) \<noteq> STARTING" and "\<not> canChdir d s"
  shows "sendMessage s msg d = Inl ExceptionThrown"
  using assms by (simp add: sendMessage_def WellKnownService_sendMessage_def activateService_def)

lemma sendMessage_start_failed:
  assumes "m_client (services d s) = None" and "isWellKnown (services d s)"
    and "m_state (services d s) \<noteq> STARTING" and "canChdir d s" and "\<not> canSpawn d s" and "dispatcher_ok d"
  shows "sendMessage s msg d =
      (case getClientFromId (m_clientIdentifier msg) d of
         None \<Rightarrow> Inl NullDereference
       | Some c \<Rightarrow> Inr (record_calls [SendOutputMessage c (setMessageType (methodReturn msg) MT_ERROR)] (await START_FAILED [] s d)))"
proof -
  have "getClientFromId i (await START_FAILED [] s d) = getClientFromId i d" for i by (simp add: getClientFromId_def)
  moreover have "updService s (\<lambda>x. x\<lparr>m_state := START_FAILED\<rparr>) d = await START_FAILED [] s d"
    by (simp add: await_def updService_def)
  moreover have "m_state (services (await START_FAILED [] s d) s) = START_FAILED" by (simp add: await_def updService_def)
  ultimately show ?thesis
    using assms getClientFromId_allocated(1) [OF assms(6)]
    by (auto simp: sendMessage_def WellKnownService_sendMessage_def activateService_def callClient_allocated
        split: option.splits)
qed

text \<open>
  What sending to a registered service may do: it keeps the tables consistent, and it fails
  only for a well known service that could not be started.
\<close>

lemma sendMessage_cases:
  assumes "dispatcher_ok d" and "s \<in> set (m_services d)"
  obtains (client) c where "m_client (services d s) = Some c" "sendMessage s msg d = Inr (record_calls [SendMessage c msg] d)"
  | (waiting) "m_client (services d s) = None" "isWellKnown (services d s)" "sendMessage s msg d = Inr (await STARTING [msg] s d)"
  | (failed) c where "m_client (services d s) = None" "isWellKnown (services d s)"
      "getClientFromId (m_clientIdentifier msg) d = Some c"
      "sendMessage s msg d = Inr (record_calls [SendOutputMessage c (setMessageType (methodReturn msg) MT_ERROR)] (await START_FAILED [] s d))"
  | (nobody) "m_client (services d s) = None" "isWellKnown (services d s)"
      "getClientFromId (m_clientIdentifier msg) d = None" "sendMessage s msg d = Inl NullDereference"
  | (directory) "m_client (services d s) = None" "isWellKnown (services d s)" "sendMessage s msg d = Inl ExceptionThrown"
proof (cases "m_client (services d s)")
  case (Some c)
  then have "allocated d c"
    using registered_service_live [OF assms] by (simp add: service_live_def)
  with Some show ?thesis by (intro client [of c]) (simp_all add: sendMessage_client)
next
  case None
  then have wk: "isWellKnown (services d s)" using assms by (auto simp: dispatcher_ok_def services_ok_def)
  consider (ok) "m_state (services d s) = STARTING \<or> canChdir d s \<and> canSpawn d s"
    | (dir) "m_state (services d s) \<noteq> STARTING" "\<not> canChdir d s"
    | (spawn) "m_state (services d s) \<noteq> STARTING" "canChdir d s" "\<not> canSpawn d s" by blast
  then show ?thesis
  proof cases
    case ok
    then show ?thesis by (intro waiting None wk sendMessage_activated)
  next
    case dir
    then show ?thesis by (intro directory None wk sendMessage_bad_directory)
  next
    case spawn
    note eq = sendMessage_start_failed [OF None wk spawn assms(1), of msg]
    show ?thesis
    proof (cases "getClientFromId (m_clientIdentifier msg) d")
      case None': None
      then show ?thesis using eq by (intro nobody None wk) simp_all
    next
      case (Some c)
      then show ?thesis using eq by (intro failed [of c] None wk) simp_all
    qed
  qed
qed

lemma sendMessage_ok:
  assumes "dispatcher_ok d" and "s \<in> set (m_services d)" and "sendMessage s msg d = Inr d'"
  shows "dispatcher_ok d' \<and> getServiceIDs d' = getServiceIDs d \<and> clients d' = clients d \<and> allocated d' = allocated d
       \<and> m_services d' = m_services d"
  using assms(1,2)
  by (cases rule: sendMessage_cases [of d s msg]) (use assms in \<open>auto simp: await_ok\<close>)

section \<open>Dispatching\<close>

text \<open>The service a request names, and the request as it is passed on.\<close>

definition target :: "Message \<Rightarrow> ServiceIDs" where
  "target msg = ServiceIDs_new (header_getServiceID msg) (m_instanceID msg)"

definition tagged :: "ClientIdentifier \<Rightarrow> Message \<Rightarrow> Message" where
  "tagged i msg = (if isRequestWithReturn msg then msg\<lparr>m_clientIdentifier := i\<rparr> else msg)"

definition counted :: "Dispatcher \<Rightarrow> Dispatcher" where
  "counted d = d\<lparr>m_messageCounter := m_messageCounter d + 1\<rparr>"

lemma counted_fields [simp]:
  "clients (counted d) = clients d" "allocated (counted d) = allocated d" "services (counted d) = services d"
  "nextService (counted d) = nextService d" "notifications (counted d) = notifications d"
  "nextNotification (counted d) = nextNotification d" "m_notifications (counted d) = m_notifications d"
  "m_services (counted d) = m_services d" "m_clients (counted d) = m_clients d"
  "m_disconnectedClients (counted d) = m_disconnectedClients d"
  "m_serviceRegistrationListeners (counted d) = m_serviceRegistrationListeners d"
  "m_nextAvailableClientID (counted d) = m_nextAvailableClientID d" "effects (counted d) = effects d"
  "canSpawn (counted d) = canSpawn d" "canChdir (counted d) = canChdir d"
  "getServiceIDs (counted d) = getServiceIDs d" "getClientFromId i (counted d) = getClientFromId i d"
  "dispatcher_ok (counted d) = dispatcher_ok d" "getService ids (counted d) = getService ids d"
  by (simp_all add: counted_def getServiceIDs_def getClientFromId_def getService_find fun_eq_iff)

lemma matchesRequest_target: "matchesRequest d s msg \<longleftrightarrow> getServiceIDs d s = target msg"
  by (cases "getServiceIDs d s") (auto simp: matchesRequest_def target_def ServiceIDs_new_def)

lemma target_tagged [simp]: "target (tagged i msg) = target msg"
  by (simp add: target_def tagged_def header_getServiceID_def)

definition route :: "Message \<Rightarrow> nat \<Rightarrow> bool \<times> Dispatcher \<Rightarrow> (bool \<times> Dispatcher) result" where
  "route msg = (\<lambda>s (bServiceFound, d). if matchesRequest d s msg
     then bindE (sendMessage s msg d) (\<lambda>d. Inr (True, d)) else Inr (bServiceFound, d))"

lemma route_step:
  "route msg s (b, d) = (if getServiceIDs d s = target msg
     then bindE (sendMessage s msg d) (\<lambda>d. Inr (True, d)) else Inr (b, d))"
  by (simp add: route_def matchesRequest_target)

lemma route_nobody:
  "\<forall>s \<in> set ss. getServiceIDs d s \<noteq> target msg \<Longrightarrow> foldE (route msg) ss (b, d) = Inr (b, d)"
  by (induction ss) (simp_all add: route_step)

text \<open>As services have distinct identifiers, the loop over all services sends to one at most.\<close>

lemma route_one:
  assumes "dispatcher_ok d" and "set ss \<subseteq> set (m_services d)" and "distinct (map (getServiceIDs d) ss)"
  shows "foldE (route msg) ss (b, d) =
      (case find (\<lambda>s. getServiceIDs d s = target msg) ss of
         None \<Rightarrow> Inr (b, d) | Some s \<Rightarrow> bindE (sendMessage s msg d) (\<lambda>d. Inr (True, d)))"
  using assms(2,3)
proof (induction ss)
  case (Cons s ss)
  show ?case
  proof (cases "getServiceIDs d s = target msg")
    case True
    with Cons.prems(2) have others: "\<forall>x \<in> set ss. getServiceIDs d x \<noteq> target msg"
      by (simp, metis image_eqI)
    show ?thesis
    proof (cases "sendMessage s msg d")
      case (Inr d')
      have "getServiceIDs d' = getServiceIDs d"
        using sendMessage_ok [OF assms(1) _ Inr] Cons.prems(1) by simp
      with True Inr others show ?thesis
        by (simp add: route_step route_nobody)
    qed (use True in \<open>simp add: route_step\<close>)
  next
    case False
    with Cons show ?thesis by (simp add: route_step)
  qed
qed simp

text \<open>The answer to a request for a service nobody provides.\<close>

definition unknown_service :: "Message \<Rightarrow> Message" where
  "unknown_service msg = (setMessageType (methodReturn msg) MT_ERROR)\<lparr>m_clientIdentifier := -1\<rparr>"

lemma dispatchMessage_request:
  assumes "dispatcher_ok d" and "\<not> isNotification msg" and "\<not> isReply msg"
  shows "dispatchMessage msg c d =
      (case getService (target msg) d of
         Some s \<Rightarrow> sendMessage s (tagged (m_id (clients d c)) msg) (counted d)
       | None \<Rightarrow> callClient c (SendOutputMessage c (unknown_service (tagged (m_id (clients d c)) msg))) (counted d))"
proof -
  let ?m = "tagged (m_id (clients d c)) msg"
  have "distinct (map (getServiceIDs (counted d)) (m_services d))"
    using assms(1) by (simp add: dispatcher_ok_def services_ok_def)
  then have "foldE (route ?m) (m_services d) (False, counted d) =
      (case getService (target msg) d of
         None \<Rightarrow> Inr (False, counted d) | Some s \<Rightarrow> bindE (sendMessage s ?m (counted d)) (\<lambda>d. Inr (True, d)))"
    using assms(1) by (simp add: route_one getService_find)
  moreover have "bindE (bindE r (\<lambda>d. Inr (True, d))) (\<lambda>(b, d). if \<not> b then f d else Inr d) = r"
    for r :: "Dispatcher result" and f
    by (cases r) simp_all
  ultimately show ?thesis
    using assms(2,3)
    by (simp add: dispatchMessage_def Let_def counted_def [symmetric] tagged_def [symmetric] route_def [symmetric]
        unknown_service_def split: option.splits)
qed

lemma dispatchMessage_reply:
  assumes "dispatcher_ok d" and "isReply msg"
  shows "dispatchMessage msg c d = Inr
      (case getClientFromId (m_clientIdentifier msg) d of
         None \<Rightarrow> counted d | Some client \<Rightarrow> record_calls [SendMessage client msg] (counted d))"
proof -
  have "\<not> isNotification msg" using assms(2) by (auto simp: isReply_def isNotification_def)
  with assms show ?thesis
    by (simp add: dispatchMessage_def Let_def counted_def [symmetric] callClient_allocated
        getClientFromId_allocated(1) [OF assms(1)] split: option.splits)
qed

definition notified :: "Message \<Rightarrow> MemberIDs" where
  "notified msg = MemberIDs_new (header_getServiceID msg) (m_instanceID msg) (header_getMemberID msg)"

lemma dispatchMessage_notification:
  assumes "dispatcher_ok d" and "isNotification msg" and "m_messageID msg \<noteq> SERVICE_DISCOVERY_MEMBER_ID"
    and "getOrCreateNotification (notified msg) (counted d) = Inr (n, d')" and "dispatcher_ok d'" and "n \<in> set (m_notifications d')"
  shows "dispatchMessage msg c d
       = Inr (record_calls (map (\<lambda>c. SendMessage c msg) (m_subscribedClients (notifications d' n))) d')"
  using assms
  by (simp add: dispatchMessage_def Let_def counted_def [symmetric] notified_def [symmetric]
      sendMessageToSubscribedClients_def foldE_callClient subscriber_registered(2))

lemma dispatchMessage_ok:
  assumes "dispatcher_ok d" and "m_registered (clients d c)" and "dispatchMessage msg c d = Inr d'"
  shows "dispatcher_ok d'"
proof -
  consider (notification) "isNotification msg" | (reply) "isReply msg" | (request) "\<not> isNotification msg" "\<not> isReply msg"
    by blast
  then show ?thesis
  proof cases
    case notification
    with assms(3) have "m_messageID msg \<noteq> SERVICE_DISCOVERY_MEMBER_ID" by (auto simp: dispatchMessage_def)
    moreover obtain n e where "getOrCreateNotification (notified msg) (counted d) = Inr (n, e)" "dispatcher_ok e" "n \<in> set (m_notifications e)"
      using assms(1) by (elim getOrCreateNotification_ok [of "counted d" "notified msg", simplified])
    ultimately show ?thesis using notification assms by (auto simp: dispatchMessage_notification)
  next
    case reply
    with assms show ?thesis by (auto simp: dispatchMessage_reply split: option.splits)
  next
    case request
    note eq = dispatchMessage_request [OF assms(1) request, of c]
    show ?thesis
    proof (cases "getService (target msg) d")
      case None
      with eq assms show ?thesis by (auto simp: callClient_allocated registered_allocated)
    next
      case (Some s)
      then have "s \<in> set (m_services (counted d))" using assms(1) by (simp add: getService_Some_iff dispatcher_ok_def)
      with Some eq assms sendMessage_ok [of "counted d" s] show ?thesis by auto
    qed
  qed
qed

lemma dispatchMessage_faults:
  assumes "dispatcher_ok d" and "m_registered (clients d c)" and "dispatchMessage msg c d = Inl f"
  shows "if isNotification msg then m_messageID msg = SERVICE_DISCOVERY_MEMBER_ID \<and> f = AssertFailed
         else \<exists>s. getService (target msg) d = Some s \<and> isWellKnown (services d s) \<and> m_client (services d s) = None
           \<and> (f = ExceptionThrown \<or> f = NullDereference \<and> \<not> isRequestWithReturn msg)"
proof -
  consider (notification) "isNotification msg" | (reply) "isReply msg" | (request) "\<not> isNotification msg" "\<not> isReply msg"
    by blast
  then show ?thesis
  proof cases
    case notification
    obtain n e where "getOrCreateNotification (notified msg) (counted d) = Inr (n, e)" "dispatcher_ok e" "n \<in> set (m_notifications e)"
      using assms(1) by (elim getOrCreateNotification_ok [of "counted d" "notified msg", simplified])
    with notification assms have "m_messageID msg = SERVICE_DISCOVERY_MEMBER_ID"
      by (cases "m_messageID msg = SERVICE_DISCOVERY_MEMBER_ID") (simp_all add: dispatchMessage_notification)
    with notification assms(3) show ?thesis by (simp add: dispatchMessage_def)
  next
    case reply
    with assms show ?thesis by (simp add: dispatchMessage_reply)
  next
    case request
    note eq = dispatchMessage_request [OF assms(1) request, of c]
    show ?thesis
    proof (cases "getService (target msg) d")
      case None
      with eq assms show ?thesis by (simp add: callClient_allocated registered_allocated)
    next
      case (Some s)
      then have s: "s \<in> set (m_services (counted d))" and d: "dispatcher_ok (counted d)"
        using assms(1) by (simp_all add: getService_Some_iff dispatcher_ok_def [of d])
      have "getClientFromId (m_id (clients d c)) d = Some c"
        using assms(1,2) by (rule getClientFromId_registered)
      then show ?thesis
        using Some eq assms(3) request(1)
        by (rule_tac sendMessage_cases [OF d s, of "tagged (m_id (clients d c)) msg"])
          (auto simp: tagged_def split: if_splits)
    qed
  qed
qed

section \<open>Commands\<close>

text \<open>What the rest of the daemon makes the dispatcher do.\<close>

datatype Command =
    Connect nat PingSender
  | Disconnect nat
  | Idle
  | RegisterService nat ServiceIDs bool
  | UnregisterService nat ServiceIDs
  | Subscribe nat MemberIDs
  | Incoming timeval nat Message
  | AddListener Listener
  | RemoveListener Listener
  | AddWellKnown ServiceIDs

fun execute :: "Command \<Rightarrow> Dispatcher \<Rightarrow> Dispatcher result" where
  "execute (Connect c p) d = registerClient c (newClient c p d)"
| "execute (Disconnect c) d = unregisterClient c d"
| "execute Idle d = Inr (cleanDisconnectedClients d)"
| "execute (RegisterService c ids isLocal) d =
     bindE (Client_registerService c ids isLocal d) (\<lambda>(_, d). Inr d)"
| "execute (UnregisterService c ids) d = Client_unregisterService c ids d"
| "execute (Subscribe c mid) d = subscribeToNotification c mid d"
| "execute (Incoming now c msg) d = processIncomingMessage now c msg d"
| "execute (AddListener l) d = Inr (addServiceRegistrationListener l d)"
| "execute (RemoveListener l) d = Inr (removeServiceRegistrationListener l d)"
| "execute (AddWellKnown ids) d =
     (let (s, d) = newService (WellKnownService_new ids) d in bindE (registerService s d) (\<lambda>(_, d). Inr d))"

text \<open>
  Only registered clients act, and the memory a new client is given is not in use.
\<close>

fun enabled :: "Command \<Rightarrow> Dispatcher \<Rightarrow> bool" where
  "enabled (Connect c p) d = (\<not> allocated d c)"
| "enabled (Disconnect c) d = allocated d c"
| "enabled (RegisterService c ids isLocal) d = m_registered (clients d c)"
| "enabled (UnregisterService c ids) d = m_registered (clients d c)"
| "enabled (Subscribe c mid) d = m_registered (clients d c)"
| "enabled (Incoming now c msg) d = m_registered (clients d c)"
| "enabled _ d = True"

inductive reachable :: "Dispatcher \<Rightarrow> bool" where
  reachable_start: "reachable (Dispatcher_new p spawn chdir)"
| reachable_step: "reachable d \<Longrightarrow> enabled cmd d \<Longrightarrow> execute cmd d = Inr d' \<Longrightarrow> reachable d'"

text \<open>A sequence of commands, each enabled when it is executed.\<close>

fun run :: "Command list \<Rightarrow> Dispatcher \<Rightarrow> Dispatcher result" where
  "run [] d = Inr d"
| "run (cmd # cmds) d = (if enabled cmd d then bindE (execute cmd d) (run cmds) else Inl AssertFailed)"

lemma run_reachable: "reachable d \<Longrightarrow> run cmds d = Inr d' \<Longrightarrow> reachable d'"
  by (induction cmds arbitrary: d) (auto simp: bindE_eq_Inr split: if_splits intro: reachable_step)

definition pinged :: "nat \<Rightarrow> PingSender \<Rightarrow> Dispatcher \<Rightarrow> Dispatcher" where
  "pinged c p = updClient c (\<lambda>x. x\<lparr>m_pingSender := p\<rparr>)"

lemma pinged_fields [simp]:
  "services (pinged c p d) = services d" "allocated (pinged c p d) = allocated d"
  "nextService (pinged c p d) = nextService d" "nextNotification (pinged c p d) = nextNotification d"
  "notifications (pinged c p d) = notifications d"
  "m_notifications (pinged c p d) = m_notifications d" "m_services (pinged c p d) = m_services d"
  "m_clients (pinged c p d) = m_clients d" "m_disconnectedClients (pinged c p d) = m_disconnectedClients d"
  "m_nextAvailableClientID (pinged c p d) = m_nextAvailableClientID d" "effects (pinged c p d) = effects d"
  "m_registered (clients (pinged c p d) c') = m_registered (clients d c')"
  "m_id (clients (pinged c p d) c') = m_id (clients d c')"
  "m_subscribedNotifications (clients (pinged c p d) c') = m_subscribedNotifications (clients d c')"
  "m_registeredServices (clients (pinged c p d) c') = m_registeredServices (clients d c')"
  "getServiceIDs (pinged c p d) = getServiceIDs d"
  by (simp_all add: pinged_def updClient_def getServiceIDs_def fun_eq_iff)

lemma pinged_ok [simp]: "dispatcher_ok (pinged c p d) = dispatcher_ok d"
  by (simp add: dispatcher_ok_def tables_ok getService_find cong: option.case_cong)

lemma processIncomingMessage_eq:
  "processIncomingMessage now c msg d =
     (if header_getMemberID msg = PING_MEMBER_ID \<and> header_getServiceID msg = DISPATCHER_SERVICE_ID \<and> isRequestWithReturn msg
      then callClient c (SendOutputMessage c (sendPongMessage msg)) d
      else if header_getMemberID msg = PING_MEMBER_ID \<and> header_getServiceID msg = ping_serviceID (m_pingSender (clients d c))
           \<and> \<not> isRequestWithReturn msg
      then Inr (pinged c (handlePingReply now (m_pingSender (clients d c))) d)
      else dispatchMessage msg c d)"
  by (simp add: processIncomingMessage_def SomeIPEndPoint_processMessage_def PingSender_processMessage_def pinged_def)

lemma processIncomingMessage_ok:
  assumes "dispatcher_ok d" and "m_registered (clients d c)" and "processIncomingMessage now c msg d = Inr d'"
  shows "dispatcher_ok d'"
  using assms dispatchMessage_ok [OF assms(1,2)]
  by (auto simp: processIncomingMessage_eq callClient_allocated registered_allocated split: if_splits)

lemma listeners_ok [simp]: "dispatcher_ok (d\<lparr>m_serviceRegistrationListeners := ls\<rparr>) = dispatcher_ok d"
proof -
  have "getServiceIDs (d\<lparr>m_serviceRegistrationListeners := ls\<rparr>) = getServiceIDs d" by (simp add: getServiceIDs_def fun_eq_iff)
  then show ?thesis by (simp add: dispatcher_ok_def tables_ok getService_find cong: option.case_cong)
qed

text \<open>A well known service.\<close>

definition known :: "ServiceIDs \<Rightarrow> Dispatcher \<Rightarrow> Dispatcher" where
  "known ids d = d\<lparr>services := (services d)(nextService d := WellKnownService_new ids), nextService := Suc (nextService d)\<rparr>"

lemma known_fields [simp]:
  "clients (known ids d) = clients d" "allocated (known ids d) = allocated d"
  "services (known ids d) = (services d)(nextService d := WellKnownService_new ids)"
  "nextService (known ids d) = Suc (nextService d)" "nextNotification (known ids d) = nextNotification d"
  "notifications (known ids d) = notifications d" "m_notifications (known ids d) = m_notifications d"
  "m_services (known ids d) = m_services d" "m_clients (known ids d) = m_clients d"
  "m_disconnectedClients (known ids d) = m_disconnectedClients d"
  "m_nextAvailableClientID (known ids d) = m_nextAvailableClientID d"
  "getServiceIDs (known ids d) = (getServiceIDs d)(nextService d := ids)"
  by (auto simp: known_def getServiceIDs_def WellKnownService_new_def)

lemma known_tables:
  assumes "dispatcher_ok d"
  shows "nextService d \<notin> set (m_services d)" and "owners_ok (known ids d)" and "subscriptions_ok (known ids d)"
    and "clients_ok (known ids d)" and "getService i (known ids d) = getService i d"
proof -
  show new: "nextService d \<notin> set (m_services d)" using assms by (auto simp: dispatcher_ok_def services_ok_def)
  have "s < nextService d \<and> m_client (services d s) = Some c" if "s \<in> set (m_registeredServices (clients d c))" for c s
    using that assms by (auto simp: dispatcher_ok_def owners_ok_def)
  moreover have "m_pendingMessages (services d s) = []" if "m_client (services d s) \<noteq> None" for s
    using that assms unfolding dispatcher_ok_def owners_ok_def by blast
  ultimately show "owners_ok (known ids d)" unfolding owners_ok_def
    by (auto simp: WellKnownService_new_def less_Suc_eq)
  show "subscriptions_ok (known ids d)" "clients_ok (known ids d)"
    using assms by (simp_all add: dispatcher_ok_def subscriptions_ok_def clients_ok_def)
  show "getService i (known ids d) = getService i d"
    unfolding getService_find known_fields using new by (intro find_cong_set) auto
qed

lemma execute_AddWellKnown:
  assumes "dispatcher_ok d"
  shows "execute (AddWellKnown ids) d = Inr (if getService ids d = None then register (nextService d) (known ids d) else known ids d)"
proof -
  have new: "newService (WellKnownService_new ids) d = (nextService d, known ids d)"
    by (simp add: newService_def known_def)
  note tables = known_tables [OF assms]
  have ids: "getServiceIDs (known ids d) (nextService d) = ids" by simp
  show ?thesis
  proof (cases "getService ids d")
    case None
    then have "\<forall>e \<in> set (m_services (known ids d)). getServiceIDs (known ids d) e \<noteq> getServiceIDs (known ids d) (nextService d)"
      using tables(5) [of ids ids] by (simp only: ids getService_None_iff [symmetric])
    moreover have "service_live (known ids d) (nextService d)" by (simp add: service_live_def WellKnownService_new_def)
    ultimately show ?thesis using None new by (simp add: registerService_new)
  next
    case (Some s)
    then have "s \<in> set (m_services (known ids d))" "getServiceIDs (known ids d) s = ids"
      using assms tables(1) by (auto simp: getService_Some_iff dispatcher_ok_def)
    with Some new show ?thesis by (simp add: registerService_duplicate [of s])
  qed
qed

lemma register_tables:
  "owners_ok d \<Longrightarrow> owners_ok (register s d)" "subscriptions_ok d \<Longrightarrow> subscriptions_ok (register s d)"
  "clients_ok d \<Longrightarrow> clients_ok (register s d)"
  by (simp_all add: owners_ok_def subscriptions_ok_def clients_ok_def)

lemma AddWellKnown_ok:
  assumes "dispatcher_ok d" and "execute (AddWellKnown ids) d = Inr d'"
  shows "dispatcher_ok d'"
proof -
  note tables = known_tables [OF assms(1)]
  have ok: "services_ok d" "notifications_ok d" using assms(1) by (simp_all add: dispatcher_ok_def)
  have "map (getServiceIDs (known ids d)) (m_services d) = map (getServiceIDs d) (m_services d)"
    using tables(1) by (intro map_cong) auto
  then have s: "services_ok (known ids d)"
    using ok(1) tables(1) by (auto simp: services_ok_def less_Suc_eq split: option.splits)
  moreover have "notifications_ok (known ids d)" using ok(2) by (simp add: notifications_ok_def tables(5))
  ultimately have k: "dispatcher_ok (known ids d)" using tables(2-4) by (simp add: dispatcher_ok_def)
  let ?r = "register (nextService d) (known ids d)"
  have "dispatcher_ok ?r" if free: "getService ids d = None"
  proof -
    have "getService i ?r = (if i = ids then Some (nextService d) else getService i d)" for i
      using tables(1) by (intro getService_appended free) simp_all
    then have "notifications_ok ?r" using ok(2) by (auto simp: notifications_ok_def)
    moreover have "services_ok ?r"
      using s free tables(1) tables(5) [of ids ids]
      by (auto simp: services_ok_def getService_None_iff WellKnownService_new_def split: option.splits)
    ultimately show ?thesis using tables(2-4) by (simp add: dispatcher_ok_def register_tables)
  qed
  with k assms show ?thesis by (auto simp: execute_AddWellKnown simp del: execute.simps split: if_splits)
qed

lemma execute_ok:
  assumes "dispatcher_ok d" and "enabled cmd d" and "execute cmd d = Inr d'"
  shows "dispatcher_ok d'"
proof (cases cmd)
  case (Connect c p)
  with assms show ?thesis
    by (auto simp: registerClient_new join_ok dispatcher_ok_def [of d] split: if_splits)
next
  case (Disconnect c)
  with assms show ?thesis
    by (cases "m_registered (clients d c)") (auto simp: unregisterClient_eq leave_ok, simp add: unregisterClient_def)
next
  case (RegisterService c ids isLocal)
  with assms Client_registerService_ok [of d c ids isLocal] show ?thesis by auto
next
  case (UnregisterService c ids)
  with assms Client_unregisterService_ok [of d c ids] show ?thesis by auto
next
  case (Subscribe c mid)
  with assms subscribeToNotification_ok [of d c mid] show ?thesis by auto
next
  case (AddWellKnown ids)
  with assms show ?thesis by (auto intro: AddWellKnown_ok simp del: execute.simps)
qed (use assms in \<open>auto simp: cleanDisconnectedClients_ok processIncomingMessage_ok
  addServiceRegistrationListener_def removeServiceRegistrationListener_def\<close>)

lemma reachable_ok: "reachable d \<Longrightarrow> dispatcher_ok d"
  by (induction rule: reachable.induct) (auto intro: Dispatcher_new_ok execute_ok)

end
