(* ===== verification/Dispatcher_Properties.thy ===== *)
theory Dispatcher_Properties
  imports Dispatcher_Routing
begin

text \<open>
  What clients of the daemon can rely on, for every state the dispatcher can get into. The
  witnesses run a small system: client 0 provides the service 0x1234 instance 1, client 1
  uses it and has subscribed to its member 0x8005.
\<close>

section \<open>An example\<close>

definition example_ping :: PingSender where
  "example_ping = \<lparr>maxRTTDelay = 0, m_lastPingDate = \<lparr>tv_sec = 0, tv_usec = 0\<rparr>,
     ping_serviceID = DISPATCHER_SERVICE_ID, m_pongPending = False\<rparr>"

definition example_commands :: "Command list" where
  "example_commands = [AddListener TCPManagerListener, AddListener ServiceAnnouncerListener,
     AddWellKnown (ServiceIDs_new 0x4444 1), Connect 0 example_ping, Connect 1 example_ping,
     RegisterService 0 (ServiceIDs_new 0x1234 1) True, Subscribe 1 (MemberIDs_new 0x1234 1 0x8005)]"

definition example_state :: "bool \<Rightarrow> Dispatcher" where
  "example_state spawn = (case run example_commands (Dispatcher_new example_ping (\<lambda>_. spawn) (\<lambda>_. True)) of
     Inl _ \<Rightarrow> Dispatcher_new example_ping (\<lambda>_. spawn) (\<lambda>_. True) | Inr d \<Rightarrow> d)"

lemma example_reachable: "reachable (example_state spawn)"
proof (cases "run example_commands (Dispatcher_new example_ping (\<lambda>_. spawn) (\<lambda>_. True))")
  case (Inl e)
  then show ?thesis by (simp add: example_state_def reachable_start)
next
  case (Inr d)
  then show ?thesis using run_reachable [OF reachable_start Inr] by (simp add: example_state_def)
qed



definition example_message :: "MessageType \<Rightarrow> MessageID \<Rightarrow> Message" where
  "example_message t i = snd (Message_new 0x1000 (MemberIDs_new 0 1 0))\<lparr>m_messageID := i, m_messageType := t\<rparr>"

section \<open>Consistency and safety\<close>

text \<open>
  C1. In every state the dispatcher can reach its tables agree with each other: registered
  services have distinct identifiers, and each belongs to a registered client that lists it
  or is a well known service nobody has taken yet; there is one notification for a member,
  and its provider is the service registered for the member; a client is among the
  subscribers as often as it has subscribed, and not at all once it is gone; the table of
  clients is indexed by their identifiers; registered clients have not been deleted.
\<close>

theorem dispatcher_tables_consistent:
  assumes "reachable d"
  shows "services_ok d \<and> owners_ok d \<and> notifications_ok d \<and> subscriptions_ok d \<and> clients_ok d"
  using reachable_ok [OF assms] by (simp add: dispatcher_ok_def)

theorem dispatcher_tables_consistent_witness:
  "services_ok (example_state True) \<and> owners_ok (example_state True) \<and> notifications_ok (example_state True)
   \<and> subscriptions_ok (example_state True) \<and> clients_ok (example_state True) \<and> m_services (example_state True) = [0, 1]"
proof -
  have "m_services (example_state True) = [0, 1]" by code_simp
  with dispatcher_tables_consistent [OF example_reachable, of True] show ?thesis by blast
qed



section \<open>Requests and answers\<close>

text \<open>
  C2. A request with return reaches the client of the service it names, that client only and
  once, with the identifier of the asking client filled in; and whatever answer with this
  identifier that client gives, by a response or an error, reaches the asking client, it
  only and once.
\<close>

theorem request_answer_round_trip:
  assumes "reachable d" and "m_registered (clients d c)" and "isRequestWithReturn msg"
    and "getService (target msg) d = Some s" and "m_client (services d s) = Some provider"
  shows "\<exists>d'. dispatchMessage msg c d = Inr d'
       \<and> effects d' = effects d @ [SendMessage provider (msg\<lparr>m_clientIdentifier := m_id (clients d c)\<rparr>)]
       \<and> (\<forall>answer. isReply answer \<longrightarrow> m_clientIdentifier answer = m_id (clients d c) \<longrightarrow>
            (\<exists>d''. dispatchMessage answer provider d' = Inr d'' \<and> effects d'' = effects d' @ [SendMessage c answer]))"
proof -
  have ok: "dispatcher_ok d" using assms(1) by (rule reachable_ok)
  have s: "s \<in> set (m_services d)" using assms(4) ok by (simp add: getService_Some_iff dispatcher_ok_def)
  then have "allocated d provider" using registered_service_live [OF ok s] assms(5) by (simp add: service_live_def)
  moreover have "\<not> isNotification msg" "\<not> isReply msg"
    using assms(3) by (simp_all add: isRequestWithReturn_def isNotification_def isReply_def)
  ultimately have "dispatchMessage msg c d
      = Inr (record_calls [SendMessage provider (msg\<lparr>m_clientIdentifier := m_id (clients d c)\<rparr>)] (counted d))"
    using assms(3-5) by (simp add: dispatchMessage_request [OF ok] tagged_def sendMessage_client)
  moreover have "getClientFromId (m_id (clients d c)) (record_calls es (counted d)) = Some c" for es
    using getClientFromId_registered [OF ok assms(2)] by (simp add: getClientFromId_def split: if_splits)
  ultimately show ?thesis using ok by (simp add: dispatchMessage_reply)
qed

theorem request_answer_round_trip_witness:
  "\<exists>d'. dispatchMessage (example_message REQUEST 0x12340007) 1 (example_state True) = Inr d'
     \<and> effects d' = effects (example_state True) @ [SendMessage 0 ((example_message REQUEST 0x12340007)\<lparr>m_clientIdentifier := 1\<rparr>)]
     \<and> (\<exists>d''. dispatchMessage ((example_message RESPONSE 0x12340007)\<lparr>m_clientIdentifier := 1\<rparr>) 0 d' = Inr d''
          \<and> effects d'' = effects d' @ [SendMessage 1 ((example_message RESPONSE 0x12340007)\<lparr>m_clientIdentifier := 1\<rparr>)])"
proof -
  have "m_registered (clients (example_state True) 1)" "isRequestWithReturn (example_message REQUEST 0x12340007)"
    "getService (target (example_message REQUEST 0x12340007)) (example_state True) = Some 1"
    "m_client (services (example_state True) 1) = Some 0" "m_id (clients (example_state True) 1) = 1"
    "isReply ((example_message RESPONSE 0x12340007)\<lparr>m_clientIdentifier := 1\<rparr>)"
    by code_simp+
  then show ?thesis using request_answer_round_trip [OF example_reachable, of True 1 "example_message REQUEST 0x12340007" 1 0]
    by auto
qed

text \<open>
  C20. A request for a service that is not registered is answered to the client that sent it,
  by one error message for the same message, instance and request; nothing else is sent.
\<close>

theorem unknown_service_answered:
  assumes "reachable d" and "m_registered (clients d c)" and "\<not> isNotification msg" and "\<not> isReply msg"
    and "getService (target msg) d = None"
  shows "\<exists>d' answer. dispatchMessage msg c d = Inr d' \<and> effects d' = effects d @ [SendOutputMessage c answer]
       \<and> m_messageType answer = MT_ERROR \<and> m_messageID answer = m_messageID msg \<and> m_instanceID answer = m_instanceID msg
       \<and> m_requestID answer = m_requestID msg \<and> payload answer = []
       \<and> m_services d' = m_services d \<and> m_notifications d' = m_notifications d"
proof -
  have ok: "dispatcher_ok d" using assms(1) by (rule reachable_ok)
  have "dispatchMessage msg c d
      = Inr (record_calls [SendOutputMessage c (unknown_service (tagged (m_id (clients d c)) msg))] (counted d))"
    using assms(2-) registered_allocated [OF ok assms(2)] by (simp add: dispatchMessage_request [OF ok] callClient_allocated)
  then show ?thesis
    by (simp add: unknown_service_def methodReturn_def setMessageType_def tagged_def)
qed

theorem unknown_service_answered_witness:
  "\<exists>d' answer. dispatchMessage (example_message REQUEST 0x99990007) 1 (example_state True) = Inr d'
     \<and> effects d' = effects (example_state True) @ [SendOutputMessage 1 answer]
     \<and> m_messageType answer = MT_ERROR \<and> m_messageID answer = 0x99990007"
proof -
  let ?m = "example_message REQUEST 0x99990007"
  have "m_registered (clients (example_state True) 1)" "\<not> isNotification ?m" "\<not> isReply ?m"
    "getService (target ?m) (example_state True) = None" "m_messageID ?m = 0x99990007"
    by code_simp+
  then show ?thesis using unknown_service_answered [OF example_reachable, of True 1 ?m] by auto
qed

section \<open>Notifications\<close>





section \<open>Clients that leave\<close>



end
