(* ===== verification/Activation.thy ===== *)
theory Activation
  imports Dispatcher_Properties
begin

text \<open>
  Services started on demand: what happens to the requests for a \<open>WellKnownService\<close> that is
  not running, and \<open>WellKnownServiceManager\<close> of \<open>daemon/Activation.cpp\<close>, which makes them
  from the files of a directory.
\<close>

section \<open>The manager of the well known services\<close>








definition WellKnownServiceManager_delete :: "nat list \<Rightarrow> Dispatcher \<Rightarrow> Dispatcher result" where
  "WellKnownServiceManager_delete ss d = foldE unregisterService ss d"










section \<open>Services started on demand\<close>

lemma waiting_requests:
  assumes "dispatcher_ok d" and "s \<in> set (m_services d)" and "m_client (services d s) = None" and "isWellKnown (services d s)"
    and "m_state (services d s) = STARTING \<or> canChdir d s \<and> canSpawn d s"
    and "\<forall>(msg, c) \<in> set requests. \<not> isNotification msg \<and> \<not> isReply msg \<and> target msg = getServiceIDs d s"
  shows "\<exists>d'. foldE (\<lambda>(msg, c). dispatchMessage msg c) requests d = Inr d' \<and> dispatcher_ok d' \<and> effects d' = effects d
       \<and> m_services d' = m_services d \<and> getServiceIDs d' = getServiceIDs d \<and> clients d' = clients d
       \<and> m_client (services d' s) = None
       \<and> m_pendingMessages (services d' s)
           = m_pendingMessages (services d s) @ map (\<lambda>(msg, c). tagged (m_id (clients d c)) msg) requests"
  using assms
proof (induction requests arbitrary: d)
  case (Cons r requests)
  obtain msg c where r: "r = (msg, c)" by (cases r)
  let ?d = "await STARTING [tagged (m_id (clients d c)) msg] s (counted d)"
  have "getService (target msg) d = Some s"
    using Cons.prems(1,2,6) r by (simp add: getService_Some_iff dispatcher_ok_def)
  then have "dispatchMessage msg c d = Inr ?d"
    using Cons.prems r by (simp add: dispatchMessage_request sendMessage_activated)
  moreover have "dispatcher_ok ?d" using Cons.prems(1,3) by (simp add: await_ok)
  moreover have "m_state (services ?d s) = STARTING" by (simp add: await_def updService_def)
  ultimately show ?case using Cons.IH [of ?d] Cons.prems r by (simp add: case_prod_unfold)
qed simp

text \<open>
  C11. Requests for a well known service that is not running are kept while it starts: when a
  client registers the service it gets all of them, in the order in which they came in, each
  once and marked with the client to answer, and nothing stays behind.
\<close>

theorem well_known_requests_delivered:
  assumes "reachable d" and "s \<in> set (m_services d)" and "m_client (services d s) = None"
    and "m_state (services d s) = STARTING \<or> canChdir d s \<and> canSpawn d s"
    and "\<forall>(msg, c) \<in> set requests. \<not> isNotification msg \<and> \<not> isReply msg \<and> target msg = getServiceIDs d s"
    and "m_registered (clients d provider)" and "m_pendingMessages (services d s) = []"
  shows "\<exists>d' d''. foldE (\<lambda>(msg, c). dispatchMessage msg c) requests d = Inr d'
       \<and> Client_registerService provider (getServiceIDs d s) True d' = Inr (Some s, d'')
       \<and> effects d'' = effects d @ map (\<lambda>(msg, c). SendIPCMessage provider (tagged (m_id (clients d c)) msg)) requests
       \<and> m_client (services d'' s) = Some provider \<and> m_pendingMessages (services d'' s) = []"
proof -
  have ok: "dispatcher_ok d" using assms(1) by (rule reachable_ok)
  then have "isWellKnown (services d s)" using assms(2,3) by (auto simp: dispatcher_ok_def services_ok_def)
  then obtain d' where d': "foldE (\<lambda>(msg, c). dispatchMessage msg c) requests d = Inr d'" "dispatcher_ok d'"
    "effects d' = effects d" "m_services d' = m_services d" "getServiceIDs d' = getServiceIDs d" "clients d' = clients d"
    "m_client (services d' s) = None"
    "m_pendingMessages (services d' s) = map (\<lambda>(msg, c). tagged (m_id (clients d c)) msg) requests"
    using waiting_requests [OF ok assms(2,3) _ assms(4,5)] assms(7) by auto
  have "getService (getServiceIDs d s) d' = Some s"
    using assms(2) d' by (simp add: getService_Some_iff dispatcher_ok_def)
  then have "Client_registerService provider (getServiceIDs d s) True d' = Inr (Some s, listService provider s (attach s provider d'))"
    using d' assms(6) by (simp add: Client_registerService_def tryRegisterService_known listService_def)
  with d' show ?thesis by (simp add: comp_def case_prod_unfold)
qed

theorem well_known_requests_delivered_witness:
  "\<exists>d' d''. foldE (\<lambda>(msg, c). dispatchMessage msg c) [(example_message REQUEST 0x44440007, 1), (example_message REQUEST_NO_RETURN 0x44440008, 0)]
       (example_state True) = Inr d'
     \<and> Client_registerService 0 (ServiceIDs_new 0x4444 1) True d' = Inr (Some 0, d'')
     \<and> effects d'' = effects (example_state True)
          @ [SendIPCMessage 0 ((example_message REQUEST 0x44440007)\<lparr>m_clientIdentifier := 1\<rparr>),
             SendIPCMessage 0 (example_message REQUEST_NO_RETURN 0x44440008)]"
proof -
  let ?r = "[(example_message REQUEST 0x44440007, 1), (example_message REQUEST_NO_RETURN 0x44440008, 0)]"
  have facts: "0 \<in> set (m_services (example_state True))" "m_client (services (example_state True) 0) = None"
    "canChdir (example_state True) 0 \<and> canSpawn (example_state True) 0"
    "\<forall>(msg, c) \<in> set ?r. \<not> isNotification msg \<and> \<not> isReply msg \<and> target msg = getServiceIDs (example_state True) 0"
    "m_registered (clients (example_state True) 0)" "m_pendingMessages (services (example_state True) 0) = []"
    "getServiceIDs (example_state True) 0 = ServiceIDs_new 0x4444 1"
    "map (\<lambda>(msg, c). SendIPCMessage 0 (tagged (m_id (clients (example_state True) c)) msg)) ?r
       = [SendIPCMessage 0 ((example_message REQUEST 0x44440007)\<lparr>m_clientIdentifier := 1\<rparr>),
          SendIPCMessage 0 (example_message REQUEST_NO_RETURN 0x44440008)]"
    by code_simp+
  show ?thesis
    using well_known_requests_delivered [OF example_reachable facts(1,2) disjI2 [OF facts(3)] facts(4-6)]
    unfolding facts(7,8) by blast
qed



end
