(* ===== verification/Local_Client.thy ===== *)
theory Local_Client
  imports Dispatcher_Properties
begin

text \<open>
  The applications connected to the daemon: \<open>LocalClient\<close> of \<open>daemon/LocalClient.h\<close> and
  \<open>daemon/LocalClient.cpp\<close>, and \<open>LocalServer\<close>, which makes them. An IPC message of an
  application is handled by the dispatcher and answered; what the daemon writes to the
  connection of the client is recorded as \<open>WriteIPC\<close> among the calls of the dispatcher. The
  connection itself is in the theory \<open>Socket_Stream\<close>.
\<close>

section \<open>Messages to the application\<close>

definition write_ids :: "endianness \<Rightarrow> IPCMessage \<Rightarrow> ServiceIDs \<Rightarrow> IPCMessage" where
  "write_ids h msg ids = IPC_write h (IPC_write h msg (serviceID ids)) (instanceID ids)"

text \<open>The message of \<open>sendRegistry\<close> and those of the listener functions.\<close>

definition registry_message :: "endianness \<Rightarrow> Dispatcher \<Rightarrow> IPCMessage" where
  "registry_message h d =
     fold (\<lambda>s msg. write_ids h msg (getServiceIDs d s)) (m_services d) (IPCOutputMessage_new h SERVICES_REGISTERED)"

definition writeNonBlocking :: "nat \<Rightarrow> IPCMessage \<Rightarrow> Dispatcher \<Rightarrow> Dispatcher result" where
  "writeNonBlocking c msg = callClient c (WriteIPC c msg)"

definition sendRegistry :: "endianness \<Rightarrow> nat \<Rightarrow> Dispatcher \<Rightarrow> Dispatcher result" where
  "sendRegistry h c d = writeNonBlocking c (registry_message h d) d"

definition LocalClient_onServiceRegistered :: "endianness \<Rightarrow> bool \<Rightarrow> nat \<Rightarrow> nat \<Rightarrow> Dispatcher \<Rightarrow> Dispatcher result" where
  "LocalClient_onServiceRegistered h connected c service d =
     (if connected
      then writeNonBlocking c (write_ids h (IPCOutputMessage_new h SERVICES_REGISTERED) (getServiceIDs d service)) d
      else Inr d)"

definition LocalClient_onServiceUnregistered :: "endianness \<Rightarrow> bool \<Rightarrow> nat \<Rightarrow> nat \<Rightarrow> Dispatcher \<Rightarrow> Dispatcher result" where
  "LocalClient_onServiceUnregistered h connected c service d =
     (if connected
      then writeNonBlocking c (write_ids h (IPCOutputMessage_new h SERVICES_UNREGISTERED) (getServiceIDs d service)) d
      else Inr d)"

section \<open>Connecting and disconnecting\<close>

text \<open>
  \<open>initConnection\<close> is what \<open>init\<close>, the call recorded as \<open>InitClient\<close>, does for a local client:
  it watches the socket and sends the registry. It is the last thing \<open>registerClient\<close> calls.
\<close>

definition initConnection :: "endianness \<Rightarrow> nat \<Rightarrow> Dispatcher \<Rightarrow> Dispatcher result" where
  "initConnection h c d = sendRegistry h c d"

definition LocalClient_registerClient :: "endianness \<Rightarrow> nat \<Rightarrow> Dispatcher \<Rightarrow> Dispatcher result" where
  "LocalClient_registerClient h c d =
     bindE (if \<not> m_registered (clients d c) then bindE (registerClient c d) (initConnection h c) else registerClient c d)
       (\<lambda>d. Inr (addServiceRegistrationListener (LocalClientListener c) d))"

definition createNewClientConnection :: "endianness \<Rightarrow> nat \<Rightarrow> PingSender \<Rightarrow> Dispatcher \<Rightarrow> Dispatcher result" where
  "createNewClientConnection h c p d = LocalClient_registerClient h c (newClient c p d)"

definition LocalClient_onDisconnected :: "nat \<Rightarrow> Dispatcher \<Rightarrow> Dispatcher result" where
  "LocalClient_onDisconnected c d = unregisterClient c (removeServiceRegistrationListener (LocalClientListener c) d)"

section \<open>Messages of the application\<close>

text \<open>\<open>reader >> v\<close> does not check that there are enough bytes.\<close>

definition reader_get :: "endianness \<Rightarrow> Deserializer \<Rightarrow> ('a::len word \<times> Deserializer) result" where
  "reader_get h r = (case IPC_read h r of None \<Rightarrow> Inl OutOfBounds | Some x \<Rightarrow> Inr x)"

definition read_ids :: "endianness \<Rightarrow> Deserializer \<Rightarrow> (ServiceIDs \<times> Deserializer) result" where
  "read_ids h r = bindE (reader_get h r) (\<lambda>(s, r). bindE (reader_get h r) (\<lambda>(i, r). Inr (ServiceIDs_new s i, r)))"

text \<open>\<open>readMessageFromIPCMessage\<close>: the message laid over the user data.\<close>

definition readMessageFromIPCMessage :: "endianness \<Rightarrow> 'a IPCMessage_scheme \<Rightarrow> Message result" where
  "readMessageFromIPCMessage h msg =
     (if getUserDataLength msg < sizeof_MessageHeader then Inl OutOfBounds
      else Inr (MessageHeader.extend (InputMessage_getHeader h msg) (Message.fields (InputMessage_getPayload msg))))"

text \<open>
  \<open>dump\<close> is the text of \<open>dumpState\<close>, and \<open>currentTime\<close> what \<open>gettimeofday\<close> returns.
\<close>

definition LocalClient_handleIncomingIPCMessage ::
    "endianness \<Rightarrow> (Dispatcher \<Rightarrow> u8 list) \<Rightarrow> timeval \<Rightarrow> nat \<Rightarrow> 'a IPCMessage_scheme \<Rightarrow> Dispatcher \<Rightarrow> Dispatcher result" where
  "LocalClient_handleIncomingIPCMessage h dump currentTime c inputMessage d =
     (let reader = IPCInputMessageReader inputMessage
      in case IPCMessage_getMessageType h inputMessage of
           SEND_MESSAGE \<Rightarrow>
             bindE (readMessageFromIPCMessage h inputMessage) (\<lambda>msg. processIncomingMessage currentTime c msg d)
         | REGISTER_SERVICE \<Rightarrow>
             bindE (read_ids h reader) (\<lambda>(ids, _).
             bindE (Client_registerService c ids True d) (\<lambda>(service, d).
               let returnCode = (if service \<noteq> None then IPC_RC_OK else IPC_RC_ERROR)
               in writeNonBlocking c (IPCOutputMessage_answer h inputMessage returnCode) d))
         | UNREGISTER_SERVICE \<Rightarrow>
             bindE (read_ids h reader) (\<lambda>(ids, _).
             bindE (case findService d ids (m_registeredServices (clients d c)) of
                      None \<Rightarrow> Inr (IPC_RC_ERROR, d)
                    | Some s \<Rightarrow> bindE (unregisterService s d) (\<lambda>d.
                        Inr (IPC_RC_OK, updClient c (\<lambda>x. x\<lparr>m_registeredServices :=
                           removeFromVector (m_registeredServices x) s\<rparr>) d))) (\<lambda>(returnCode, d).
               writeNonBlocking c (IPCOutputMessage_answer h inputMessage returnCode) d))
         | GET_SERVICE_LIST \<Rightarrow>
             writeNonBlocking c (fold (\<lambda>s msg. write_ids h msg (getServiceIDs d s)) (m_services d)
               (IPCOutputMessage_answer h inputMessage IPC_RC_OK)) d
         | SUBSCRIBE_NOTIFICATION \<Rightarrow>
             bindE (read_ids h reader) (\<lambda>(ids, reader).
             bindE (reader_get h reader) (\<lambda>(member, _).
               subscribeToNotification c \<lparr>m_serviceIDs = ids, m_memberID = member\<rparr> d))
         | DUMP_STATE \<Rightarrow>
             writeNonBlocking c (IPC_write_string h (IPCOutputMessage_answer h inputMessage IPC_RC_OK) (dump d)) d
         | _ \<Rightarrow> Inr d)"

section \<open>Lemmas\<close>

abbreviation ids_bytes :: "endianness \<Rightarrow> ServiceIDs \<Rightarrow> u8 list" where
  "ids_bytes h ids \<equiv> object_bytes h (serviceID ids) @ object_bytes h (instanceID ids)"

lemma write_ids_view:
  "ipc_view h msg hdr user \<Longrightarrow> ipc_view h (write_ids h msg ids) hdr (user @ ids_bytes h ids)"
  unfolding write_ids_def by (drule ipc_view_write [where v = "serviceID ids"], simp)
    (drule ipc_view_write [where v = "instanceID ids"], simp_all)

lemma fold_write_ids_view:
  "ipc_view h msg hdr user \<Longrightarrow>
   ipc_view h (fold (\<lambda>s msg. write_ids h msg (f s)) ss msg) hdr (user @ concat (map (\<lambda>s. ids_bytes h (f s)) ss))"
proof (induction ss arbitrary: msg user)
  case (Cons s ss)
  from Cons.IH [OF write_ids_view [OF Cons.prems]] show ?case by simp
qed simp

lemma reader_get_dser:
  "byte_multiple TYPE('a) \<Longrightarrow>
   reader_get h (dser pre (object_bytes h (v :: 'a::len word) @ rest)) = Inr (v, dser (pre @ object_bytes h v) rest)"
  by (simp add: reader_get_def IPC_read_dser)

lemma read_ids_dser:
  "read_ids h (dser pre (ids_bytes h ids @ rest)) = Inr (ids, dser (pre @ ids_bytes h ids) rest)"
  by (simp add: read_ids_def reader_get_dser ServiceIDs_new_def)

lemma writeNonBlocking_registered:
  "dispatcher_ok d \<Longrightarrow> m_registered (clients d c) \<Longrightarrow> writeNonBlocking c msg d = Inr (record_calls [WriteIPC c msg] d)"
  by (simp add: writeNonBlocking_def callClient_allocated registered_allocated)

lemma handle_register:
  assumes "ipc_view h msg hdr (ids_bytes h ids @ rest)" and "ipc_messageType hdr = REGISTER_SERVICE"
  shows "LocalClient_handleIncomingIPCMessage h dump now c msg d =
      bindE (Client_registerService c ids True d) (\<lambda>(service, d).
        writeNonBlocking c (IPCOutputMessage_answer h msg (if service \<noteq> None then IPC_RC_OK else IPC_RC_ERROR)) d)"
  using assms read_ids_dser [of h "[]" ids rest]
  by (simp add: LocalClient_handleIncomingIPCMessage_def ipc_view_fields IPCInputMessageReader_view Let_def)

text \<open>The loop in the handler unregisters a service as \<open>Client::unregisterService\<close> does.\<close>

lemma handle_unregister:
  assumes "ipc_view h msg hdr (ids_bytes h ids @ rest)" and "ipc_messageType hdr = UNREGISTER_SERVICE"
  shows "LocalClient_handleIncomingIPCMessage h dump now c msg d =
      bindE (Client_unregisterService c ids d) (\<lambda>d'. writeNonBlocking c (IPCOutputMessage_answer h msg
        (if findService d ids (m_registeredServices (clients d c)) \<noteq> None then IPC_RC_OK else IPC_RC_ERROR)) d')"
  using assms read_ids_dser [of h "[]" ids rest]
  by (simp add: LocalClient_handleIncomingIPCMessage_def ipc_view_fields IPCInputMessageReader_view Let_def
      Client_unregisterService_def unregisterService_eq split: option.splits)

lemma handle_subscribe:
  assumes "ipc_view h msg hdr (ids_bytes h (m_serviceIDs mid) @ object_bytes h (m_memberID mid) @ rest)"
    and "ipc_messageType hdr = SUBSCRIBE_NOTIFICATION"
  shows "LocalClient_handleIncomingIPCMessage h dump now c msg d = subscribeToNotification c mid d"
  using assms read_ids_dser [of h "[]" "m_serviceIDs mid" "object_bytes h (m_memberID mid) @ rest"]
    reader_get_dser [of h "ids_bytes h (m_serviceIDs mid)" "m_memberID mid" rest]
  by (cases mid) (simp add: LocalClient_handleIncomingIPCMessage_def ipc_view_fields IPCInputMessageReader_view Let_def)

lemma handle_service_list:
  assumes "ipc_view h msg hdr user" and "ipc_messageType hdr = GET_SERVICE_LIST"
  shows "LocalClient_handleIncomingIPCMessage h dump now c msg d =
      writeNonBlocking c (fold (\<lambda>s msg. write_ids h msg (getServiceIDs d s)) (m_services d)
        (IPCOutputMessage_answer h msg IPC_RC_OK)) d"
  using assms by (simp add: LocalClient_handleIncomingIPCMessage_def ipc_view_fields Let_def)

lemma readMessage_view:
  assumes "message_view h msg m"
  shows "readMessageFromIPCMessage h msg = Inr m"
proof -
  obtain hdr where v: "ipc_view h msg hdr (MessageHeader_bytes h m @ payload m)" using assms by (auto simp: message_view_def)
  then have "getUserDataLength msg = 16 + length (payload m)"
    by (simp add: ipc_view_def getUserDataLength_def ba_size_contents sizeof_IPCMessageHeader_def)
  moreover have "InputMessage_getHeader h msg = MessageHeader.truncate m"
    using assms by (simp add: InputMessage_getHeader_def message_view_header_at)
  ultimately show ?thesis
    using message_view_payload [OF assms]
    by (simp add: readMessageFromIPCMessage_def sizeof_MessageHeader_def MessageHeader.defs Message.defs)
qed

lemma handle_send_message:
  assumes "message_view h msg m"
  shows "LocalClient_handleIncomingIPCMessage h dump now c msg d = processIncomingMessage now c m d"
proof -
  obtain hdr where "ipc_view h msg hdr (MessageHeader_bytes h m @ payload m)" "ipc_messageType hdr = SEND_MESSAGE"
    using assms by (auto simp: message_view_def)
  then show ?thesis
    using readMessage_view [OF assms] by (simp add: LocalClient_handleIncomingIPCMessage_def ipc_view_fields Let_def)
qed

lemma Client_registerService_outcome:
  assumes "dispatcher_ok d" and "m_registered (clients d c)"
  shows "\<exists>s d'. Client_registerService c ids True d = Inr (s, d') \<and> dispatcher_ok d' \<and> m_registered (clients d' c)
       \<and> (s \<noteq> None \<longleftrightarrow> (\<exists>s. getService ids d' = Some s \<and> m_client (services d' s) = Some c)) \<and> (s = None \<longrightarrow> d' = d)"
proof -
  have mem: "s \<in> set (m_services d)" if "getService ids d = Some s" for s
    using that assms(1) by (simp add: getService_Some_iff dispatcher_ok_def)
  have attached: "getService ids (attach s c d) = getService ids d" for s
    by (rule getService_cong) simp_all
  have brought: "getService ids (bring ids True c d) = Some (nextService d)" if "getService ids d = None"
    using that known_tables(1) [OF assms(1)] getService_appended [of "bring ids True c d" d "nextService d" ids ids] by simp
  from assms show ?thesis
  proof (cases rule: Client_registerService_cases [of d c ids True])
    case (activated s)
    then show ?thesis using assms attach_ok [OF assms(1) activated(3) mem assms(2)] by (simp add: attached)
  next
    case new
    then show ?thesis using assms brought bring_ok [OF assms(1) new(1) assms(2)] by simp
  qed (use assms in \<open>simp_all add: mem listService_ok\<close>)
qed

end
