(* ===== verification/Local_Client_Properties.thy ===== *)
theory Local_Client_Properties
  imports Local_Client
begin

text \<open>
  What an application gets from the daemon over its connection: one answer to each of its
  requests, and what the answer says.
\<close>

section \<open>Registering and unregistering\<close>






text \<open>
  C32. A request for the registration of a service that is too short for a service identifier
  makes the daemon read behind the end of the message.
\<close>

theorem short_register_request:
  assumes "ipc_view h msg hdr user" and "ipc_messageType hdr = REGISTER_SERVICE" and "length user < 4"
  shows "LocalClient_handleIncomingIPCMessage h dump now c msg d = Inl OutOfBounds"
proof -
  have short: "reader_get h (dser pre rest :: Deserializer) = (Inl OutOfBounds :: (u16 \<times> Deserializer) result)"
    if "length rest < 2" for pre rest
    using that by (simp add: reader_get_def IPC_read_def readValue_def readBasicTypeValue_def IPCSerializer_def readRawData_short)
  have "read_ids h (dser [] user) = Inl OutOfBounds"
  proof (cases "length user < 2")
    case True
    then show ?thesis by (simp add: read_ids_def short)
  next
    case False
    then obtain a b rest where user: "user = a # b # rest" "length rest < 2"
      using assms(3) by (cases user; cases "tl user") auto
    have "object_bytes h (object_value h [a, b] :: u16) = [a, b]" by (rule object_bytes_object_value) simp
    then have "reader_get h (dser [] user) = Inr (object_value h [a, b] :: u16, dser [a, b] rest)"
      using reader_get_dser [of h "[]" "object_value h [a, b] :: u16" rest] user(1) by simp
    then show ?thesis using short [OF user(2)] by (simp add: read_ids_def)
  qed
  then show ?thesis
    using assms(1,2) by (simp add: LocalClient_handleIncomingIPCMessage_def ipc_view_fields IPCInputMessageReader_view Let_def)
qed

theorem short_register_request_witness:
  "LocalClient_handleIncomingIPCMessage BigEndian (\<lambda>_. []) (m_lastPingDate example_ping) 0
     (IPCOutputMessage_new BigEndian REGISTER_SERVICE) (example_state True) = Inl OutOfBounds"
  by (rule short_register_request [OF ipc_view_IPCOutputMessage_new]) simp_all

end
