(* ===== verification/Client_Lib.thy ===== *)
theory Client_Lib
  imports Local_Client Socket_Stream
begin

text \<open>
  The library an application uses to talk to the daemon: \<open>clientLib/SomeIP-clientLib.h\<close> and
  \<open>clientLib/SomeIP-clientLib.cpp\<close>. A connection is the stream connection of the theory
  \<open>Socket_Stream\<close> with a queue of messages that arrived while the library was waiting for
  something else, and a registry of the services the daemon knows. One thread uses it: the
  mutexes are not modelled. The calls of the application's virtual functions are recorded
  in \<open>app_calls\<close>, the messages handed to \<open>handleConstIncomingIPCMessage\<close> in \<open>handled\<close>.
\<close>

section \<open>The registry of services\<close>

text \<open>A listener is known by its position, and waits for the service it was made with.\<close>

datatype AppCall = OnServiceAvailable nat | OnServiceUnavailable nat | ProcessMessage Message | OnConnectionLost

record ServiceRegistry =
  m_availableServices :: "ServiceIDs list"
  m_serviceAvailabilityListeners :: "ServiceIDs list"

definition isServiceRegistered :: "ServiceRegistry \<Rightarrow> ServiceIDs \<Rightarrow> bool" where
  "isServiceRegistered r service = (service \<in> set (m_availableServices r))"

definition registerServiceAvailabilityListener :: "ServiceIDs \<Rightarrow> ServiceRegistry \<Rightarrow> ServiceRegistry" where
  "registerServiceAvailabilityListener listener r =
     r\<lparr>m_serviceAvailabilityListeners := m_serviceAvailabilityListeners r @ [listener]\<rparr>"

definition listener_onServiceRegistered :: "ServiceIDs \<Rightarrow> nat \<times> ServiceIDs \<Rightarrow> AppCall list" where
  "listener_onServiceRegistered service = (\<lambda>(i, m_serviceID).
     if matches service m_serviceID then [OnServiceAvailable i] else [])"

definition listener_onServiceUnregistered :: "ServiceIDs \<Rightarrow> nat \<times> ServiceIDs \<Rightarrow> AppCall list" where
  "listener_onServiceUnregistered service = (\<lambda>(i, m_serviceID).
     if matches service m_serviceID then [OnServiceUnavailable i] else [])"

definition registry_onServiceRegistered :: "ServiceIDs \<Rightarrow> ServiceRegistry \<Rightarrow> AppCall list \<times> ServiceRegistry" where
  "registry_onServiceRegistered service r =
     (concat (map (listener_onServiceRegistered service) (enumerate 0 (m_serviceAvailabilityListeners r))),
      r\<lparr>m_availableServices := m_availableServices r @ [service]\<rparr>)"

text \<open>\<open>erase\<close> of the position \<open>find\<close> returned, which is the end if there is none.\<close>

definition registry_onServiceUnregistered :: "ServiceIDs \<Rightarrow> ServiceRegistry \<Rightarrow> (AppCall list \<times> ServiceRegistry) result" where
  "registry_onServiceUnregistered service r =
     (if service \<notin> set (m_availableServices r) then Inl OutOfBounds
      else Inr (concat (map (listener_onServiceUnregistered service) (enumerate 0 (m_serviceAvailabilityListeners r))),
        r\<lparr>m_availableServices := remove1 service (m_availableServices r)\<rparr>))"

section \<open>The queue of messages\<close>

text \<open>The assignment operator and the copy constructor of \<open>IPCInputMessage\<close>.\<close>

definition IPCInput_assign :: "IPCInputMessage \<Rightarrow> IPCInputMessage \<Rightarrow> IPCInputMessage" where
  "IPCInput_assign this msg = this\<lparr>m_payload := ba_assign (m_payload this) (m_payload msg),
     m_totalMessageSize := m_totalMessageSize msg, m_receivedSize := m_receivedSize msg, m_isError := m_isError msg\<rparr>"

definition IPCInput_copy :: "IPCInputMessage \<Rightarrow> IPCInputMessage" where
  "IPCInput_copy msg = IPCInput_assign (IPCMessage.extend IPCMessage_new (IPCInputMessage.fields 0 0 False)) msg"

record SafeMessageQueue =
  m_messageQueue :: "IPCInputMessage list"
  queueHeadIndex :: nat

definition SafeMessageQueue_new :: SafeMessageQueue where
  "SafeMessageQueue_new = \<lparr>m_messageQueue = [], queueHeadIndex = 0\<rparr>"

definition queue_push :: "IPCInputMessage \<Rightarrow> SafeMessageQueue \<Rightarrow> SafeMessageQueue" where
  "queue_push msg q = q\<lparr>m_messageQueue := m_messageQueue q @ [IPCInput_copy msg]\<rparr>"

definition queue_isEmpty :: "SafeMessageQueue \<Rightarrow> bool" where
  "queue_isEmpty q = (queueHeadIndex q = length (m_messageQueue q))"

definition queue_pop :: "SafeMessageQueue \<Rightarrow> IPCInputMessage option \<times> SafeMessageQueue" where
  "queue_pop q =
     (if \<not> queue_isEmpty q
      then (Some (m_messageQueue q ! queueHeadIndex q), q\<lparr>queueHeadIndex := queueHeadIndex q + 1\<rparr>)
      else (None, q\<lparr>queueHeadIndex := 0, m_messageQueue := []\<rparr>))"

section \<open>Reading from the daemon\<close>

text \<open>
  \<open>messageReceivedCallback\<close> and \<open>m_mainLoop\<close> say whether the pointer is set. The pipe is the
  number of bytes in it. The two counters are the static members \<open>nextAvailableRequestID\<close>
  of \<open>IPCOutputMessage\<close> and \<open>s_nextAvailableRequestID\<close> of \<open>OutputMessage\<close>.
\<close>

record ClientDaemonConnection = UDSConnection +
  m_queue :: SafeMessageQueue
  m_registry :: ServiceRegistry
  messageReceivedCallback :: bool
  m_mainLoop :: bool
  watches_enabled :: bool
  m_queuedMessageIndicatorPipe :: nat
  nextAvailableRequestID :: u16
  s_nextAvailableRequestID :: u16
  app_calls :: "AppCall list"
  handled :: "IPCInputMessage list"

text \<open>The constructor; the kernel's side of the connection is empty.\<close>

definition ClientDaemonConnection_new :: "endianness \<Rightarrow> ClientDaemonConnection" where
  "ClientDaemonConnection_new h =
     \<lparr>m_connectionFileDescriptor = UNINITIALIZED_FILE_DESCRIPTOR, m_dataToBeSent = ByteArray_new, m_writtenBytesCount = 0,
      wire = [], sends = [], inbox = [], recvs = [], events = [],
      m_messageLengthReader = setBuffer 8, m_currentInputMessage = IPCInputMessage_new h,
      m_queue = SafeMessageQueue_new, m_registry = \<lparr>m_availableServices = [], m_serviceAvailabilityListeners = []\<rparr>,
      messageReceivedCallback = False, m_mainLoop = False, watches_enabled = False, m_queuedMessageIndicatorPipe = 0,
      nextAvailableRequestID = nextAvailableRequestID_init, s_nextAvailableRequestID = s_nextAvailableRequestID_init,
      app_calls = [], handled = []\<rparr>"

definition newInputMessage :: "endianness \<Rightarrow> ClientDaemonConnection \<Rightarrow> ClientDaemonConnection" where
  "newInputMessage h c = setInputMessage h (c\<lparr>m_currentInputMessage := IPCInputMessage_new h\<rparr>)"

definition pushToQueue :: "IPCInputMessage \<Rightarrow> ClientDaemonConnection \<Rightarrow> ClientDaemonConnection" where
  "pushToQueue msg c = c\<lparr>m_queue := queue_push msg (m_queue c),
     m_queuedMessageIndicatorPipe := m_queuedMessageIndicatorPipe c + 1\<rparr>"

definition hasIncomingMessages :: "ClientDaemonConnection \<Rightarrow> bool" where
  "hasIncomingMessages c = (\<not> queue_isEmpty (m_queue c) \<or> inbox c \<noteq> [])"

lemma newInputMessage_measure: "read_measure (newInputMessage h c) = 2 * length (recvs c)"
  by (simp add: newInputMessage_def setInputMessage_measure)

lemma pushToQueue_measure [simp]: "read_measure (pushToQueue msg c) = read_measure c"
  by (simp add: pushToQueue_def read_measure_def)

text \<open>\<open>readIncomingMessages\<close> with the function that pushes each message to the queue.\<close>

function enqueueIncomingMessages :: "endianness \<Rightarrow> ClientDaemonConnection \<Rightarrow> ClientDaemonConnection" where
  "enqueueIncomingMessages h c =
     (let (_, c) = UDS_readNonBlocking h c; msg = m_currentInputMessage c
      in if IPCInput_isComplete msg
         then enqueueIncomingMessages h (pushToQueue msg (newInputMessage h c))
         else c)"
  by pat_completeness auto
termination
  by (relation "measure (\<lambda>(h, c). read_measure c)")
    (auto simp: newInputMessage_measure read_measure_decreases dest: sym)

declare enqueueIncomingMessages.simps [simp del]

text \<open>
  \<open>readIncomingMessagesBlocking\<close>: the callback says whether to go on; \<open>l\<close> is the variable it
  captures.
\<close>

partial_function (option) readIncomingMessagesBlocking ::
    "endianness \<Rightarrow> (IPCInputMessage \<Rightarrow> 'l \<Rightarrow> ClientDaemonConnection \<Rightarrow> (bool \<times> 'l \<times> ClientDaemonConnection) result)
     \<Rightarrow> 'l \<Rightarrow> ClientDaemonConnection \<Rightarrow> (IPCOperationReport \<times> 'l \<times> ClientDaemonConnection) result option" where
  "readIncomingMessagesBlocking h dispatchFunction l c =
     (case UDS_readBlocking h c of
        None \<Rightarrow> None
      | Some (Inl e) \<Rightarrow> Some (Inl e)
      | Some (Inr (report, c)) \<Rightarrow>
          if report \<noteq> IPC_OK then Some (Inr (report, l, c))
          else (case dispatchFunction (m_currentInputMessage c) l (newInputMessage h c) of
                  Inl e \<Rightarrow> Some (Inl e)
                | Inr (bKeepProcessing, l, c) \<Rightarrow>
                    if bKeepProcessing then readIncomingMessagesBlocking h dispatchFunction l c
                    else Some (Inr (IPC_OK, l, c))))"

declare readIncomingMessagesBlocking.simps [code]

section \<open>Writing to the daemon\<close>

text \<open>While it cannot write the library reads, so that the daemon can go on.\<close>

definition ClientLib_onCongestionDetected :: "endianness \<Rightarrow> ClientDaemonConnection \<Rightarrow> ClientDaemonConnection" where
  "ClientLib_onCongestionDetected h c = enqueueIncomingMessages h c"

definition ClientLib_writeBlocking ::
    "endianness \<Rightarrow> 'b IPCMessage_scheme \<Rightarrow> ClientDaemonConnection
     \<Rightarrow> (IPCOperationReport \<times> ClientDaemonConnection) result option" where
  "ClientLib_writeBlocking h msg c = UDS_writeBlocking h (ClientLib_onCongestionDetected h) c msg"

definition writeMessage ::
    "endianness \<Rightarrow> 'b IPCMessage_scheme \<Rightarrow> ClientDaemonConnection
     \<Rightarrow> (SomeIPReturnCode \<times> ClientDaemonConnection) result option" where
  "writeMessage h ipcMessage c = bindW (ClientLib_writeBlocking h ipcMessage c) (\<lambda>(code, c).
     Some (Inr (if code = IPC_OK then RC_OK else RC_ERROR, c)))"

definition ClientLib_sendMessage ::
    "endianness \<Rightarrow> OutputMessage \<Rightarrow> ClientDaemonConnection \<Rightarrow> (SomeIPReturnCode \<times> ClientDaemonConnection) result option" where
  "ClientLib_sendMessage h msg c = writeMessage h (m_ipcMessage msg) c"

definition ClientLib_sendPing ::
    "endianness \<Rightarrow> ClientDaemonConnection \<Rightarrow> (SomeIPReturnCode \<times> ClientDaemonConnection) result option" where
  "ClientLib_sendPing h c = writeMessage h (IPCOutputMessage_new h PONG) c"

definition ClientLib_subscribeToNotifications ::
    "endianness \<Rightarrow> MemberIDs \<Rightarrow> ClientDaemonConnection \<Rightarrow> (SomeIPReturnCode \<times> ClientDaemonConnection) result option" where
  "ClientLib_subscribeToNotifications h member c =
     writeMessage h (IPC_write h (write_ids h (IPCOutputMessage_new h SUBSCRIBE_NOTIFICATION) (m_serviceIDs member))
       (m_memberID member)) c"

definition writeRequest ::
    "endianness \<Rightarrow> IPCMessage \<Rightarrow> ClientDaemonConnection \<Rightarrow> (IPCInputMessage \<times> ClientDaemonConnection) result option" where
  "writeRequest h ipcMessage c =
     (let (next, ipcMessage) = assignRequestID h (nextAvailableRequestID c) ipcMessage;
          c = c\<lparr>nextAvailableRequestID := next\<rparr>
      in bindW (ClientLib_writeBlocking h ipcMessage c) (\<lambda>(_, c).
         bindW (readIncomingMessagesBlocking h (\<lambda>incomingMsg answerMessage c.
             if isResponseOf h incomingMsg ipcMessage
             then Inr (False, IPCInput_assign answerMessage incomingMsg, c)
             else Inr (True, answerMessage, pushToQueue incomingMsg c)) (IPCInputMessage_new h) c)
           (\<lambda>(returnCode, answerMessage, c).
             Some (Inr (if returnCode \<noteq> IPC_OK then setError answerMessage else answerMessage, c)))))"

definition ClientLib_registerService ::
    "endianness \<Rightarrow> ServiceIDs \<Rightarrow> ClientDaemonConnection \<Rightarrow> (SomeIPReturnCode \<times> ClientDaemonConnection) result option" where
  "ClientLib_registerService h service c =
     bindW (writeRequest h (write_ids h (IPCOutputMessage_new h REGISTER_SERVICE) service) c) (\<lambda>(returnMessage, c).
       Some (Inr (if IPCInput_isError h returnMessage then RC_ERROR else RC_OK, c)))"

definition ClientLib_unregisterService ::
    "endianness \<Rightarrow> ServiceIDs \<Rightarrow> ClientDaemonConnection \<Rightarrow> (SomeIPReturnCode \<times> ClientDaemonConnection) result option" where
  "ClientLib_unregisterService h service c =
     bindW (writeRequest h (write_ids h (IPCOutputMessage_new h UNREGISTER_SERVICE) service) c) (\<lambda>(returnMessage, c).
       Some (Inr (if IPCInput_isError h returnMessage then RC_ERROR else RC_OK, c)))"

text \<open>The dump is a string after its length; \<open>reader >> dump\<close> does not check the length.\<close>

definition getDaemonStateDump ::
    "endianness \<Rightarrow> ClientDaemonConnection \<Rightarrow> (SomeIPReturnCode \<times> u8 list \<times> ClientDaemonConnection) result option" where
  "getDaemonStateDump h c =
     bindW (writeRequest h (IPCOutputMessage_new h DUMP_STATE) c) (\<lambda>(returnMessage, c).
       if IPCInput_isError h returnMessage then Some (Inr (RC_DISCONNECTED, [], c))
       else case readValue_string (IPCSerializer h) (IPCInputMessageReader returnMessage) of
              None \<Rightarrow> Some (Inl OutOfBounds)
            | Some (dump, _) \<Rightarrow> Some (Inr (RC_OK, dump, c)))"

lemma read_ids_progress:
  assumes "read_ids h r = Inr (ids, r')"
  shows "remainingBytesCount r' < remainingBytesCount r"
  using assms
  by (auto simp: read_ids_def reader_get_def IPC_read_def readValue_def readBasicTypeValue_def bindE_eq_Inr
      remainingBytesCount_def IPCSerializer_def Let_def
      dest!: readRawData_Some split: option.splits bind_splits if_splits)

text \<open>\<open>isServiceAvailableBlocking\<close> reads the list until it finds the service.\<close>

function service_in_list :: "endianness \<Rightarrow> Deserializer \<Rightarrow> ServiceIDs \<Rightarrow> bool result" where
  "service_in_list h reader service =
     (if hasMoreData reader
      then case read_ids h reader of
             Inl e \<Rightarrow> Inl e
           | Inr (entry, reader) \<Rightarrow> if entry = service then Inr True else service_in_list h reader service
      else Inr False)"
  by pat_completeness auto
termination
  by (relation "measure (\<lambda>(_, r, _). remainingBytesCount r)") (auto dest: read_ids_progress)

declare service_in_list.simps [simp del]

definition isServiceAvailableBlocking ::
    "endianness \<Rightarrow> ServiceIDs \<Rightarrow> ClientDaemonConnection \<Rightarrow> (bool \<times> ClientDaemonConnection) result option" where
  "isServiceAvailableBlocking h service c =
     bindW (writeRequest h (IPCOutputMessage_new h GET_SERVICE_LIST) c) (\<lambda>(inputMessage, c).
       Some (bindE (service_in_list h (IPCInputMessageReader inputMessage) service) (\<lambda>found. Inr (found, c))))"

text \<open>The answer is \<open>None\<close> if the connection was lost: a message with no content.\<close>

definition waitForAnswer ::
    "endianness \<Rightarrow> OutputMessage \<Rightarrow> ClientDaemonConnection \<Rightarrow> (IPCInputMessage option \<times> ClientDaemonConnection) result option" where
  "waitForAnswer h requestMsg c =
     bindW (readIncomingMessagesBlocking h (\<lambda>incomingIPCMsg answerMessage c.
         if IPCMessage_getMessageType h incomingIPCMsg = SEND_MESSAGE
         then bindE (readMessageFromIPCMessage h incomingIPCMsg) (\<lambda>inputMsg.
                if isAnswerTo inputMsg (OutputMessage_getHeader h requestMsg)
                then Inr (False, Some (IPCInput_copy incomingIPCMsg), c)
                else Inr (True, answerMessage, pushToQueue incomingIPCMsg c))
         else Inr (True, answerMessage, c)) None c)
       (\<lambda>(_, answerMessage, c). Some (Inr (answerMessage, c)))"

definition ClientLib_sendMessageBlocking ::
    "endianness \<Rightarrow> OutputMessage \<Rightarrow> ClientDaemonConnection \<Rightarrow> (IPCInputMessage option \<times> ClientDaemonConnection) result option" where
  "ClientLib_sendMessageBlocking h msg c =
     (if \<not> isRequestWithReturn (OutputMessage_getHeader h msg) then Some (Inl AssertFailed)
      else if m_clientIdentifier (OutputMessage_getHeader h msg) \<noteq> 0 then Some (Inl AssertFailed)
      else bindW (writeMessage h (m_ipcMessage msg) c) (\<lambda>(_, c). waitForAnswer h msg c))"

section \<open>Handling messages\<close>

definition app_call :: "AppCall list \<Rightarrow> ClientDaemonConnection \<Rightarrow> ClientDaemonConnection" where
  "app_call calls c = c\<lparr>app_calls := app_calls c @ calls\<rparr>"

definition ClientLib_onDisconnected :: "ClientDaemonConnection \<Rightarrow> ClientDaemonConnection" where
  "ClientLib_onDisconnected c = (if messageReceivedCallback c then app_call [OnConnectionLost] c else c)"

definition ClientLib_onServiceRegistered :: "ServiceIDs \<Rightarrow> ClientDaemonConnection \<Rightarrow> ClientDaemonConnection" where
  "ClientLib_onServiceRegistered service c =
     (let (calls, r) = registry_onServiceRegistered service (m_registry c) in app_call calls (c\<lparr>m_registry := r\<rparr>))"

definition ClientLib_onServiceUnregistered :: "ServiceIDs \<Rightarrow> ClientDaemonConnection \<Rightarrow> ClientDaemonConnection result" where
  "ClientLib_onServiceUnregistered service c =
     bindE (registry_onServiceUnregistered service (m_registry c)) (\<lambda>(calls, r).
       Inr (app_call calls (c\<lparr>m_registry := r\<rparr>)))"

text \<open>The loops over the services of a message run as long as two bytes remain, and read four.\<close>

function each_service ::
    "endianness \<Rightarrow> (ServiceIDs \<Rightarrow> ClientDaemonConnection \<Rightarrow> ClientDaemonConnection result) \<Rightarrow> Deserializer
     \<Rightarrow> ClientDaemonConnection \<Rightarrow> ClientDaemonConnection result" where
  "each_service h f reader c =
     (if remainingBytesCount reader \<ge> 2
      then case read_ids h reader of
             Inl e \<Rightarrow> Inl e
           | Inr (service, reader) \<Rightarrow> (case f service c of Inl e \<Rightarrow> Inl e | Inr c \<Rightarrow> each_service h f reader c)
      else Inr c)"
  by pat_completeness auto
termination
  by (relation "measure (\<lambda>(_, _, r, _). remainingBytesCount r)") (auto dest: read_ids_progress)

declare each_service.simps [simp del]

text \<open>The bytes of a ping count up from 0.\<close>

fun check_ping :: "endianness \<Rightarrow> Deserializer \<Rightarrow> nat \<Rightarrow> nat \<Rightarrow> unit result" where
  "check_ping h reader i 0 = Inr ()"
| "check_ping h reader i (Suc n) = bindE (reader_get h reader) (\<lambda>(v :: u8, reader).
     if v = of_nat i then check_ping h reader (i + 1) n else Inl AssertFailed)"

text \<open>
  \<open>SomeIPEndPoint\<close>, which answers the pings addressed to the dispatcher's service with
  \<open>sendMessage\<close> of the connection.
\<close>

definition endPoint_processMessage ::
    "endianness \<Rightarrow> IPCInputMessage \<Rightarrow> ClientDaemonConnection
     \<Rightarrow> (MessageProcessingResult \<times> ClientDaemonConnection) result option" where
  "endPoint_processMessage h inputMessage c =
     (let hdr = InputMessage_getHeader h inputMessage
      in if header_getMemberID hdr = PING_MEMBER_ID \<and> header_getServiceID hdr = DISPATCHER_SERVICE_ID
            \<and> isRequestWithReturn hdr
         then let (next, outputMessage) = createMethodReturn h (s_nextAvailableRequestID c) inputMessage;
                  outputMessage = OutputMessage_writeRawData outputMessage
                    (take (InputMessage_getPayloadLength inputMessage) (InputMessage_getPayload inputMessage))
              in bindW (ClientLib_sendMessage h outputMessage (c\<lparr>s_nextAvailableRequestID := next\<rparr>)) (\<lambda>(_, c).
                   Some (Inr (Processed_OK, c)))
         else Some (Inr (NotProcessed_OK, c)))"

definition handleConstIncomingIPCMessage ::
    "endianness \<Rightarrow> IPCInputMessage \<Rightarrow> ClientDaemonConnection \<Rightarrow> ClientDaemonConnection result option" where
  "handleConstIncomingIPCMessage h inputMessage c =
     (let c = c\<lparr>handled := handled c @ [inputMessage]\<rparr>; reader = IPCInputMessageReader inputMessage
      in case IPCMessage_getMessageType h inputMessage of
           SEND_MESSAGE \<Rightarrow>
             bindW (Some (readMessageFromIPCMessage h inputMessage)) (\<lambda>msg.
             bindW (endPoint_processMessage h inputMessage c) (\<lambda>(processed, c).
               if processed \<noteq> NotProcessed_OK then Some (Inr c)
               else if messageReceivedCallback c then Some (Inr (app_call [ProcessMessage msg] c))
               else Some (Inl NullDereference)))
         | PING \<Rightarrow>
             bindW (Some (check_ping h reader 0 (getUserDataLength inputMessage))) (\<lambda>_.
             bindW (writeMessage h (IPCOutputMessage_new h PONG) c) (\<lambda>(_, c). Some (Inr c)))
         | SERVICES_REGISTERED \<Rightarrow> Some (each_service h (\<lambda>service c. Inr (ClientLib_onServiceRegistered service c)) reader c)
         | SERVICES_UNREGISTERED \<Rightarrow> Some (each_service h ClientLib_onServiceUnregistered reader c)
         | _ \<Rightarrow> Some (Inr c))"

definition read_pipe :: "ClientDaemonConnection \<Rightarrow> ClientDaemonConnection" where
  "read_pipe c = c\<lparr>m_queuedMessageIndicatorPipe := m_queuedMessageIndicatorPipe c - 1\<rparr>"

partial_function (option) dispatch_loop ::
    "endianness \<Rightarrow> ClientDaemonConnection \<Rightarrow> ClientDaemonConnection result option" where
  "dispatch_loop h c =
     (let (msg, q) = queue_pop (m_queue c); c = c\<lparr>m_queue := q\<rparr>
      in case msg of
           None \<Rightarrow> Some (Inr c)
         | Some msg \<Rightarrow>
             (case handleConstIncomingIPCMessage h msg c of
                None \<Rightarrow> None
              | Some (Inl e) \<Rightarrow> Some (Inl e)
              | Some (Inr c) \<Rightarrow> dispatch_loop h c))"

declare dispatch_loop.simps [code]

definition dispatchQueuedMessages :: "endianness \<Rightarrow> ClientDaemonConnection \<Rightarrow> ClientDaemonConnection result option" where
  "dispatchQueuedMessages h c = dispatch_loop h (read_pipe c)"

definition onIPCInputMessage ::
    "endianness \<Rightarrow> IPCInputMessage \<Rightarrow> ClientDaemonConnection \<Rightarrow> ClientDaemonConnection result option" where
  "onIPCInputMessage h inputMessage c =
     bindW (dispatchQueuedMessages h c) (handleConstIncomingIPCMessage h inputMessage)"

text \<open>\<open>readIncomingMessages\<close> with the function that handles each message.\<close>

partial_function (option) dispatchIncoming_loop ::
    "endianness \<Rightarrow> ClientDaemonConnection \<Rightarrow> ClientDaemonConnection result option" where
  "dispatchIncoming_loop h c =
     (let (_, c) = UDS_readNonBlocking h c; msg = m_currentInputMessage c
      in if IPCInput_isComplete msg
         then (case onIPCInputMessage h msg (newInputMessage h c) of
                 None \<Rightarrow> None
               | Some (Inl e) \<Rightarrow> Some (Inl e)
               | Some (Inr c) \<Rightarrow> dispatchIncoming_loop h c)
         else Some (Inr c))"

declare dispatchIncoming_loop.simps [code]

definition dispatchIncomingMessages ::
    "endianness \<Rightarrow> ClientDaemonConnection \<Rightarrow> (bool \<times> ClientDaemonConnection) result option" where
  "dispatchIncomingMessages h c =
     bindW (dispatchQueuedMessages h c) (\<lambda>c. bindW (dispatchIncoming_loop h c) (\<lambda>c. Some (Inr (True, c))))"

section \<open>Connecting\<close>

text \<open>
  \<open>connectToServer\<close>: what \<open>socket\<close> returned, whether \<open>connect\<close> succeeded, and whether it did
  for the alternative path, if there is one.
\<close>

definition connectToServer ::
    "int \<Rightarrow> bool \<Rightarrow> bool option \<Rightarrow> 'a SocketStreamConnection_scheme \<Rightarrow> SomeIPReturnCode \<times> 'a SocketStreamConnection_scheme" where
  "connectToServer fileDescriptor connected alternative c =
     (if fileDescriptor = -1 then (RC_ERROR, c)
      else if \<not> connected \<and> alternative \<noteq> Some True then (RC_ERROR, c)
      else (RC_OK, c\<lparr>m_connectionFileDescriptor := fileDescriptor\<rparr>))"

definition ClientLib_connect ::
    "endianness \<Rightarrow> int \<Rightarrow> bool \<Rightarrow> int \<Rightarrow> ClientDaemonConnection \<Rightarrow> (SomeIPReturnCode \<times> ClientDaemonConnection) result" where
  "ClientLib_connect h fileDescriptor connected pipeResult c =
     (if isConnected c then Inr (RC_ALREADY_CONNECTED, c)
      else let c = newInputMessage h (c\<lparr>messageReceivedCallback := True\<rparr>);
               (code, c) = connectToServer fileDescriptor connected None c
           in if \<not> isError code
              then if \<not> m_mainLoop c then Inl NullDereference
                   else if pipeResult \<noteq> 0 then Inl AssertFailed
                   else Inr (code, c\<lparr>watches_enabled := True, m_queuedMessageIndicatorPipe := 0\<rparr>)
              else Inr (code, c))"

definition setMainLoopInterface :: "ClientDaemonConnection \<Rightarrow> ClientDaemonConnection" where
  "setMainLoopInterface c = c\<lparr>m_mainLoop := True\<rparr>"

text \<open>
  \<open>disconnect\<close> called by the application. Where the stream connection disconnects by itself
  the call of \<open>onDisconnected\<close> is one of its \<open>events\<close>.
\<close>

definition ClientLib_disconnect :: "ClientDaemonConnection \<Rightarrow> ClientDaemonConnection" where
  "ClientLib_disconnect c = (if isConnected c then ClientLib_onDisconnected (disconnect c) else c)"

definition ClientDaemonConnection_delete :: "ClientDaemonConnection \<Rightarrow> ClientDaemonConnection" where
  "ClientDaemonConnection_delete c = ClientLib_disconnect (c\<lparr>messageReceivedCallback := False\<rparr>)"

end
