(* ===== verification/Client_Lib_Laws.thy ===== *)
theory Client_Lib_Laws
  imports Client_Lib "HOL-Library.Multiset"
begin

text \<open>
  Laws of the client library: its queue is a first-in first-out queue, and no operation
  loses a message that has arrived.
\<close>

section \<open>First-in first-out queues\<close>

text \<open>What a queue promises: it behaves as the list of what was put and not yet got.\<close>

datatype 'm queue_op = Put 'm | Get

fun run_queue :: "('m \<Rightarrow> 'q \<Rightarrow> 'q) \<Rightarrow> ('q \<Rightarrow> 'm option \<times> 'q) \<Rightarrow> 'm queue_op list \<Rightarrow> 'q \<Rightarrow> 'm option list \<times> 'q" where
  "run_queue put get [] q = ([], q)"
| "run_queue put get (Put m # ops) q = run_queue put get ops (put m q)"
| "run_queue put get (Get # ops) q =
     (let (m, q) = get q; (ms, q) = run_queue put get ops q in (m # ms, q))"

fun list_get :: "'m list \<Rightarrow> 'm option \<times> 'm list" where
  "list_get [] = (None, [])"
| "list_get (x # xs) = (Some x, xs)"

lemma list_get_eq:
  "(None, ys) = list_get xs \<longleftrightarrow> xs = [] \<and> ys = []"
  "(Some x, ys) = list_get xs \<longleftrightarrow> xs = x # ys"
  by (cases xs; auto)+

locale fifo_queue =
  fixes put :: "'m \<Rightarrow> 'q \<Rightarrow> 'q"
    and get :: "'q \<Rightarrow> 'm option \<times> 'q"
    and stored :: "'m \<Rightarrow> 'm"
    and elems :: "'q \<Rightarrow> 'm list"
    and invar :: "'q \<Rightarrow> bool"
  assumes put_elems: "invar q \<Longrightarrow> elems (put m q) = elems q @ [stored m] \<and> invar (put m q)"
    and get_elems: "invar q \<Longrightarrow> get q = (r, q') \<Longrightarrow> (r, elems q') = list_get (elems q) \<and> invar q'"
begin

lemma run_refines:
  assumes "invar q" and "run_queue put get ops q = (ms, q')"
  shows "run_queue (\<lambda>m xs. xs @ [stored m]) list_get ops (elems q) = (ms, elems q') \<and> invar q'"
  using assms
proof (induction ops arbitrary: q ms q')
  case (Cons op ops)
  show ?case
  proof (cases op)
    case (Put m)
    have e: "elems (put m q) = elems q @ [stored m]" "invar (put m q)" using put_elems [OF Cons.prems(1)] by simp_all
    have "run_queue put get ops (put m q) = (ms, q')" using Cons.prems(2) Put by simp
    from Cons.IH [OF e(2) this] show ?thesis by (simp add: Put e(1))
  next
    case Get
    obtain r q1 where g: "get q = (r, q1)" by fastforce
    obtain rs q2 where rs: "run_queue put get ops q1 = (rs, q2)" by fastforce
    have e: "list_get (elems q) = (r, elems q1)" "invar q1" using get_elems [OF Cons.prems(1) g] by simp_all
    have ms: "ms = r # rs" "q' = q2" using Cons.prems(2) Get g rs by simp_all
    show ?thesis using Cons.IH [OF e(2) rs] by (simp add: Get e(1) ms)
  qed
qed simp

end

definition queued :: "SafeMessageQueue \<Rightarrow> IPCInputMessage list" where
  "queued q = drop (queueHeadIndex q) (m_messageQueue q)"

definition queue_ok :: "SafeMessageQueue \<Rightarrow> bool" where
  "queue_ok q = (queueHeadIndex q \<le> length (m_messageQueue q))"

interpretation smq: fifo_queue queue_push queue_pop IPCInput_copy queued queue_ok
proof unfold_locales
  fix q m
  assume "queue_ok q"
  then show "queued (queue_push m q) = queued q @ [IPCInput_copy m] \<and> queue_ok (queue_push m q)"
    by (simp add: queue_push_def queued_def queue_ok_def)
next
  fix q r q'
  assume ok: "queue_ok q" and pop: "queue_pop q = (r, q')"
  show "(r, queued q') = list_get (queued q) \<and> queue_ok q'"
  proof (cases "queue_isEmpty q")
    case True
    with pop show ?thesis by (auto simp: queue_pop_def queue_isEmpty_def queued_def queue_ok_def)
  next
    case False
    then have "queueHeadIndex q < length (m_messageQueue q)" using ok by (simp add: queue_isEmpty_def queue_ok_def)
    moreover from this have "drop (queueHeadIndex q) (m_messageQueue q)
        = m_messageQueue q ! queueHeadIndex q # drop (Suc (queueHeadIndex q)) (m_messageQueue q)"
      by (simp add: Cons_nth_drop_Suc)
    ultimately show ?thesis using False pop by (auto simp: queue_pop_def queued_def queue_ok_def)
  qed
qed

section \<open>What the operations leave alone\<close>

lemma socket_recv_frame: "socket_recv c n = (r, c') \<Longrightarrow> SocketStreamConnection.more c' = SocketStreamConnection.more c
    \<and> sends c' = sends c \<and> wire c' = wire c"
  by (auto simp: socket_recv_def split: list.splits recv_outcome.splits)

lemma UDS_readLength_frame:
  fixes c :: "'a UDSConnection_scheme"
  assumes "UDS_readLength h b c = (r, c')"
  shows "UDSConnection.more c' = UDSConnection.more c \<and> sends c' = sends c \<and> wire c' = wire c"
  using assms
  by (auto simp: UDS_readLength_def IPCBufferReader_read_def socket_recv_def Let_def
      split: if_splits list.splits recv_outcome.splits sum.splits prod.splits)

lemma UDS_readNonBlocking_frame:
  fixes c :: "'a UDSConnection_scheme"
  assumes "UDS_readNonBlocking h c = (r, c')"
  shows "UDSConnection.more c' = UDSConnection.more c \<and> sends c' = sends c \<and> wire c' = wire c"
proof -
  obtain r1 c1 where r1: "UDS_readLength h False c = (r1, c1)" by fastforce
  then have "UDSConnection.more c' = UDSConnection.more c1 \<and> sends c' = sends c1 \<and> wire c' = wire c1"
    using assms
    by (auto simp: UDS_readNonBlocking_def readAvailableData_def socket_recv_def disconnect_def Let_def
        split: if_splits list.splits recv_outcome.splits)
  with UDS_readLength_frame [OF r1] show ?thesis by simp
qed

lemma client_more:
  fixes c c' :: ClientDaemonConnection
  assumes "UDSConnection.more c' = UDSConnection.more c"
  shows "m_queue c' = m_queue c" and "handled c' = handled c" and "m_registry c' = m_registry c"
    and "messageReceivedCallback c' = messageReceivedCallback c" and "app_calls c' = app_calls c"
  using assms by (cases c; cases c'; simp)+

section \<open>No message is lost\<close>

text \<open>
  The messages that have been read from the socket, handled or queued, by their bytes; and
  what an operation may do: read some messages, in the order of the stream.
\<close>

definition processed :: "ClientDaemonConnection \<Rightarrow> u8 list list" where
  "processed c = map (\<lambda>m. contents (m_payload m)) (handled c @ queued (m_queue c))"

definition client_ok :: "endianness \<Rightarrow> ClientDaemonConnection \<Rightarrow> bool" where
  "client_ok h c = (reader_invar h c \<and> queue_ok (m_queue c))"

definition unread :: "endianness \<Rightarrow> ClientDaemonConnection \<Rightarrow> u8 list" where
  "unread h c = arrived h c @ inbox c"

definition reads_in_order :: "endianness \<Rightarrow> ClientDaemonConnection \<Rightarrow> ClientDaemonConnection \<Rightarrow> bool" where
  "reads_in_order h c c' = (client_ok h c \<longrightarrow> client_ok h c'
     \<and> (\<exists>ms. unread h c = concat (map (frame_bytes h) ms) @ unread h c' \<and> processed c' = processed c @ ms))"

lemma reads_in_order_refl [simp]: "reads_in_order h c c"
  by (auto simp: reads_in_order_def intro: exI [of _ "[]"])

lemma reads_in_order_trans [trans]:
  assumes "reads_in_order h a b" and "reads_in_order h b c"
  shows "reads_in_order h a c"
  unfolding reads_in_order_def
proof (intro impI)
  assume "client_ok h a"
  with assms obtain ms ns where "client_ok h c"
    "unread h a = concat (map (frame_bytes h) ms) @ unread h b" "processed b = processed a @ ms"
    "unread h b = concat (map (frame_bytes h) ns) @ unread h c" "processed c = processed b @ ns"
    by (auto simp: reads_in_order_def)
  then show "client_ok h c \<and> (\<exists>ms. unread h a = concat (map (frame_bytes h) ms) @ unread h c
      \<and> processed c = processed a @ ms)"
    by (intro conjI exI [of _ "ms @ ns"]) simp_all
qed

lemma same_reads:
  assumes "m_queue c' = m_queue c" and "handled c' = handled c" and "inbox c' = inbox c"
    and "m_messageLengthReader c' = m_messageLengthReader c" and "m_currentInputMessage c' = m_currentInputMessage c"
  shows "reads_in_order h c c'" and "processed c' = processed c" and "unread h c' = unread h c"
    and "client_ok h c' = client_ok h c"
proof -
  show "processed c' = processed c" "unread h c' = unread h c" "client_ok h c' = client_ok h c"
    using assms by (simp_all add: processed_def unread_def client_ok_def arrived_def reader_invar_def)
  then show "reads_in_order h c c'" by (auto simp: reads_in_order_def intro: exI [of _ "[]"])
qed

lemma setInputMessage_reads:
  "setInputMessage h (c\<lparr>m_currentInputMessage := m\<rparr>) = (setInputMessage h c)\<lparr>m_currentInputMessage := IPCInput_clear h m\<rparr>"
  by (simp add: setInputMessage_def)

lemma ba_invar_IPCMessage_new [simp]: "ba_invar (m_payload IPCMessage_new)"
  using ipc_view_new by (simp add: ipc_view_def)

lemma ba_invar_new_input [simp]: "ba_invar (m_payload (IPCInput_clear h (IPCInputMessage_new h)))"
  by (simp add: IPCInputMessage_new_def IPCInput_clear_def IPCMessage_setHeader_def Let_def IPCMessage.defs
      )

lemma clear_sizes [simp]:
  "m_totalMessageSize (IPCInput_clear h m) = - 1" "m_receivedSize (IPCInput_clear h m) = 0"
  by (simp_all add: IPCInput_clear_def UNKNOWN_SIZE_def Let_def)

lemma newInputMessage_reads:
  "reader_invar h (newInputMessage h c)" "arrived h (newInputMessage h c) = []"
  "inbox (newInputMessage h c) = inbox c" "m_queue (newInputMessage h c) = m_queue c"
  "handled (newInputMessage h c) = handled c" "recvs (newInputMessage h c) = recvs c"
  "sends (newInputMessage h c) = sends c" "wire (newInputMessage h c) = wire c"
  by (simp_all add: newInputMessage_def setInputMessage_def setBuffer_def reader_invar_def arrived_def
      reader_isComplete_def Let_def object_bytes_minus_1)

text \<open>A complete message is read, and the next one begun.\<close>

lemma read_complete:
  assumes r: "UDS_readNonBlocking h c = (report, c1)" and ok: "client_ok h c"
    and complete: "IPCInput_isComplete (m_currentInputMessage c1)"
  defines "msg \<equiv> m_currentInputMessage c1" and "c2 \<equiv> newInputMessage h c1"
  shows "client_ok h c2" and "unread h c = frame_bytes h (contents (m_payload msg)) @ unread h c2"
    and "processed c2 = processed c" and "ba_invar (m_payload msg)"
proof -
  note s = UDS_readNonBlocking_stream [OF r] and f = client_more(1,2) [OF conjunct1 [OF UDS_readNonBlocking_frame [OF r]]]
  have inv: "reader_invar h c1" using s ok by (simp add: client_ok_def)
  then show b: "ba_invar (m_payload msg)" by (simp add: reader_invar_def msg_def Let_def)
  show "client_ok h c2" using ok f by (simp add: client_ok_def c2_def newInputMessage_reads)
  show "processed c2 = processed c" using f by (simp add: processed_def c2_def newInputMessage_reads)
  have "arrived h c1 = frame_bytes h (contents (m_payload msg))"
    using arrived_complete(2) [OF inv complete] frame_frame_bytes [OF b, of h] by (simp add: msg_def)
  then show "unread h c = frame_bytes h (contents (m_payload msg)) @ unread h c2"
    using s ok by (simp add: unread_def client_ok_def c2_def newInputMessage_reads)
qed

lemma readNonBlocking_reads:
  assumes r: "UDS_readNonBlocking h c = (report, c1)"
  shows "reads_in_order h c c1"
  using UDS_readNonBlocking_stream [OF r] client_more(1,2) [OF conjunct1 [OF UDS_readNonBlocking_frame [OF r]]]
  by (auto simp: reads_in_order_def client_ok_def unread_def processed_def intro: exI [of _ "[]"])

lemma contents_IPCInput_copy [simp]: "ba_invar (m_payload m) \<Longrightarrow> contents (m_payload (IPCInput_copy m)) = contents (m_payload m)"
  by (simp add: IPCInput_copy_def IPCInput_assign_def IPCMessage.defs)

lemma pushToQueue_simps [simp]:
  "inbox (pushToQueue m c) = inbox c" "recvs (pushToQueue m c) = recvs c" "sends (pushToQueue m c) = sends c"
  "wire (pushToQueue m c) = wire c" "handled (pushToQueue m c) = handled c"
  "reader_invar h (pushToQueue m c) = reader_invar h c" "arrived h (pushToQueue m c) = arrived h c"
  "m_queue (pushToQueue m c) = queue_push m (m_queue c)"
  by (simp_all add: pushToQueue_def reader_invar_def arrived_def)

lemma pushToQueue_reads:
  assumes "client_ok h c" and "ba_invar (m_payload m)"
  shows "client_ok h (pushToQueue m c)" and "unread h (pushToQueue m c) = unread h c"
    and "processed (pushToQueue m c) = processed c @ [contents (m_payload m)]"
  using assms smq.put_elems [of "m_queue c" m] by (auto simp: client_ok_def unread_def processed_def)

lemma enqueue_reads: "reads_in_order h c (enqueueIncomingMessages h c)"
proof (induction h c rule: enqueueIncomingMessages.induct)
  case (1 h c)
  obtain report c1 where r: "UDS_readNonBlocking h c = (report, c1)" by fastforce
  let ?msg = "m_currentInputMessage c1"
  show ?case
  proof (cases "IPCInput_isComplete ?msg")
    case False
    with r readNonBlocking_reads [OF r] show ?thesis by (subst enqueueIncomingMessages.simps) simp
  next
    case True
    let ?c3 = "pushToQueue ?msg (newInputMessage h c1)"
    have "reads_in_order h c ?c3"
      using read_complete [OF r _ True] pushToQueue_reads [of h "newInputMessage h c1" ?msg]
      by (auto simp: reads_in_order_def intro!: exI [of _ "[contents (m_payload ?msg)]"])
    moreover have "reads_in_order h ?c3 (enqueueIncomingMessages h ?c3)"
      using 1 [OF refl r [symmetric] refl True] .
    ultimately show ?thesis using r True
      by (subst enqueueIncomingMessages.simps) (auto intro: reads_in_order_trans)
  qed
qed

text \<open>The blocking writer keeps what its calls keep.\<close>

lemma writeBytesBlocking_loop_invariant:
  assumes "writeBytesBlocking_loop hook buffer outcomes c sent = Some (Inr (report, c'))" and "P c"
    and "\<And>c data. P c \<Longrightarrow> P (snd (socket_send c data))" and "\<And>c. P c \<Longrightarrow> P (disconnect c)"
    and "\<And>c. P c \<Longrightarrow> P (hook c)"
  shows "P c'"
  using assms(1,2)
proof (induction outcomes arbitrary: c sent)
  case Nil
  then show ?case by (auto split: if_splits)
next
  case (Cons a outcomes)
  obtain n c1 where n: "socket_send c (drop sent buffer) = (n, c1)" by fastforce
  have "P c1" using assms(3) [OF Cons.prems(2)] n by (metis snd_conv)
  then show ?case
    using Cons.prems Cons.IH n assms(4,5) by (auto split: if_splits sum.splits)
qed

lemma same_reads_writer:
  "reads_in_order h c (snd (socket_send c data))" "reads_in_order h c (disconnect c)"
  "reads_in_order h c (increaseWrittenBytesCounter c n)"
  by (rule same_reads(1); simp add: socket_send_def disconnect_def increaseWrittenBytesCounter_def
      split: list.splits send_outcome.splits)+

lemma writeBytesBlocking_reads:
  assumes "writeBytesBlocking (ClientLib_onCongestionDetected h) c buffer = Some (Inr (report, c'))"
  shows "reads_in_order h c c'"
proof -
  have w: "writeBytesBlocking_loop (ClientLib_onCongestionDetected h) buffer (sends c)
      (increaseWrittenBytesCounter c (length buffer)) 0 = Some (Inr (report, c'))"
    using assms by (simp add: writeBytesBlocking_def split: if_splits)
  show ?thesis
    by (rule writeBytesBlocking_loop_invariant [OF w, of "reads_in_order h c"])
      (auto intro: same_reads_writer reads_in_order_trans enqueue_reads simp: ClientLib_onCongestionDetected_def)
qed

lemma ClientLib_writeBlocking_reads:
  assumes "ClientLib_writeBlocking h msg c = Some (Inr (report, c'))"
  shows "reads_in_order h c c'"
  using assms unfolding ClientLib_writeBlocking_def UDS_writeBlocking_def Let_def bindW_eq_Some_Inr
  by (auto dest!: writeBytesBlocking_reads intro: reads_in_order_trans split: if_splits)

lemma writeMessage_reads: "writeMessage h msg c = Some (Inr (code, c')) \<Longrightarrow> reads_in_order h c c'"
  by (auto simp: writeMessage_def bindW_eq_Some_Inr dest: ClientLib_writeBlocking_reads)

lemma app_call_reads: "reads_in_order h c (app_call calls c)"
  by (rule same_reads(1)) (simp_all add: app_call_def)

lemma registry_reads: "reads_in_order h c (app_call calls (c\<lparr>m_registry := r\<rparr>))"
  by (rule same_reads(1)) (simp_all add: app_call_def)

lemma each_service_reads:
  assumes "each_service h f reader c = Inr c'" and f: "\<And>s c c'. f s c = Inr c' \<Longrightarrow> reads_in_order k c c'"
  shows "reads_in_order k c c'"
  using assms
proof (induction h f reader c rule: each_service.induct)
  case (1 h f reader c)
  show ?case
  proof (cases "remainingBytesCount reader \<ge> 2")
    case True
    then obtain ids reader1 c1 where r: "read_ids h reader = Inr (ids, reader1)" and c1: "f ids c = Inr c1"
      and rest: "each_service h f reader1 c1 = Inr c'"
      using 1(2) by (subst (asm) each_service.simps) (auto split: sum.splits)
    show ?thesis using 1(1) [OF True r refl c1 rest 1(3)] 1(3) [OF c1] by (rule reads_in_order_trans [rotated])
  qed (use 1(2) in \<open>subst (asm) each_service.simps; simp\<close>)
qed

lemma endPoint_reads:
  assumes "endPoint_processMessage h msg c = Some (Inr (r, c'))"
  shows "reads_in_order h c c'"
proof -
  have "reads_in_order h c (c\<lparr>s_nextAvailableRequestID := next\<rparr>)" for "next"
    by (rule same_reads(1)) simp_all
  with assms show ?thesis
    by (auto simp: endPoint_processMessage_def ClientLib_sendMessage_def bindW_eq_Some_Inr Let_def
        split: if_splits prod.splits dest!: writeMessage_reads intro: reads_in_order_trans)
qed

text \<open>A message that is handled counts as such from the beginning.\<close>

lemma handle_reads:
  assumes "handleConstIncomingIPCMessage h msg c = Some (Inr c')"
  shows "reads_in_order h (c\<lparr>handled := handled c @ [msg]\<rparr>) c'"
proof -
  have un: "ClientLib_onServiceUnregistered s a = Inr b \<Longrightarrow> reads_in_order h a b" for s a b
    by (auto simp: ClientLib_onServiceUnregistered_def bindE_eq_Inr intro: registry_reads)
  have re: "reads_in_order h a (ClientLib_onServiceRegistered s a)" for s a
    by (simp add: ClientLib_onServiceRegistered_def case_prod_unfold Let_def registry_reads)
  show ?thesis
    using assms
    by (cases "IPCMessage_getMessageType h msg")
      (auto simp: handleConstIncomingIPCMessage_def bindW_eq_Some_Inr Let_def split: if_splits
        dest!: endPoint_reads writeMessage_reads
        intro: reads_in_order_trans app_call_reads re un elim: each_service_reads)
qed

lemma reader_queue_update [simp]:
  "arrived h (c\<lparr>m_queue := q\<rparr>) = arrived h c" "reader_invar h (c\<lparr>m_queue := q\<rparr>) = reader_invar h c"
  by (simp_all add: arrived_def reader_invar_def)

lemma pop_reads:
  assumes ok: "client_ok h c" and "queue_pop (m_queue c) = (Some msg, q)"
  defines "c1 \<equiv> c\<lparr>m_queue := q, handled := handled c @ [msg]\<rparr>"
  shows "reads_in_order h c c1"
proof -
  have q: "queued (m_queue c) = msg # queued q" "queue_ok q"
    using smq.get_elems [OF _ assms(2)] ok unfolding client_ok_def by (auto simp: list_get_eq)
  then have "processed c1 = processed c" "unread h c1 = unread h c" "client_ok h c1"
    using ok by (simp_all add: processed_def c1_def unread_def arrived_def client_ok_def reader_invar_def)
  then show ?thesis by (auto simp: reads_in_order_def intro: exI [of _ "[]"])
qed

lemma dispatch_loop_reads:
  assumes "dispatch_loop h c = Some (Inr c')" and "client_ok h c"
  shows "reads_in_order h c c' \<and> queued (m_queue c') = []"
proof -
  have "r = Inr c' \<Longrightarrow> client_ok h c \<Longrightarrow> reads_in_order h c c' \<and> queued (m_queue c') = []"
    if "dispatch_loop h c = Some r" for r
    using that
  proof (induct rule: dispatch_loop.raw_induct [rotated, consumes 1])
    case (1 loop h c r)
    obtain msg q where pop: "queue_pop (m_queue c) = (msg, q)" by fastforce
    show ?case
    proof (cases msg)
      case None
      then have "queued (m_queue c) = []" "queued q = []" "queue_ok q"
        using smq.get_elems [OF _ pop] 1(4) unfolding client_ok_def by (simp_all add: list_get_eq)
      with None 1(2,3,4) pop show ?thesis
        by (auto simp: reads_in_order_def processed_def unread_def client_ok_def intro: exI [of _ "[]"])
    next
      case (Some m)
      then obtain c1 where c1: "handleConstIncomingIPCMessage h m (c\<lparr>m_queue := q\<rparr>) = Some (Inr c1)"
        and rest: "loop h c1 = Some r"
        using 1(2,3) pop by (auto split: option.splits sum.splits)
      have "reads_in_order h c (c\<lparr>m_queue := q, handled := handled c @ [m]\<rparr>)"
        using pop_reads [OF 1(4)] pop Some by simp
      then have step: "reads_in_order h c c1"
        using handle_reads [OF c1] by (auto intro: reads_in_order_trans)
      with 1(4) have "client_ok h c1" by (simp add: reads_in_order_def)
      with 1(1) [OF rest 1(3)] step show ?thesis by (blast intro: reads_in_order_trans)
    qed
  qed
  with assms show ?thesis by blast
qed

text \<open>
  Handling a message when there are queued ones may read more messages, which then go before
  it: the messages are the same, the order may not be.
\<close>

definition reads_all :: "endianness \<Rightarrow> ClientDaemonConnection \<Rightarrow> ClientDaemonConnection \<Rightarrow> bool" where
  "reads_all h c c' = (client_ok h c \<longrightarrow> client_ok h c'
     \<and> (\<exists>ms. unread h c = concat (map (frame_bytes h) ms) @ unread h c'
          \<and> mset (processed c') = mset (processed c) + mset ms))"

lemma reads_in_order_all: "reads_in_order h c c' \<Longrightarrow> reads_all h c c'"
  by (auto simp: reads_in_order_def reads_all_def)

lemma reads_all_trans [trans]:
  assumes "reads_all h a b" and "reads_all h b c"
  shows "reads_all h a c"
  unfolding reads_all_def
proof (intro impI)
  assume "client_ok h a"
  with assms obtain ms ns where "client_ok h c"
    "unread h a = concat (map (frame_bytes h) ms) @ unread h b" "mset (processed b) = mset (processed a) + mset ms"
    "unread h b = concat (map (frame_bytes h) ns) @ unread h c" "mset (processed c) = mset (processed b) + mset ns"
    unfolding reads_all_def by blast
  then show "client_ok h c \<and> (\<exists>ms. unread h a = concat (map (frame_bytes h) ms) @ unread h c
      \<and> mset (processed c) = mset (processed a) + mset ms)"
    by (intro conjI exI [of _ "ms @ ns"]) simp_all
qed

lemma dispatchQueuedMessages_reads:
  assumes "dispatchQueuedMessages h c = Some (Inr c')" and "client_ok h c"
  shows "reads_in_order h c c' \<and> queued (m_queue c') = []"
proof -
  have p: "reads_in_order h c (read_pipe c)" by (rule same_reads(1)) (simp_all add: read_pipe_def)
  with assms(2) have "client_ok h (read_pipe c)" by (simp add: reads_in_order_def)
  with dispatch_loop_reads [OF _ this] assms(1) p show ?thesis
    by (auto simp: dispatchQueuedMessages_def intro: reads_in_order_trans)
qed

lemma onIPCInputMessage_reads:
  assumes r: "UDS_readNonBlocking h c = (report, c1)" and ok: "client_ok h c"
    and complete: "IPCInput_isComplete (m_currentInputMessage c1)"
    and "onIPCInputMessage h (m_currentInputMessage c1) (newInputMessage h c1) = Some (Inr c')"
  shows "reads_all h c c'"
proof -
  let ?msg = "m_currentInputMessage c1" and ?c2 = "newInputMessage h c1"
  note rc = read_complete [OF r ok complete]
  obtain c3 where c3: "dispatchQueuedMessages h ?c2 = Some (Inr c3)"
    and c': "handleConstIncomingIPCMessage h ?msg c3 = Some (Inr c')"
    using assms(4) by (auto simp: onIPCInputMessage_def bindW_eq_Some_Inr)
  let ?c4 = "c3\<lparr>handled := handled c3 @ [?msg]\<rparr>"
  note d = dispatchQueuedMessages_reads [OF c3 rc(1)]
  then obtain ms where ms: "client_ok h c3" "unread h ?c2 = concat (map (frame_bytes h) ms) @ unread h c3"
    "processed c3 = processed ?c2 @ ms"
    using rc(1) by (auto simp: reads_in_order_def)
  have "processed ?c4 = processed c3 @ [contents (m_payload ?msg)]" "unread h ?c4 = unread h c3" "client_ok h ?c4"
    using d ms(1) by (simp_all add: processed_def unread_def arrived_def client_ok_def reader_invar_def)
  then have "reads_all h c ?c4"
    using rc ms by (auto simp: reads_all_def intro!: exI [of _ "contents (m_payload ?msg) # ms"])
  with handle_reads [OF c'] show ?thesis by (blast intro: reads_all_trans reads_in_order_all)
qed

lemma dispatchIncoming_loop_reads:
  assumes "dispatchIncoming_loop h c = Some (Inr c')" and "client_ok h c"
  shows "reads_all h c c'"
proof -
  have "r = Inr c' \<Longrightarrow> client_ok h c \<Longrightarrow> reads_all h c c'" if "dispatchIncoming_loop h c = Some r" for r
    using that
  proof (induct rule: dispatchIncoming_loop.raw_induct [rotated, consumes 1])
    case (1 loop h c r)
    obtain report c1 where r1: "UDS_readNonBlocking h c = (report, c1)" by fastforce
    show ?case
    proof (cases "IPCInput_isComplete (m_currentInputMessage c1)")
      case False
      then have "c' = c1" using 1(2,3) r1 by simp
      with readNonBlocking_reads [OF r1] show ?thesis by (simp add: reads_in_order_all)
    next
      case True
      then obtain c2 where c2: "onIPCInputMessage h (m_currentInputMessage c1) (newInputMessage h c1) = Some (Inr c2)"
        and rest: "loop h c2 = Some r"
        using 1(2,3) r1 by (auto split: option.splits sum.splits)
      have step: "reads_all h c c2" by (rule onIPCInputMessage_reads [OF r1 1(4) True c2])
      with 1(4) have "client_ok h c2" by (simp add: reads_all_def)
      with 1(1) [OF rest 1(3)] step show ?thesis by (blast intro: reads_all_trans)
    qed
  qed
  with assms show ?thesis by blast
qed

end
