(* ===== verification/Client_Lib_Requests.thy ===== *)
theory Client_Lib_Requests
  imports Client_Lib_Laws
begin

text \<open>
  Requests of the client library: what \<open>writeRequest\<close> and \<open>sendMessageBlocking\<close> return when
  the daemon answers, with any number of other messages before the answer.
\<close>

section \<open>Reading a frame with the blocking reader\<close>

text \<open>
  The kernel delivers at least eight bytes, or all there are, at a time: the reader asks for
  the length once, and takes what it gets for the whole of it.
\<close>

definition delivering :: "recv_outcome list \<Rightarrow> bool" where
  "delivering rs = (\<forall>r \<in> set rs. case r of Delivers n \<Rightarrow> 8 \<le> n | RecvFails _ \<Rightarrow> False)"

lemma delivering_simps [simp]:
  "delivering (Delivers n # rs) \<longleftrightarrow> 8 \<le> n \<and> delivering rs" "delivering (RecvFails e # rs) \<longleftrightarrow> False" "delivering []"
  by (auto simp: delivering_def)

lemma delivering_Cons:
  assumes "delivering rs" and "rs \<noteq> []"
  obtains j r where "rs = Delivers j # r" and "8 \<le> j" and "delivering r"
proof (cases rs)
  case (Cons o' r)
  with assms show ?thesis by (cases o') (auto intro: that)
qed (use assms in simp)

lemma delivering_drop: "delivering rs \<Longrightarrow> delivering (drop k rs)"
  by (auto simp: delivering_def dest: in_set_dropD)

lemma readBytesBlocking_delivers:
  assumes "inbox c = bs @ rest" and "n = length received + length bs" and "length bs \<le> length (recvs c)"
    and "delivering (recvs c)"
  shows "\<exists>k \<le> length bs. readBytesBlocking_loop c n received
    = Some (Inr (IPC_OK, received @ bs, c\<lparr>inbox := rest, recvs := drop k (recvs c)\<rparr>))"
  using assms
proof (induction "length bs" arbitrary: bs c received rule: less_induct)
  case less
  show ?case
  proof (cases "bs = []")
    case True
    with less.prems show ?thesis by (subst readBytesBlocking_loop.simps) auto
  next
    case False
    then have "recvs c \<noteq> []" using less.prems(3) by auto
    from delivering_Cons [OF less.prems(4) this] obtain j r
      where r: "recvs c = Delivers j # r" "8 \<le> j" "delivering r" .
    let ?m = "min j (length bs)"
    let ?c = "c\<lparr>inbox := drop ?m bs @ rest, recvs := r\<rparr>"
    have m: "0 < ?m" "?m \<le> length bs" using False r(2) by auto
    have recv: "socket_recv c (length bs) = (Inr (take ?m bs), ?c)"
      using r less.prems(1) m by (simp add: socket_recv_def)
    have "\<exists>k \<le> length (drop ?m bs). readBytesBlocking_loop ?c n (received @ take ?m bs)
        = Some (Inr (IPC_OK, (received @ take ?m bs) @ drop ?m bs, ?c\<lparr>inbox := rest, recvs := drop k (recvs ?c)\<rparr>))"
      using m less.prems r by (intro less.hyps) auto
    then obtain k where k: "k \<le> length bs - ?m" and
      loop: "readBytesBlocking_loop ?c n (received @ take ?m bs)
        = Some (Inr (IPC_OK, received @ bs, c\<lparr>inbox := rest, recvs := drop k r\<rparr>))" by auto
    have "readBytesBlocking_loop c n received = Some (Inr (IPC_OK, received @ bs, c\<lparr>inbox := rest, recvs := drop (Suc k) (recvs c)\<rparr>))"
      using less.prems(2) False recv loop r m by (subst readBytesBlocking_loop.simps) simp
    moreover have "Suc k \<le> length bs" using k m by linarith
    ultimately show ?thesis by blast
  qed
qed

text \<open>A connection that is about to read a new message.\<close>

definition fresh :: "endianness \<Rightarrow> ClientDaemonConnection \<Rightarrow> bool" where
  "fresh h c = (m_currentInputMessage c = IPCInput_clear h (IPCInputMessage_new h) \<and> m_messageLengthReader c = setBuffer 8)"

lemma fresh_newInputMessage [simp]: "fresh h (newInputMessage h c)"
  by (simp add: fresh_def newInputMessage_def setInputMessage_def)

lemma newInputMessage_fresh:
  "fresh h c \<Longrightarrow> newInputMessage h (c\<lparr>inbox := i, recvs := r, m_messageLengthReader := x, m_currentInputMessage := y\<rparr>)
     = c\<lparr>inbox := i, recvs := r\<rparr>"
  by (simp add: fresh_def newInputMessage_def setInputMessage_def)

lemma fresh_update [simp]: "fresh h (c\<lparr>inbox := i, recvs := r\<rparr>) = fresh h c"
  "fresh h (c\<lparr>nextAvailableRequestID := n\<rparr>) = fresh h c" "fresh h (pushToQueue m c) = fresh h c"
  by (simp_all add: fresh_def pushToQueue_def)

lemma pushToQueue_commute:
  "pushToQueue m (c\<lparr>inbox := i, recvs := r\<rparr>) = (pushToQueue m c)\<lparr>inbox := i, recvs := r\<rparr>"
  by (simp add: pushToQueue_def)

lemma UDS_readLength_delivers:
  assumes f: "fresh h c" and i: "inbox c = length_field h n @ rest" and r: "recvs c = Delivers j # r" and "8 \<le> j"
  shows "UDS_readLength h True c = (IPC_OK, c\<lparr>inbox := rest, recvs := r,
    m_messageLengthReader := \<lparr>rb_receivedBytesCount = 8, rb_size = 8\<rparr>,
    m_currentInputMessage := setLength (m_currentInputMessage c) (of_nat n)\<rparr>)"
proof -
  have recv: "socket_recv c 8 = (Inr (length_field h n), c\<lparr>inbox := rest, recvs := r\<rparr>)"
    using assms by (simp add: socket_recv_def min_def)
  have v: "object_value h (length_field h n) = (of_nat n :: u64)" by (simp add: length_field_def)
  have ne: "length_field h n \<noteq> []" by (metis length_length_field list.size(3) zero_neq_numeral)
  have m: "memcpy_at (object_bytes h (x :: u64)) 0 (length_field h n) = length_field h n" for x
    by (simp add: memcpy_at_def)
  show ?thesis
    using f recv v ne m
    by (simp add: UDS_readLength_def IPCBufferReader_read_def fresh_def setBuffer_def reader_isComplete_def Let_def
        setLength_def)
qed

lemma UDS_readBlocking_frame:
  assumes f: "fresh h c" and i: "inbox c = frame_bytes h p @ rest" and small: "length p < 2 ^ 64"
    and d: "delivering (recvs c)" and enough: "length p < length (recvs c)"
  shows "\<exists>k msg. k \<le> Suc (length p) \<and> UDS_readBlocking h c = Some (Inr (IPC_OK,
      c\<lparr>inbox := rest, recvs := drop k (recvs c), m_messageLengthReader := \<lparr>rb_receivedBytesCount = 8, rb_size = 8\<rparr>,
        m_currentInputMessage := msg\<rparr>))
    \<and> ba_invar (m_payload msg) \<and> contents (m_payload msg) = p \<and> \<not> m_isError msg"
proof -
  have "recvs c \<noteq> []" using enough by auto
  from delivering_Cons [OF d this] obtain j r where r: "recvs c = Delivers j # r" "8 \<le> j" "delivering r" .
  have lr: "length p \<le> length r" using enough r(1) by simp
  let ?m1 = "setLength (m_currentInputMessage c) (of_nat (length p))"
  let ?c1 = "c\<lparr>inbox := p @ rest, recvs := r, m_messageLengthReader := \<lparr>rb_receivedBytesCount = 8, rb_size = 8\<rparr>,
    m_currentInputMessage := ?m1\<rparr>"
  have l: "UDS_readLength h True c = (IPC_OK, ?c1)"
    using i r f by (intro UDS_readLength_delivers) (simp_all add: frame_bytes_def)
  have n: "unat (m_totalMessageSize ?m1 - m_receivedSize ?m1) = length p"
    using small by (simp add: setLength_def unat_of_nat)
  obtain k where k: "k \<le> length p" and loop: "readBytesBlocking_loop ?c1 (length p) []
      = Some (Inr (IPC_OK, p, ?c1\<lparr>inbox := rest, recvs := drop k r\<rparr>))"
    using readBytesBlocking_delivers [of ?c1 p rest "length p" "[]"] r lr by auto
  let ?msg = "?m1\<lparr>m_payload := ba_poke (m_payload ?m1) 0 p, m_receivedSize := m_totalMessageSize ?m1\<rparr>"
  have b: "ba_invar (m_payload ?m1)" "length (contents (m_payload ?m1)) = length p"
    using f small by (simp_all add: setLength_def fresh_def unat_of_nat ba_size_contents [symmetric])
  have read: "UDS_readBlocking h c = Some (Inr (IPC_OK, ?c1\<lparr>inbox := rest, recvs := drop k r, m_currentInputMessage := ?msg\<rparr>))"
    using l n loop r by (simp add: UDS_readBlocking_def reader_isComplete_def Let_def setLength_def)
  have err: "\<not> m_isError (m_currentInputMessage c)"
    using f by (simp add: fresh_def IPCInputMessage_new_def IPCInput_clear_def IPCMessage_setHeader_def Let_def IPCMessage.defs
        IPCInputMessage.defs)
  show ?thesis
    using k r read b err
    by (intro exI [of _ "Suc k"] exI [of _ ?msg]) (simp add: setLength_def memcpy_at_def)
qed

section \<open>Reading until the answer\<close>

text \<open>The bytes of a message of the daemon, and the frames of several.\<close>

definition ipc_bytes :: "endianness \<Rightarrow> IPCMessageHeader \<times> u8 list \<Rightarrow> u8 list" where
  "ipc_bytes h = (\<lambda>(hdr, user). IPCMessageHeader_bytes h hdr @ user)"

definition ipc_stream :: "endianness \<Rightarrow> (IPCMessageHeader \<times> u8 list) list \<Rightarrow> u8 list" where
  "ipc_stream h ps = concat (map (\<lambda>p. frame_bytes h (ipc_bytes h p)) ps)"

definition is_ipc :: "IPCMessageHeader \<times> u8 list \<Rightarrow> bool" where
  "is_ipc = (\<lambda>(hdr, user). IPCMessageHeader_ok hdr \<and> length user < 2 ^ 63)"

definition shows_as :: "endianness \<Rightarrow> IPCMessageHeader \<times> u8 list \<Rightarrow> IPCInputMessage \<Rightarrow> bool" where
  "shows_as h = (\<lambda>(hdr, user) msg. ipc_view h msg hdr user \<and> \<not> m_isError msg)"

lemma ipc_stream_simps [simp]:
  "ipc_stream h [] = []" "ipc_stream h (p # ps) = frame_bytes h (ipc_bytes h p) @ ipc_stream h ps"
  "ipc_stream h (ps @ qs) = ipc_stream h ps @ ipc_stream h qs"
  by (simp_all add: ipc_stream_def)

lemma length_frame_bytes [simp]: "length (frame_bytes h p) = 8 + length p"
  by (simp add: frame_bytes_def)

lemma read_message:
  assumes f: "fresh h c" and i: "inbox c = frame_bytes h (ipc_bytes h p) @ rest" and p: "is_ipc p"
    and d: "delivering (recvs c)" and enough: "length (inbox c) \<le> length (recvs c)"
  shows "\<exists>k msg c1. UDS_readBlocking h c = Some (Inr (IPC_OK, c1)) \<and> m_currentInputMessage c1 = msg
    \<and> newInputMessage h c1 = c\<lparr>inbox := rest, recvs := drop k (recvs c)\<rparr> \<and> shows_as h p msg
    \<and> length rest \<le> length (recvs c) - k"
proof -
  obtain hdr user where hu: "p = (hdr, user)" by fastforce
  have "length (ipc_bytes h p) < 2 ^ 64" using p by (simp add: hu ipc_bytes_def is_ipc_def)
  moreover have "length (ipc_bytes h p) < length (recvs c)" using i enough by simp
  ultimately obtain k msg where k: "k \<le> Suc (length (ipc_bytes h p))" and
    r: "UDS_readBlocking h c = Some (Inr (IPC_OK, c\<lparr>inbox := rest, recvs := drop k (recvs c),
      m_messageLengthReader := \<lparr>rb_receivedBytesCount = 8, rb_size = 8\<rparr>, m_currentInputMessage := msg\<rparr>))"
    and msg: "ba_invar (m_payload msg)" "contents (m_payload msg) = ipc_bytes h p" "\<not> m_isError msg"
    using UDS_readBlocking_frame [OF f i _ d] by blast
  have "shows_as h p msg" using msg p by (simp add: shows_as_def hu ipc_bytes_def ipc_view_def is_ipc_def)
  moreover have "length rest \<le> length (recvs c) - k" using i enough k by simp
  ultimately show ?thesis using r newInputMessage_fresh [OF f] by auto
qed

text \<open>
  Until it stops, the callback does with a message what \<open>keep\<close> does: nothing to the part of
  the connection that reads.
\<close>

lemma read_until:
  assumes "fresh h c" and "inbox c = ipc_stream h (ps @ [q]) @ rest" and "\<forall>p \<in> set (ps @ [q]). is_ipc p"
    and "delivering (recvs c)" and "length (inbox c) \<le> length (recvs c)"
    and go: "\<And>p m l c. p \<in> set ps \<Longrightarrow> shows_as h p m \<Longrightarrow> f m l c = Inr (True, l, keep m c)"
    and stop: "\<And>m l c. shows_as h q m \<Longrightarrow> f m l c = Inr (False, result m l, c)"
    and keep: "\<And>m c. inbox (keep m c) = inbox c" "\<And>m c. recvs (keep m c) = recvs c" "\<And>m c. fresh h (keep m c) = fresh h c"
      "\<And>m c i r. keep m (c\<lparr>inbox := i, recvs := r\<rparr>) = (keep m c)\<lparr>inbox := i, recvs := r\<rparr>"
  shows "\<exists>k ms m. readIncomingMessagesBlocking h f l c
      = Some (Inr (IPC_OK, result m l, (fold keep ms c)\<lparr>inbox := rest, recvs := drop k (recvs c)\<rparr>))
    \<and> list_all2 (shows_as h) ps ms \<and> shows_as h q m"
  using assms(1-5) go
proof (induction ps arbitrary: c)
  case Nil
  then obtain k msg c1 where r: "UDS_readBlocking h c = Some (Inr (IPC_OK, c1))" "m_currentInputMessage c1 = msg"
    "newInputMessage h c1 = c\<lparr>inbox := rest, recvs := drop k (recvs c)\<rparr>" "shows_as h q msg"
    using read_message [of h c q rest] by auto
  show ?case
    using r stop [OF r(4)] by (intro exI [of _ k] exI [of _ "[]"] exI [of _ msg])
      (subst readIncomingMessagesBlocking.simps, simp)
next
  case (Cons p ps)
  let ?rest = "ipc_stream h (ps @ [q]) @ rest"
  obtain k msg c1 where r: "UDS_readBlocking h c = Some (Inr (IPC_OK, c1))" "m_currentInputMessage c1 = msg"
    "newInputMessage h c1 = c\<lparr>inbox := ?rest, recvs := drop k (recvs c)\<rparr>" "shows_as h p msg"
    "length ?rest \<le> length (recvs c) - k"
    using Cons.prems read_message [of h c p ?rest] by auto
  let ?c2 = "keep msg (c\<lparr>inbox := ?rest, recvs := drop k (recvs c)\<rparr>)"
  have "\<exists>k' ms m. readIncomingMessagesBlocking h f l ?c2
      = Some (Inr (IPC_OK, result m l, (fold keep ms ?c2)\<lparr>inbox := rest, recvs := drop k' (recvs ?c2)\<rparr>))
    \<and> list_all2 (shows_as h) ps ms \<and> shows_as h q m"
  proof (rule Cons.IH)
    show "fresh h ?c2" "delivering (recvs ?c2)" using Cons.prems(1,4) by (simp_all add: keep delivering_drop)
    show "inbox ?c2 = ipc_stream h (ps @ [q]) @ rest" "\<forall>p \<in> set (ps @ [q]). is_ipc p"
      "length (inbox ?c2) \<le> length (recvs ?c2)" using r(5) Cons.prems(3) by (simp_all add: keep)
    show "f m l c = Inr (True, l, keep m c)" if "p \<in> set ps" "shows_as h p m" for p m l c
      using Cons.prems(6) [of p m] that by simp
  qed
  then obtain k' ms m where loop: "readIncomingMessagesBlocking h f l ?c2
      = Some (Inr (IPC_OK, result m l, (fold keep ms ?c2)\<lparr>inbox := rest, recvs := drop (k' + k) (recvs c)\<rparr>))"
    and ms: "list_all2 (shows_as h) ps ms" "shows_as h q m" by (auto simp: keep)
  have commute: "(fold keep ms (a\<lparr>inbox := i, recvs := j\<rparr>)) = (fold keep ms a)\<lparr>inbox := i, recvs := j\<rparr>" for a i j
    by (induction ms arbitrary: a) (simp_all add: keep)
  have "readIncomingMessagesBlocking h f l c = readIncomingMessagesBlocking h f l ?c2"
    using r Cons.prems(6) [OF _ r(4)] by (subst readIncomingMessagesBlocking.simps) simp
  then show ?case
    using loop ms r(4) by (intro exI [of _ "k' + k"] exI [of _ "msg # ms"] exI [of _ m]) (simp add: keep commute)
qed

section \<open>Writing a request\<close>

text \<open>The kernel takes the length, and then the \<open>n\<close> bytes of the message, at once.\<close>

fun takes :: "nat \<Rightarrow> send_outcome list \<Rightarrow> bool" where
  "takes n (Accepts a # Accepts b # _) = (8 \<le> a \<and> n \<le> b)"
| "takes n _ = False"

definition uncongested :: "'a SocketStreamConnection_scheme \<Rightarrow> nat \<Rightarrow> bool" where
  "uncongested c n = (isConnected c \<and> takes n (sends c))"

lemma writeBytesBlocking_uncongested:
  "isConnected c \<Longrightarrow> sends c = Accepts a # r \<Longrightarrow> length data \<le> a \<Longrightarrow> data \<noteq> [] \<Longrightarrow>
   writeBytesBlocking hook c data = Some (Inr (IPC_OK,
     (increaseWrittenBytesCounter c (length data))\<lparr>wire := wire c @ data, sends := r\<rparr>))"
  by (cases r) (simp_all add: writeBytesBlocking_def isConnected_def socket_send_def)

definition written :: "endianness \<Rightarrow> 'b IPCMessage_scheme \<Rightarrow> 'a SocketStreamConnection_scheme \<Rightarrow> 'a SocketStreamConnection_scheme" where
  "written h msg c = c\<lparr>m_writtenBytesCount := m_writtenBytesCount c + 8 + of_nat (ba_size (m_payload msg)),
     wire := wire c @ frame h msg, sends := drop 2 (sends c)\<rparr>"

lemma ClientLib_writeBlocking_uncongested:
  assumes "uncongested c (ba_size (m_payload msg))" and "contents (m_payload msg) \<noteq> []" and "ba_invar (m_payload msg)"
  shows "ClientLib_writeBlocking h msg c = Some (Inr (IPC_OK, written h msg c))"
proof -
  let ?n = "ba_size (m_payload msg)"
  obtain a b r where s: "sends c = Accepts a # Accepts b # r" "8 \<le> a" "?n \<le> b" and conn: "isConnected c"
    using assms(1) unfolding uncongested_def by (auto elim: takes.elims(2))
  let ?c1 = "(increaseWrittenBytesCounter c 8)\<lparr>wire := wire c @ length_field h ?n, sends := Accepts b # r\<rparr>"
  have ne: "length_field h ?n \<noteq> []" by (metis length_length_field list.size(3) zero_neq_numeral)
  have w1: "writeBytesBlocking hook c (length_field h ?n) = Some (Inr (IPC_OK, ?c1))" for hook
    using writeBytesBlocking_uncongested [OF conn s(1) _ ne] s(2) by simp
  have conn1: "isConnected ?c1" using conn by (simp add: isConnected_def)
  have data: "take ?n (getData (m_payload msg)) = contents (m_payload msg)" by (simp add: contents_def)
  have len: "length (contents (m_payload msg)) \<le> ?n" by (simp add: contents_def)
  have w2: "writeBytesBlocking hook ?c1 (contents (m_payload msg)) = Some (Inr (IPC_OK,
      (increaseWrittenBytesCounter ?c1 (length (contents (m_payload msg))))
        \<lparr>wire := wire ?c1 @ contents (m_payload msg), sends := r\<rparr>))" for hook
    using s(3) len assms(2) by (intro writeBytesBlocking_uncongested [where a = b, OF conn1]) simp_all
  have n: "length (contents (m_payload msg)) = ?n" using assms(3) by (simp add: ba_size_contents)
  have "(increaseWrittenBytesCounter ?c1 (length (contents (m_payload msg))))
      \<lparr>wire := wire ?c1 @ contents (m_payload msg), sends := r\<rparr> = written h msg c"
    using s(1) n by (simp add: written_def increaseWrittenBytesCounter_def frame_def)
  with w1 w2 show ?thesis by (simp add: ClientLib_writeBlocking_def UDS_writeBlocking_def Let_def data)
qed

lemma ipc_view_assignRequestID:
  assumes "ipc_view h msg hdr user"
  shows "fst (assignRequestID h n msg) = n + 1"
    and "ipc_view h (snd (assignRequestID h n msg)) (hdr\<lparr>ipc_requestID := n\<rparr>) user"
  using assms ipc_view_setHeader [OF assms, of "\<lambda>hdr. hdr\<lparr>ipc_requestID := n\<rparr>"]
  by (simp_all add: assignRequestID_def ipc_view_def IPCMessageHeader_ok_def)

lemma ipc_view_uncongested:
  assumes v: "ipc_view h msg hdr user" and u: "uncongested c (4 + length user)"
  shows "ClientLib_writeBlocking h msg c = Some (Inr (IPC_OK, written h msg c))"
    and "wire (written h msg c) = wire c @ frame_bytes h (ipc_bytes h (hdr, user))"
proof -
  have c: "contents (m_payload msg) = ipc_bytes h (hdr, user)" "ba_invar (m_payload msg)"
    using v by (simp_all add: ipc_view_def ipc_bytes_def)
  then have n: "ba_size (m_payload msg) = 4 + length user" by (simp add: ba_size_contents ipc_bytes_def)
  have "contents (m_payload msg) \<noteq> []" using c n by (auto simp: ba_size_contents)
  with ClientLib_writeBlocking_uncongested [of c msg] c n u
  show "ClientLib_writeBlocking h msg c = Some (Inr (IPC_OK, written h msg c))" by simp
  show "wire (written h msg c) = wire c @ frame_bytes h (ipc_bytes h (hdr, user))"
    using c by (simp add: written_def frame_frame_bytes)
qed

lemma written_simps [simp]:
  fixes c :: ClientDaemonConnection
  shows "fresh h (written h msg c) = fresh h c" "inbox (written h msg c) = inbox c" "recvs (written h msg c) = recvs c"
    "m_queue (written h msg c) = m_queue c" "m_registry (written h msg c) = m_registry c"
    "handled (written h msg c) = handled c" "nextAvailableRequestID (written h msg c) = nextAvailableRequestID c"
    "app_calls (written h msg c) = app_calls c" "isConnected (written h msg c) = isConnected c"
  by (simp_all add: written_def fresh_def isConnected_def)

section \<open>Requests\<close>

text \<open>
  A connection on which a request can be made and answered: nothing is half read, the kernel
  takes what is written, and the bytes it will deliver are whole messages, with the answer
  among them.
\<close>

definition answered ::
    "endianness \<Rightarrow> ClientDaemonConnection \<Rightarrow> nat \<Rightarrow> (IPCMessageHeader \<times> u8 list) list \<Rightarrow> (IPCMessageHeader \<times> u8 list)
     \<Rightarrow> u8 list \<Rightarrow> bool" where
  "answered h c n others answer rest =
     (fresh h c \<and> queue_ok (m_queue c) \<and> uncongested c (4 + n)
      \<and> inbox c = ipc_stream h (others @ [answer]) @ rest \<and> list_all is_ipc (others @ [answer])
      \<and> delivering (recvs c) \<and> length (inbox c) \<le> length (recvs c))"

lemma shows_as_assign:
  assumes "shows_as h p m" and "ba_invar (m_payload a)"
  shows "shows_as h p (IPCInput_assign a m)"
  using assms by (cases p) (simp add: shows_as_def ipc_view_def IPCInput_assign_def)

lemma shows_as_copy: "shows_as h p m \<Longrightarrow> shows_as h p (IPCInput_copy m)"
  by (simp add: IPCInput_copy_def shows_as_assign IPCMessage.defs)

lemma fold_pushToQueue:
  "m_registry (fold pushToQueue ms c) = m_registry c \<and> handled (fold pushToQueue ms c) = handled c
   \<and> wire (fold pushToQueue ms c) = wire c \<and> nextAvailableRequestID (fold pushToQueue ms c) = nextAvailableRequestID c
   \<and> app_calls (fold pushToQueue ms c) = app_calls c \<and> fresh h (fold pushToQueue ms c) = fresh h c"
  by (induction ms arbitrary: c) (simp_all add: pushToQueue_def fresh_def)

lemma fold_pushToQueue_queued:
  "queue_ok (m_queue c) \<Longrightarrow> queue_ok (m_queue (fold pushToQueue ms c))
     \<and> queued (m_queue (fold pushToQueue ms c)) = queued (m_queue c) @ map IPCInput_copy ms"
proof (induction ms arbitrary: c)
  case (Cons m ms)
  with smq.put_elems [of "m_queue c" m] Cons.IH [of "pushToQueue m c"] show ?case by simp
qed simp

text \<open>What the connection is like after the request: the others queued, the answer gone.\<close>

definition request_done ::
    "endianness \<Rightarrow> (IPCMessageHeader \<times> u8 list) \<Rightarrow> (IPCMessageHeader \<times> u8 list) list \<Rightarrow> u8 list
     \<Rightarrow> ClientDaemonConnection \<Rightarrow> ClientDaemonConnection \<Rightarrow> bool" where
  "request_done h request others rest c c' =
     (wire c' = wire c @ frame_bytes h (ipc_bytes h request) \<and> inbox c' = rest \<and> fresh h c'
      \<and> (\<exists>ms. queued (m_queue c') = queued (m_queue c) @ ms \<and> list_all2 (shows_as h) others ms)
      \<and> handled c' = handled c \<and> m_registry c' = m_registry c)"

lemma queued_others:
  assumes "queue_ok (m_queue c)" and "list_all2 (shows_as h) others ms"
  shows "\<exists>ns. queued (m_queue (fold pushToQueue ms c)) = queued (m_queue c) @ ns \<and> list_all2 (shows_as h) others ns"
proof (intro exI conjI)
  show "queued (m_queue (fold pushToQueue ms c)) = queued (m_queue c) @ map IPCInput_copy ms"
    using fold_pushToQueue_queued [OF assms(1)] by simp
  show "list_all2 (shows_as h) others (map IPCInput_copy ms)"
    using assms(2) by (auto simp: list_all2_map2 intro: shows_as_copy elim: list_all2_mono)
qed

lemma writeRequest_answered:
  assumes v: "ipc_view h msg hdr user" and a: "answered h c (length user) others answer rest"
    and id: "ipc_requestID (fst answer) = nextAvailableRequestID c"
    and no: "list_all (\<lambda>p. ipc_requestID (fst p) \<noteq> nextAvailableRequestID c) others"
  shows "\<exists>m c'. writeRequest h msg c = Some (Inr (m, c')) \<and> shows_as h answer m
    \<and> request_done h (hdr\<lparr>ipc_requestID := nextAvailableRequestID c\<rparr>, user) others rest c c'
    \<and> nextAvailableRequestID c' = nextAvailableRequestID c + 1"
proof -
  let ?id = "nextAvailableRequestID c" and ?msg = "snd (assignRequestID h (nextAvailableRequestID c) msg)"
  let ?hdr = "hdr\<lparr>ipc_requestID := ?id\<rparr>" and ?c0 = "c\<lparr>nextAvailableRequestID := nextAvailableRequestID c + 1\<rparr>"
  let ?c1 = "written h ?msg ?c0"
  let ?f = "\<lambda>incomingMsg answerMessage c. if isResponseOf h incomingMsg ?msg
    then Inr (False, IPCInput_assign answerMessage incomingMsg, c) else Inr (True, answerMessage, pushToQueue incomingMsg c)"
  note v' = ipc_view_assignRequestID [OF v, of ?id]
  have u: "uncongested ?c0 (4 + length user)" using a by (simp add: answered_def uncongested_def isConnected_def)
  note w = ipc_view_uncongested [OF v'(2) u]
  have resp: "isResponseOf h m ?msg \<longleftrightarrow> ipc_requestID (fst p) = ?id" if "shows_as h p m" for p m
    using that ipc_view_fields(2) [OF v'(2)] ipc_view_fields(2) [of h m "fst p" "snd p"]
    by (auto simp: isResponseOf_def shows_as_def case_prod_unfold)
  have f0: "fresh h ?c1" using a by (simp add: answered_def)
  have "\<exists>k ms m. readIncomingMessagesBlocking h ?f (IPCInputMessage_new h) ?c1
      = Some (Inr (IPC_OK, IPCInput_assign (IPCInputMessage_new h) m,
          (fold pushToQueue ms ?c1)\<lparr>inbox := rest, recvs := drop k (recvs ?c1)\<rparr>))
    \<and> list_all2 (shows_as h) others ms \<and> shows_as h answer m"
    using a no id f0 by (intro read_until [where result = "\<lambda>m l. IPCInput_assign l m"])
      (auto simp: answered_def resp list_all_iff pushToQueue_commute)
  then obtain k ms m where r: "readIncomingMessagesBlocking h ?f (IPCInputMessage_new h) ?c1
      = Some (Inr (IPC_OK, IPCInput_assign (IPCInputMessage_new h) m,
          (fold pushToQueue ms ?c1)\<lparr>inbox := rest, recvs := drop k (recvs ?c1)\<rparr>))"
    and ms: "list_all2 (shows_as h) others ms" "shows_as h answer m" by blast
  have "writeRequest h msg c = Some (Inr (IPCInput_assign (IPCInputMessage_new h) m,
      (fold pushToQueue ms ?c1)\<lparr>inbox := rest, recvs := drop k (recvs ?c1)\<rparr>))"
    using w(1) r v'(1) by (simp add: writeRequest_def case_prod_unfold Let_def)
  moreover have "shows_as h answer (IPCInput_assign (IPCInputMessage_new h) m)"
    using ms(2) by (rule shows_as_assign) (simp add: IPCInputMessage_new_def IPCInput_clear_def IPCMessage_setHeader_def
        Let_def IPCMessage.defs)
  moreover have "request_done h (?hdr, user) others rest c ((fold pushToQueue ms ?c1)\<lparr>inbox := rest, recvs := drop k (recvs ?c1)\<rparr>)"
    using queued_others [of ?c1 h others ms] ms(1) a w(2) f0 fold_pushToQueue [of ms ?c1 h]
    by (simp add: request_done_def answered_def)
  ultimately show ?thesis using fold_pushToQueue [of ms ?c1 h] by auto
qed

section \<open>Calls\<close>

text \<open>
  While it waits for the answer to a message the library keeps the other messages, and drops
  what is not a message.
\<close>

definition carries :: "endianness \<Rightarrow> IPCMessageHeader \<times> u8 list \<Rightarrow> Message \<Rightarrow> bool" where
  "carries h p m = (ipc_messageType (fst p) = SEND_MESSAGE \<and> header_ok m
     \<and> snd p = MessageHeader_bytes h m @ payload m)"

definition keepMessage :: "endianness \<Rightarrow> IPCInputMessage \<Rightarrow> ClientDaemonConnection \<Rightarrow> ClientDaemonConnection" where
  "keepMessage h m c = (if IPCMessage_getMessageType h m = SEND_MESSAGE then pushToQueue m c else c)"

lemma shows_as_type: "shows_as h p m \<Longrightarrow> IPCMessage_getMessageType h m = ipc_messageType (fst p)"
  by (auto simp: shows_as_def case_prod_unfold ipc_view_fields)

lemma shows_as_carries:
  assumes "shows_as h p m" and "carries h p msg"
  shows "readMessageFromIPCMessage h m = Inr msg"
  using assms by (intro readMessage_view) (auto simp: shows_as_def carries_def message_view_def case_prod_unfold)

lemma fold_keepMessage:
  "fold (keepMessage h) ms c = fold pushToQueue (filter (\<lambda>m. IPCMessage_getMessageType h m = SEND_MESSAGE) ms) c"
  by (induction ms arbitrary: c) (simp_all add: keepMessage_def)

lemma list_all2_filter_types:
  "list_all2 (shows_as h) ps ms \<Longrightarrow>
   list_all2 (shows_as h) (filter (\<lambda>p. ipc_messageType (fst p) = SEND_MESSAGE) ps)
     (filter (\<lambda>m. IPCMessage_getMessageType h m = SEND_MESSAGE) ms)"
  by (induction rule: list_all2_induct) (auto simp: shows_as_type)

lemma waitForAnswer_answered:
  assumes hdr: "OutputMessage_getHeader h om = MessageHeader.truncate req"
    and a: "fresh h c" "inbox c = ipc_stream h (others @ [answer]) @ rest" "list_all is_ipc (others @ [answer])"
      "delivering (recvs c)" "length (inbox c) \<le> length (recvs c)"
    and ans: "carries h answer reply" "isAnswerTo reply req"
    and no: "\<forall>p \<in> set others. ipc_messageType (fst p) \<noteq> SEND_MESSAGE \<or> (\<exists>m. carries h p m \<and> \<not> isAnswerTo m req)"
  shows "\<exists>k ms m. waitForAnswer h om c = Some (Inr (Some (IPCInput_copy m),
      (fold (keepMessage h) ms c)\<lparr>inbox := rest, recvs := drop k (recvs c)\<rparr>))
    \<and> list_all2 (shows_as h) others ms \<and> shows_as h answer m"
proof -
  let ?f = "\<lambda>incomingIPCMsg answerMessage c. if IPCMessage_getMessageType h incomingIPCMsg = SEND_MESSAGE
    then bindE (readMessageFromIPCMessage h incomingIPCMsg) (\<lambda>inputMsg.
      if isAnswerTo inputMsg (OutputMessage_getHeader h om) then Inr (False, Some (IPCInput_copy incomingIPCMsg), c)
      else Inr (True, answerMessage, pushToQueue incomingIPCMsg c))
    else Inr (True, answerMessage, c)"
  have ia: "isAnswerTo m (MessageHeader.truncate req) = isAnswerTo m req" for m :: Message
    by (simp add: isAnswerTo_def MessageHeader.truncate_def SomeIPHeader.defs MessageHeader.defs)
  have "\<exists>k ms m. readIncomingMessagesBlocking h ?f None c
      = Some (Inr (IPC_OK, Some (IPCInput_copy m), (fold (keepMessage h) ms c)\<lparr>inbox := rest, recvs := drop k (recvs c)\<rparr>))
    \<and> list_all2 (shows_as h) others ms \<and> shows_as h answer m"
  proof (rule read_until [where result = "\<lambda>m l. Some (IPCInput_copy m)"])
    show "?f m l c = Inr (True, l, keepMessage h m c)" if "p \<in> set others" "shows_as h p m" for p m l c
      using that no shows_as_type [OF that(2)] shows_as_carries [OF that(2)]
      by (fastforce simp: hdr ia keepMessage_def)
    show "?f m l c = Inr (False, Some (IPCInput_copy m), c)" if "shows_as h answer m" for m l c
      using ans shows_as_type [OF that] shows_as_carries [OF that] by (auto simp: hdr ia carries_def)
  qed (use a in \<open>auto simp: list_all_iff keepMessage_def pushToQueue_commute\<close>)
  then show ?thesis by (force simp: waitForAnswer_def)
qed

end
