(* ===== verification/Client_Lib_Properties.thy ===== *)
theory Client_Lib_Properties
  imports Client_Lib_Requests
begin

text \<open>
  Properties of the client library: the queue, the order of messages, requests and their
  answers, and the registry of services.
\<close>

section \<open>The queue\<close>

text \<open>
  C7. The queue of the library is a first-in first-out queue: whatever sequence of pushes and
  pops it goes through, from its construction, the messages the pops return are those of a
  list to whose end the pushes add copies and from whose front the pops take, and null
  exactly when that list is empty. The index of the head and the vector that is only cleared
  when everything has been taken do not show.
\<close>

theorem message_queue_refines_list:
  "fst (run_queue queue_push queue_pop ops SafeMessageQueue_new)
   = fst (run_queue (\<lambda>m xs. xs @ [IPCInput_copy m]) list_get ops [])"
proof -
  obtain ms q where r: "run_queue queue_push queue_pop ops SafeMessageQueue_new = (ms, q)" by fastforce
  have "queue_ok SafeMessageQueue_new" "queued SafeMessageQueue_new = []"
    by (simp_all add: SafeMessageQueue_new_def queue_ok_def queued_def)
  with smq.run_refines [OF _ r] r show ?thesis by simp
qed

section \<open>Lists of services in messages\<close>

lemma length_ids_bytes [simp]: "length (ids_bytes h ids) = 4"
  by simp

lemma each_service_ids:
  "each_service h f (dser pre (concat (map (ids_bytes h) ss) @ rest)) c
   = bindE (foldE f ss c) (each_service h f (dser (pre @ concat (map (ids_bytes h) ss)) rest))"
proof (induction ss arbitrary: pre c)
  case (Cons s ss)
  let ?rest = "concat (map (ids_bytes h) ss) @ rest"
  have "each_service h f (dser pre (ids_bytes h s @ ?rest)) c
      = bindE (f s c) (each_service h f (dser (pre @ ids_bytes h s) ?rest))"
    by (subst each_service.simps) (simp add: read_ids_dser [simplified] bindE_def split: sum.splits)
  then show ?case using Cons.IH [of "pre @ ids_bytes h s"] by (cases "f s c") simp_all
qed simp

lemma reader_get_short: "length rest < 2 \<Longrightarrow> reader_get h (dser pre rest) = (Inl OutOfBounds :: (u16 \<times> Deserializer) result)"
  by (simp add: reader_get_def IPC_read_def readValue_def readBasicTypeValue_def IPCSerializer_def readRawData_short)

lemma read_ids_short:
  assumes "length rest < 4"
  shows "read_ids h (dser pre rest) = Inl OutOfBounds"
proof (cases "length rest < 2")
  case False
  let ?v = "object_value h (take 2 rest) :: u16"
  have "take 2 rest = object_bytes h ?v" using False by (simp add: object_bytes_object_value)
  then have rest: "rest = object_bytes h ?v @ drop 2 rest" by (metis append_take_drop_id)
  have "reader_get h (dser pre rest) = Inr (?v, dser (pre @ object_bytes h ?v) (drop 2 rest))"
    by (subst rest) (simp add: reader_get_dser)
  with assms show ?thesis by (simp add: read_ids_def reader_get_short)
qed (simp add: read_ids_def reader_get_short)

lemma each_service_end:
  "length rest < 2 \<Longrightarrow> each_service h f (dser pre rest) c = Inr c"
  "2 \<le> length rest \<Longrightarrow> length rest < 4 \<Longrightarrow> each_service h f (dser pre rest) c = Inl OutOfBounds"
  by (subst each_service.simps; simp add: read_ids_short)+

lemma service_in_list_ids:
  "service_in_list h (dser pre (concat (map (ids_bytes h) ss))) s = Inr (s \<in> set ss)"
proof (induction ss arbitrary: pre)
  case Nil
  then show ?case by (subst service_in_list.simps) simp
next
  case (Cons x ss)
  let ?rest = "concat (map (ids_bytes h) ss)"
  have ne: "object_bytes h (serviceID x) \<noteq> []" using length_ids_bytes [of h x] by (intro notI) simp
  have "service_in_list h (dser pre (ids_bytes h x @ ?rest)) s
      = (if x = s then Inr True else service_in_list h (dser (pre @ ids_bytes h x) ?rest) s)"
    by (subst service_in_list.simps) (simp add: read_ids_dser [simplified] ne)
  then show ?case using Cons.IH [of "pre @ ids_bytes h x"] by auto
qed

text \<open>The calls of the listeners for one service.\<close>

definition available_calls :: "ServiceIDs list \<Rightarrow> ServiceIDs \<Rightarrow> AppCall list" where
  "available_calls listeners s = map (\<lambda>(i, _). OnServiceAvailable i) (filter (\<lambda>(i, l). matches s l) (enumerate 0 listeners))"

definition unavailable_calls :: "ServiceIDs list \<Rightarrow> ServiceIDs \<Rightarrow> AppCall list" where
  "unavailable_calls listeners s = map (\<lambda>(i, _). OnServiceUnavailable i) (filter (\<lambda>(i, l). matches s l) (enumerate 0 listeners))"

lemma concat_calls:
  "concat (map (\<lambda>(i, l). if P l then [f i] else []) xs) = map (\<lambda>(i, _). f i) (filter (\<lambda>(i, l). P l) xs)"
  by (induction xs) auto

lemma onServiceRegistered_eq:
  "ClientLib_onServiceRegistered s c = c\<lparr>
     m_registry := (m_registry c)\<lparr>m_availableServices := m_availableServices (m_registry c) @ [s]\<rparr>,
     app_calls := app_calls c @ available_calls (m_serviceAvailabilityListeners (m_registry c)) s\<rparr>"
  by (simp add: ClientLib_onServiceRegistered_def registry_onServiceRegistered_def app_call_def available_calls_def
      listener_onServiceRegistered_def concat_calls)

lemma onServiceUnregistered_eq:
  "ClientLib_onServiceUnregistered s c =
     (if s \<notin> set (m_availableServices (m_registry c)) then Inl OutOfBounds
      else Inr (c\<lparr>m_registry := (m_registry c)\<lparr>m_availableServices := remove1 s (m_availableServices (m_registry c))\<rparr>,
        app_calls := app_calls c @ unavailable_calls (m_serviceAvailabilityListeners (m_registry c)) s\<rparr>))"
  by (simp add: ClientLib_onServiceUnregistered_def registry_onServiceUnregistered_def app_call_def unavailable_calls_def
      listener_onServiceUnregistered_def concat_calls)

lemma foldE_registered:
  "foldE (\<lambda>s c. Inr (ClientLib_onServiceRegistered s c)) ss c = Inr (c\<lparr>
     m_registry := (m_registry c)\<lparr>m_availableServices := m_availableServices (m_registry c) @ ss\<rparr>,
     app_calls := app_calls c @ concat (map (available_calls (m_serviceAvailabilityListeners (m_registry c))) ss)\<rparr>)"
  by (induction ss arbitrary: c) (simp_all add: onServiceRegistered_eq)

section \<open>Messages\<close>

text \<open>Messages and a connection for the examples.\<close>

definition as_input :: "IPCMessage \<Rightarrow> IPCInputMessage" where
  "as_input msg = (let n = of_nat (ba_size (m_payload msg)) in IPCMessage.extend msg (IPCInputMessage.fields n n False))"

definition example_client :: "endianness \<Rightarrow> ClientDaemonConnection" where
  "example_client h = (newInputMessage h (ClientDaemonConnection_new h))
     \<lparr>m_connectionFileDescriptor := 3, messageReceivedCallback := True\<rparr>"

definition example_registered :: "endianness \<Rightarrow> IPCInputMessage" where
  "example_registered h = as_input (write_ids h (IPCOutputMessage_new h SERVICES_REGISTERED) (ServiceIDs_new 0x1234 1))"

lemma as_input_view: "ipc_view h (as_input m) hdr user = ipc_view h m hdr user"
  by (simp add: as_input_def ipc_view_def IPCMessage.defs Let_def)

lemma example_client_ok: "client_ok h (example_client h)" "fresh h (example_client h)"
  "inbox (example_client h) = []" "queued (m_queue (example_client h)) = []" "handled (example_client h) = []"
  "isConnected (example_client h)" "nextAvailableRequestID (example_client h) = 0x1111"
  "m_registry (example_client h) = \<lparr>m_availableServices = [], m_serviceAvailabilityListeners = []\<rparr>"
proof -
  let ?n = "newInputMessage h (ClientDaemonConnection_new h)"
  have "reader_invar h (example_client h) = reader_invar h ?n"
    by (simp add: example_client_def reader_invar_def)
  moreover have "queue_ok SafeMessageQueue_new" by (simp add: queue_ok_def SafeMessageQueue_new_def)
  ultimately show "client_ok h (example_client h)"
    by (simp add: client_ok_def newInputMessage_reads) (simp add: example_client_def newInputMessage_reads
        ClientDaemonConnection_new_def)
  show "fresh h (example_client h)" using fresh_newInputMessage [of h "ClientDaemonConnection_new h"]
    by (simp add: example_client_def fresh_def)
qed (simp_all add: example_client_def ClientDaemonConnection_new_def newInputMessage_def setInputMessage_def
    SafeMessageQueue_new_def queued_def isConnected_def UNINITIALIZED_FILE_DESCRIPTOR_def nextAvailableRequestID_init_def)

text \<open>
  C0. What was queued is handled in the order it arrived. When \<open>dispatchQueuedMessages\<close>
  returns, the queue is empty, and the messages handled so far are those handled before,
  those that were queued, in their order, and after them, in the order they stand in the
  stream, the messages the library had to read while it could not write an answer; nothing
  that was read is missing.
\<close>

theorem queued_messages_in_order:
  assumes "dispatchQueuedMessages h c = Some (Inr c')" and "client_ok h c"
  shows "client_ok h c' \<and> queued (m_queue c') = []
    \<and> (\<exists>read. unread h c = concat (map (frame_bytes h) read) @ unread h c'
         \<and> map (\<lambda>m. contents (m_payload m)) (handled c')
           = map (\<lambda>m. contents (m_payload m)) (handled c @ queued (m_queue c)) @ read)"
  using dispatchQueuedMessages_reads [OF assms] assms(2)
  by (auto simp: reads_in_order_def processed_def)

theorem queued_messages_in_order_witness:
  "\<exists>c'. dispatchQueuedMessages LittleEndian (pushToQueue (example_registered LittleEndian) (example_client LittleEndian))
       = Some (Inr c') \<and> length (handled c') \<ge> 1"
proof -
  let ?c = "pushToQueue (example_registered LittleEndian) (example_client LittleEndian)"
  have "(case dispatchQueuedMessages LittleEndian ?c of Some (Inr _) \<Rightarrow> True | _ \<Rightarrow> False)" by code_simp
  then obtain c' where c': "dispatchQueuedMessages LittleEndian ?c = Some (Inr c')"
    by (auto split: option.splits sum.splits)
  have q: "queued (m_queue ?c) \<noteq> []" "client_ok LittleEndian ?c"
    using smq.put_elems [of "m_queue (example_client LittleEndian)" "example_registered LittleEndian"]
      example_client_ok(1) [of LittleEndian] by (auto simp: client_ok_def)
  from queued_messages_in_order [OF c' q(2)] obtain read where
    "map (\<lambda>m. contents (m_payload m)) (handled c') = map (\<lambda>m. contents (m_payload m)) (handled ?c @ queued (m_queue ?c)) @ read"
    by blast
  then have "length (handled c') \<ge> length (queued (m_queue ?c))"
    by (metis (no_types, lifting) length_append length_map le_add1 le_add2 order_trans)
  with q(1) c' show ?thesis by (cases "queued (m_queue ?c)") auto
qed






definition example_news :: "endianness \<Rightarrow> IPCMessageHeader \<times> u8 list" where
  "example_news h = (\<lparr>ipc_requestID = 0, ipc_messageType = SERVICES_REGISTERED, ipc_returnCode = IPC_RC_UNDEFINED\<rparr>,
     ids_bytes h (ServiceIDs_new 0x1234 1))"

text \<open>The example connection with what the kernel will do.\<close>

definition with_kernel ::
    "send_outcome list \<Rightarrow> u8 list \<Rightarrow> recv_outcome list \<Rightarrow> ClientDaemonConnection \<Rightarrow> ClientDaemonConnection" where
  "with_kernel s i r c = c\<lparr>sends := s, inbox := i, recvs := r\<rparr>"

lemma with_kernel_simps [simp]:
  "sends (with_kernel s i r c) = s" "inbox (with_kernel s i r c) = i" "recvs (with_kernel s i r c) = r"
  "fresh h (with_kernel s i r c) = fresh h c" "m_queue (with_kernel s i r c) = m_queue c"
  "isConnected (with_kernel s i r c) = isConnected c" "handled (with_kernel s i r c) = handled c"
  "m_registry (with_kernel s i r c) = m_registry c"
  "nextAvailableRequestID (with_kernel s i r c) = nextAvailableRequestID c"
  by (simp_all add: with_kernel_def fresh_def isConnected_def)


text \<open>
  C0. No message is lost or handled twice. When \<open>dispatchIncomingMessages\<close> returns, the
  messages handled and queued are those handled and queued before and those read since, each
  as often; and what was read is the beginning of the stream, cut into its messages, whatever
  pieces the kernel delivered it in.
\<close>

theorem no_message_lost:
  assumes "dispatchIncomingMessages h c = Some (Inr (b, c'))" and "client_ok h c"
  shows "client_ok h c' \<and> (\<exists>read. unread h c = concat (map (frame_bytes h) read) @ unread h c'
    \<and> mset (map (\<lambda>m. contents (m_payload m)) (handled c' @ queued (m_queue c')))
      = mset (map (\<lambda>m. contents (m_payload m)) (handled c @ queued (m_queue c))) + mset read)"
proof -
  obtain c1 where c1: "dispatchQueuedMessages h c = Some (Inr c1)" and c2: "dispatchIncoming_loop h c1 = Some (Inr c')"
    using assms(1) by (auto simp: dispatchIncomingMessages_def bindW_eq_Some_Inr)
  have r1: "reads_all h c c1" using dispatchQueuedMessages_reads [OF c1 assms(2)] by (simp add: reads_in_order_all)
  then have "client_ok h c1" using assms(2) by (simp add: reads_all_def)
  from reads_all_trans [OF r1 dispatchIncoming_loop_reads [OF c2 this]] assms(2) show ?thesis
    by (simp add: reads_all_def processed_def)
qed

theorem no_message_lost_witness:
  "\<exists>c'. dispatchIncomingMessages LittleEndian (with_kernel [] (ipc_stream LittleEndian [example_news LittleEndian])
       [Delivers 5, Delivers 5, Delivers 5, Delivers 5] (example_client LittleEndian)) = Some (Inr (True, c'))
    \<and> client_ok LittleEndian c'"
proof -
  let ?h = LittleEndian
  let ?c = "with_kernel [] (ipc_stream ?h [example_news ?h]) [Delivers 5, Delivers 5, Delivers 5, Delivers 5] (example_client ?h)"
  have "(case dispatchIncomingMessages ?h ?c of Some (Inr (True, _)) \<Rightarrow> True | _ \<Rightarrow> False)" by code_simp
  then obtain c' where c': "dispatchIncomingMessages ?h ?c = Some (Inr (True, c'))"
    by (auto split: option.splits sum.splits bool.splits)
  have "client_ok ?h ?c" using example_client_ok(1) [of ?h] by (simp add: client_ok_def with_kernel_def reader_invar_def)
  from no_message_lost [OF c' this] c' show ?thesis by blast
qed

definition example_ipc_ping :: "IPCMessageHeader \<times> u8 list" where
  "example_ipc_ping = (\<lparr>ipc_requestID = 0, ipc_messageType = PING, ipc_returnCode = IPC_RC_UNDEFINED\<rparr>, [])"




section \<open>The registry\<close>

lemma handle_services:
  assumes v: "ipc_view h m hdr user"
  shows "ipc_messageType hdr = SERVICES_REGISTERED \<Longrightarrow> handleConstIncomingIPCMessage h m c
      = Some (each_service h (\<lambda>s c. Inr (ClientLib_onServiceRegistered s c)) (dser [] user) (c\<lparr>handled := handled c @ [m]\<rparr>))"
    and "ipc_messageType hdr = SERVICES_UNREGISTERED \<Longrightarrow> handleConstIncomingIPCMessage h m c
      = Some (each_service h ClientLib_onServiceUnregistered (dser [] user) (c\<lparr>handled := handled c @ [m]\<rparr>))"
  using ipc_view_fields(1) [OF v] IPCInputMessageReader_view [OF v]
  by (simp_all add: handleConstIncomingIPCMessage_def)

lemma each_service_exactly:
  "each_service h f (dser [] (concat (map (ids_bytes h) ss))) c = foldE f ss c"
  using each_service_ids [of h f "[]" ss "[]" c] by (cases "foldE f ss c") (simp_all add: each_service_end)

text \<open>
  C23. The registry learns what the daemon says. A message that lists services as registered
  appends exactly those to the registry, in their order, and calls, for each of them in that
  order, each listener whose service it matches, in the order of the listeners.
\<close>

theorem registered_services_learned:
  assumes "ipc_view h m hdr (concat (map (ids_bytes h) ss))" and "ipc_messageType hdr = SERVICES_REGISTERED"
  shows "handleConstIncomingIPCMessage h m c = Some (Inr (c\<lparr>handled := handled c @ [m],
      m_registry := (m_registry c)\<lparr>m_availableServices := m_availableServices (m_registry c) @ ss\<rparr>,
      app_calls := app_calls c @ concat (map (available_calls (m_serviceAvailabilityListeners (m_registry c))) ss)\<rparr>))"
  by (simp add: handle_services(1) [OF assms] each_service_exactly foldE_registered)

theorem registered_services_learned_witness:
  "\<exists>c'. handleConstIncomingIPCMessage LittleEndian (example_registered LittleEndian) (example_client LittleEndian)
       = Some (Inr c') \<and> m_availableServices (m_registry c') = [ServiceIDs_new 0x1234 1]"
proof -
  let ?s = "ServiceIDs_new 0x1234 1"
  have v: "ipc_view LittleEndian (example_registered LittleEndian)
      \<lparr>ipc_requestID = 0, ipc_messageType = SERVICES_REGISTERED, ipc_returnCode = IPC_RC_UNDEFINED\<rparr>
      (concat (map (ids_bytes LittleEndian) [?s]))"
    using write_ids_view [OF ipc_view_IPCOutputMessage_new, of SERVICES_REGISTERED LittleEndian ?s]
    by (simp add: example_registered_def as_input_view)
  show ?thesis
    using registered_services_learned [OF v, of "example_client LittleEndian"] example_client_ok(8) [of LittleEndian]
    by simp
qed

text \<open>
  C24. An unregistration takes one entry of the service out of the registry and tells the
  listeners it matches; for a service that is not in the registry the library erases the end
  of a vector, which is undefined.
\<close>

theorem unregistered_service_forgotten:
  assumes "ipc_view h m hdr (ids_bytes h s)" and "ipc_messageType hdr = SERVICES_UNREGISTERED"
  shows "handleConstIncomingIPCMessage h m c = Some (
    if s \<notin> set (m_availableServices (m_registry c)) then Inl OutOfBounds
    else Inr (c\<lparr>handled := handled c @ [m],
      m_registry := (m_registry c)\<lparr>m_availableServices := remove1 s (m_availableServices (m_registry c))\<rparr>,
      app_calls := app_calls c @ unavailable_calls (m_serviceAvailabilityListeners (m_registry c)) s\<rparr>))"
  using each_service_exactly [of h ClientLib_onServiceUnregistered "[s]"]
  by (simp add: handle_services(2) [OF assms] onServiceUnregistered_eq)

theorem unregistered_service_forgotten_witness:
  "handleConstIncomingIPCMessage LittleEndian
     (as_input (write_ids LittleEndian (IPCOutputMessage_new LittleEndian SERVICES_UNREGISTERED) (ServiceIDs_new 0x1234 1)))
     (example_client LittleEndian) = Some (Inl OutOfBounds)"
proof -
  have v: "ipc_view LittleEndian
      (as_input (write_ids LittleEndian (IPCOutputMessage_new LittleEndian SERVICES_UNREGISTERED) (ServiceIDs_new 0x1234 1)))
      \<lparr>ipc_requestID = 0, ipc_messageType = SERVICES_UNREGISTERED, ipc_returnCode = IPC_RC_UNDEFINED\<rparr>
      (ids_bytes LittleEndian (ServiceIDs_new 0x1234 1))"
    using write_ids_view [OF ipc_view_IPCOutputMessage_new, of SERVICES_UNREGISTERED LittleEndian "ServiceIDs_new 0x1234 1"]
    by (simp add: as_input_view)
  show ?thesis
    using unregistered_service_forgotten [OF v, of "example_client LittleEndian"] example_client_ok(8) [of LittleEndian]
    by simp
qed

text \<open>
  C33. The loops over the services of a message check for two bytes and read four: a message
  whose list ends with two or three odd bytes makes the library read outside it, after the
  whole services have been entered.
\<close>

theorem truncated_service_list:
  assumes "ipc_view h m hdr (concat (map (ids_bytes h) ss) @ odd_bytes)" and "ipc_messageType hdr = SERVICES_REGISTERED"
    and "length odd_bytes < 4"
  shows "handleConstIncomingIPCMessage h m c = Some (
    if 2 \<le> length odd_bytes then Inl OutOfBounds
    else foldE (\<lambda>s c. Inr (ClientLib_onServiceRegistered s c)) ss (c\<lparr>handled := handled c @ [m]\<rparr>))"
proof (cases "2 \<le> length odd_bytes")
  case True
  with assms(3) show ?thesis
    by (simp add: handle_services(1) [OF assms(1,2)] each_service_ids foldE_registered each_service_end(2))
next
  case False
  then show ?thesis
    by (simp add: handle_services(1) [OF assms(1,2)] each_service_ids foldE_registered each_service_end(1))
qed

theorem truncated_service_list_witness:
  "handleConstIncomingIPCMessage LittleEndian
     (as_input (IPC_write LittleEndian (IPCOutputMessage_new LittleEndian SERVICES_REGISTERED) (5 :: u16)))
     (example_client LittleEndian) = Some (Inl OutOfBounds)"
proof -
  have v: "ipc_view LittleEndian
      (as_input (IPC_write LittleEndian (IPCOutputMessage_new LittleEndian SERVICES_REGISTERED) (5 :: u16)))
      \<lparr>ipc_requestID = 0, ipc_messageType = SERVICES_REGISTERED, ipc_returnCode = IPC_RC_UNDEFINED\<rparr>
      (concat (map (ids_bytes LittleEndian) []) @ object_bytes LittleEndian (5 :: u16))"
    using ipc_view_write [OF ipc_view_IPCOutputMessage_new [of SERVICES_REGISTERED LittleEndian], of "5 :: u16"]
    by (simp add: as_input_view)
  show ?thesis
    using truncated_service_list [OF v, of "example_client LittleEndian"] by simp
qed

section \<open>A length that arrives in pieces\<close>

lemma UDS_readLength_short:
  assumes f: "fresh h c" and r: "recvs c = Delivers n # r" and n: "0 < n" "n < 8" and i: "n \<le> length (inbox c)"
  shows "\<exists>c1. UDS_readLength h True c = (IPC_OK, c1) \<and> \<not> reader_isComplete (m_messageLengthReader c1)
    \<and> inbox c1 = drop n (inbox c)"
proof -
  have ne: "take n (inbox c) \<noteq> []" using n(1) i by auto
  show ?thesis
    using f r n i ne by (simp add: UDS_readLength_def IPCBufferReader_read_def socket_recv_def fresh_def setBuffer_def
        reader_isComplete_def Let_def min_def)
qed

lemma fresh_invar: "fresh h c \<Longrightarrow> reader_invar h c"
  by (simp add: fresh_def reader_invar_def setBuffer_def object_bytes_minus_1 Let_def)

text \<open>
  C0. The blocking reader does not wait for the rest of a length. If the kernel delivers fewer
  than the eight bytes of the length of a message, \<open>readBlocking\<close> reports success with a
  message that is not complete, and \<open>readIncomingMessagesBlocking\<close> hands it to the callback
  and starts the next message: the bytes read are lost, and the rest of the message is taken
  for the length of another.
\<close>

theorem short_length_read:
  assumes "fresh h c" and "recvs c = Delivers n # r" and "0 < n" and "n < 8" and "n \<le> length (inbox c)"
  shows "\<exists>c1. UDS_readBlocking h c = Some (Inr (IPC_OK, c1)) \<and> \<not> IPCInput_isComplete (m_currentInputMessage c1)
    \<and> inbox c1 = drop n (inbox c)
    \<and> readIncomingMessagesBlocking h f l c =
        (case f (m_currentInputMessage c1) l (newInputMessage h c1) of
           Inl e \<Rightarrow> Some (Inl e)
         | Inr (keep, l, c) \<Rightarrow> if keep then readIncomingMessagesBlocking h f l c else Some (Inr (IPC_OK, l, c)))"
proof -
  obtain c1 where c1: "UDS_readLength h True c = (IPC_OK, c1)" "\<not> reader_isComplete (m_messageLengthReader c1)"
    "inbox c1 = drop n (inbox c)"
    using UDS_readLength_short [OF assms] by blast
  have read: "UDS_readBlocking h c = Some (Inr (IPC_OK, c1))" using c1 assms(2) by (simp add: UDS_readBlocking_def)
  have "reader_invar h c1" using UDS_readLength_stream [OF c1(1) fresh_invar [OF assms(1)]] by simp
  then have "\<not> IPCInput_isComplete (m_currentInputMessage c1)" using arrived_complete(1) c1(2) by blast
  with read c1(3) show ?thesis by (subst readIncomingMessagesBlocking.simps) auto
qed

theorem short_length_read_witness:
  "\<exists>c1. UDS_readBlocking LittleEndian (with_kernel [] (ipc_stream LittleEndian [example_ipc_ping]) [Delivers 5] (example_client LittleEndian))
       = Some (Inr (IPC_OK, c1)) \<and> \<not> IPCInput_isComplete (m_currentInputMessage c1)"
proof -
  let ?c = "with_kernel [] (ipc_stream LittleEndian [example_ipc_ping]) [Delivers 5] (example_client LittleEndian)"
  have "fresh LittleEndian ?c" "recvs ?c = Delivers 5 # []" "5 \<le> length (inbox ?c)"
    using example_client_ok(2) [of LittleEndian] by simp_all
  from short_length_read [OF this(1,2) _ _ this(3), of "\<lambda>m l c. Inr (False, l, c)" "()"] show ?thesis by auto
qed

end
