(* ===== verification/TCP_Stream.thy ===== *)
theory TCP_Stream
  imports Socket_Stream SomeIP_Messages Service_Discovery
begin

text \<open>
  SOME/IP messages on a TCP connection: the part of \<open>TCPClient\<close> and \<open>RemoteTCPClient\<close> of
  \<open>lib/TCPClient.h\<close> and \<open>lib/TCPClient.cpp\<close> that writes messages to the stream and takes
  them from it, over the stream connection of the theory \<open>Socket_Stream\<close>. A message being
  received is the IPC message it will be inside the daemon, so its bytes are those of a byte
  array, with the array's two representations.
\<close>

section \<open>The client in the request number\<close>

definition tagClientIdentifier :: "'a SomeIPHeader_scheme \<Rightarrow> ClientIdentifier \<Rightarrow> 'a SomeIPHeader_scheme" where
  "tagClientIdentifier header clientIdentifier =
     setRequestID header (push_bit 16 (ucast clientIdentifier) + and (m_requestID header) 0xFFFF)"

definition extractClientIdentifier :: "'a SomeIPHeader_scheme \<Rightarrow> ClientIdentifier" where
  "extractClientIdentifier header = ucast (drop_bit 16 (m_requestID header))"

section \<open>The connection\<close>

text \<open>
  \<open>isRemote\<close> tells a \<open>RemoteTCPClient\<close>, which can connect, from a client that has connected
  to this host; \<open>connects\<close> are the outcomes of its attempts to come, the file descriptor if
  one succeeds.
\<close>

record TCPConnection = SocketStreamConnection +
  m_headerBytes :: "u8 list"
  m_headerReader :: IPCBufferReader
  m_payloadReader :: IPCBufferReader
  m_currentIncomingMessage :: IPCInputMessage
  tcp_messageQueue :: "IPCInputMessage list"
  isRemote :: bool
  connects :: "int option list"

definition IPCBufferReader_new :: IPCBufferReader where
  "IPCBufferReader_new = \<lparr>rb_receivedBytesCount = 0, rb_size = 2 ^ 64 - 1\<rparr>"

definition reader_clear :: "IPCBufferReader \<Rightarrow> IPCBufferReader" where
  "reader_clear r = r\<lparr>rb_receivedBytesCount := 0\<rparr>"

definition MyInputMessage_new :: "endianness \<Rightarrow> IPCInputMessage" where
  "MyInputMessage_new h = IPCMessage_setHeader h (\<lambda>hdr. hdr\<lparr>ipc_messageType := SEND_MESSAGE\<rparr>) (IPCInputMessage_new h)"

definition TCPConnection_new :: "endianness \<Rightarrow> bool \<Rightarrow> int \<Rightarrow> TCPConnection" where
  "TCPConnection_new h remote fileDescriptor =
     \<lparr>m_connectionFileDescriptor = fileDescriptor, m_dataToBeSent = ByteArray_new, m_writtenBytesCount = 0,
      wire = [], sends = [], inbox = [], recvs = [], events = [],
      m_headerBytes = replicate SOMEIP_HEADER_LENGTH_ON_NETWORK 0, m_headerReader = IPCBufferReader_new,
      m_payloadReader = IPCBufferReader_new, m_currentIncomingMessage = MyInputMessage_new h,
      tcp_messageQueue = [], isRemote = remote, connects = []\<rparr>"

text \<open>The part of \<open>setupConnection\<close> that is not the registration with the main loop.\<close>

definition setupConnection :: "TCPConnection \<Rightarrow> TCPConnection" where
  "setupConnection c = c\<lparr>m_headerReader := setBuffer (length (m_headerBytes c))\<rparr>"

definition TCPClient_init :: "TCPConnection \<Rightarrow> TCPConnection" where
  "TCPClient_init c =
     (if m_connectionFileDescriptor c \<noteq> UNINITIALIZED_FILE_DESCRIPTOR then setupConnection c else c)"

definition TCPClient_connect :: "TCPConnection \<Rightarrow> SomeIPReturnCode \<times> TCPConnection" where
  "TCPClient_connect c =
     (if \<not> isRemote c then (RC_ERROR, c)
      else case connects c of
             Some fileDescriptor # r \<Rightarrow>
               (RC_OK, setupConnection (c\<lparr>m_connectionFileDescriptor := fileDescriptor, connects := r\<rparr>))
           | None # r \<Rightarrow> (RC_ERROR, c\<lparr>connects := r\<rparr>)
           | [] \<Rightarrow> (RC_ERROR, c))"

section \<open>Sending\<close>

definition TCP_serialize :: "endianness \<Rightarrow> 'a SomeIPHeader_scheme \<Rightarrow> u8 list \<Rightarrow> ByteArray" where
  "TCP_serialize h header data =
     (let k = NetworkSerializer h;
          b = writeValue k ByteArray_new (m_messageID header)
      in LengthPlaceHolder_scope k TYPE(32) 0 (\<lambda>b.
           let b = writeValue k b (m_requestID header);
               b = writeValue k b (m_protocolVersion header);
               b = writeValue k b (m_interfaceVersion header);
               b = writeValue k b (MessageType_underlying (m_messageType header));
               b = writeValue k b (ReturnCode_underlying (m_returnCode header))
           in writeRawData b data) b)"

definition TCP_sendBytes ::
    "endianness \<Rightarrow> 'a SomeIPHeader_scheme \<Rightarrow> u8 list \<Rightarrow> TCPConnection \<Rightarrow> (IPCOperationReport \<times> TCPConnection) result" where
  "TCP_sendBytes h header data c =
     (let headerBytes = TCP_serialize h header data
      in writeBytesNonBlocking c (take (ba_size headerBytes) (getData headerBytes)))"

text \<open>\<open>sendMessage\<close> of a message of the dispatcher, and of a message the daemon makes.\<close>

definition TCP_sendMessage ::
    "endianness \<Rightarrow> Message \<Rightarrow> TCPConnection \<Rightarrow> (SomeIPReturnCode \<times> TCPConnection) result" where
  "TCP_sendMessage h msg c =
     (let c = (if \<not> isConnected c then snd (TCPClient_connect c) else c)
      in bindE (if isRequestWithReturn msg
                then TCP_sendBytes h (tagClientIdentifier msg (m_clientIdentifier msg)) (payload msg) c
                else TCP_sendBytes h msg (payload msg) c) (\<lambda>(_, c). Inr (RC_OK, c)))"

definition TCP_sendOutputMessage ::
    "endianness \<Rightarrow> Message \<Rightarrow> TCPConnection \<Rightarrow> (SomeIPReturnCode \<times> TCPConnection) result" where
  "TCP_sendOutputMessage h msg c =
     (let c = (if \<not> isConnected c then snd (TCPClient_connect c) else c)
      in bindE (TCP_sendBytes h msg (payload msg) c) (\<lambda>(report, c).
           Inr (if \<not> IPC_isError report then RC_OK else RC_ERROR, c)))"

datatype WatchStatus = KEEP_WATCHING | STOP_WATCHING

definition TCP_onWritingPossible :: "TCPConnection \<Rightarrow> (WatchStatus \<times> TCPConnection) result" where
  "TCP_onWritingPossible c = bindE (writePendingDataNonBlocking c) (\<lambda>(report, c).
     Inr (if report = IPC_OK then STOP_WATCHING else KEEP_WATCHING, c))"

section \<open>Receiving\<close>

definition tcp_header_size :: nat where
  "tcp_header_size = sizeof_IPCMessageHeader + sizeof_MessageHeader"

definition setPayloadSize :: "IPCInputMessage \<Rightarrow> u64 \<Rightarrow> IPCInputMessage" where
  "setPayloadSize msg payloadSize =
     (let s = payloadSize + of_nat sizeof_IPCMessageHeader + of_nat sizeof_MessageHeader
      in msg\<lparr>m_payload := ba_resize (m_payload msg) (unat s)\<rparr>)"

text \<open>\<open>getPayloadLength\<close>, in the arithmetic of \<open>size_t\<close>.\<close>

definition tcp_getPayloadLength :: "IPCInputMessage \<Rightarrow> u64" where
  "tcp_getPayloadLength msg =
     of_nat (ba_size (m_payload msg)) - of_nat sizeof_IPCMessageHeader - of_nat sizeof_MessageHeader"

definition TCP_readHeaderBytes :: "TCPConnection \<Rightarrow> TCPConnection" where
  "TCP_readHeaderBytes c =
     (let (_, r, buffer, c) = IPCBufferReader_read (m_headerReader c) (m_headerBytes c) False c
      in c\<lparr>m_headerReader := r, m_headerBytes := buffer\<rparr>)"

text \<open>
  When the header is complete its fields are entered in the message, which is then given the
  size the header announces: the length field counts what follows it.
\<close>

definition TCP_readHeader :: "endianness \<Rightarrow> TCPConnection \<Rightarrow> TCPConnection result" where
  "TCP_readHeader h c =
     (let msg = m_currentIncomingMessage c
      in case SomeIPHeader_deserialize h (InputMessage_getHeader h msg) (Deserializer_new (m_headerBytes c)) of
           None \<Rightarrow> Inl OutOfBounds
         | Some ((messageLength, header), _) \<Rightarrow>
             let msg = set_header_at h sizeof_IPCMessageHeader (\<lambda>_. header) msg;
                 msg = setPayloadSize msg (ucast messageLength - of_nat SOMEIP_HEADER_LENGTH_ON_NETWORK + 4 + 4)
             in Inr (c\<lparr>m_currentIncomingMessage := msg,
                      m_payloadReader := setBuffer (unat (tcp_getPayloadLength msg))\<rparr>))"

text \<open>
  The payload reader writes behind the two headers. It is out of bounds when it has written
  more than the array of the message has room for.
\<close>

definition TCP_readPayload :: "TCPConnection \<Rightarrow> TCPConnection result" where
  "TCP_readPayload c =
     (let msg = m_currentIncomingMessage c;
          data = getData (m_payload msg);
          (_, r, buffer, c) = IPCBufferReader_read (m_payloadReader c) (drop tcp_header_size data) False c
      in if rb_receivedBytesCount r > length buffer then Inl OutOfBounds
         else Inr (c\<lparr>m_payloadReader := r,
                    m_currentIncomingMessage := msg\<lparr>m_payload := setData (m_payload msg)
                      (take tcp_header_size data @ buffer)\<rparr>\<rparr>))"

text \<open>
  What is done with a complete message. \<open>decode\<close> stands for the discovery decoder and
  \<open>handler\<close> for the function given to \<open>processIncomingData\<close>; both work on the message in
  the connection and on a state of their own.
\<close>

definition TCP_messageComplete ::
    "endianness \<Rightarrow> ('l \<Rightarrow> TCPConnection \<Rightarrow> ('l \<times> TCPConnection) result)
     \<Rightarrow> ('l \<Rightarrow> TCPConnection \<Rightarrow> ('l \<times> TCPConnection) result)
     \<Rightarrow> 'l \<Rightarrow> TCPConnection \<Rightarrow> ('l \<times> TCPConnection) result" where
  "TCP_messageComplete h decode handler l c =
     (let msg = m_currentIncomingMessage c; header = InputMessage_getHeader h msg
      in bindE (if m_messageID header = SERVICE_DISCOVERY_MEMBER_ID then decode l c
                else handler l (if isReply header
                  then let msg = InputMessage_setClientIdentifier h msg (extractClientIdentifier header);
                           msg = set_header_at h sizeof_IPCMessageHeader (\<lambda>header. tagClientIdentifier header 0) msg
                       in c\<lparr>m_currentIncomingMessage := msg\<rparr>
                  else c)) (\<lambda>(l, c).
           Inr (l, c\<lparr>m_headerReader := reader_clear (m_headerReader c),
                     m_payloadReader := reader_clear (m_payloadReader c)\<rparr>)))"

partial_function (option) processIncomingData ::
    "endianness \<Rightarrow> ('l \<Rightarrow> TCPConnection \<Rightarrow> ('l \<times> TCPConnection) result)
     \<Rightarrow> ('l \<Rightarrow> TCPConnection \<Rightarrow> ('l \<times> TCPConnection) result)
     \<Rightarrow> 'l \<Rightarrow> TCPConnection \<Rightarrow> ('l \<times> TCPConnection) result option" where
  "processIncomingData h decode handler l c =
     (if \<not> reader_isComplete (m_headerReader c)
      then let c = TCP_readHeaderBytes c
           in if reader_isComplete (m_headerReader c)
              then (case TCP_readHeader h c of
                      Inl e \<Rightarrow> Some (Inl e)
                    | Inr c \<Rightarrow> processIncomingData h decode handler l c)
              else Some (Inr (l, c))
      else case TCP_readPayload c of
             Inl e \<Rightarrow> Some (Inl e)
           | Inr c \<Rightarrow>
               if reader_isComplete (m_payloadReader c)
               then (case TCP_messageComplete h decode handler l c of
                       Inl e \<Rightarrow> Some (Inl e)
                     | Inr (l, c) \<Rightarrow> processIncomingData h decode handler l c)
               else Some (Inr (l, c)))"

declare processIncomingData.simps [code]

text \<open>
  \<open>sendMessageBlocking\<close>: what is not the answer goes to \<open>m_messageQueue\<close>. The loop polls
  without waiting; it is \<open>None\<close> when no answer ever comes.
\<close>

definition blocking_handler ::
    "endianness \<Rightarrow> Message \<Rightarrow> (IPCInputMessage option) \<times> 'l \<Rightarrow> TCPConnection
     \<Rightarrow> ((IPCInputMessage option \<times> 'l) \<times> TCPConnection) result" where
  "blocking_handler h msg = (\<lambda>(answer, l) c.
     let inputMessage = m_currentIncomingMessage c
     in if isAnswerTo (InputMessage_getHeader h inputMessage) msg then Inr ((Some inputMessage, l), c)
        else Inr ((answer, l), c\<lparr>tcp_messageQueue := tcp_messageQueue c @ [inputMessage]\<rparr>))"

partial_function (option) TCP_waitForAnswer ::
    "endianness \<Rightarrow> ((IPCInputMessage option) \<times> 'l \<Rightarrow> TCPConnection \<Rightarrow> ((IPCInputMessage option \<times> 'l) \<times> TCPConnection) result)
     \<Rightarrow> Message \<Rightarrow> IPCInputMessage option \<Rightarrow> 'l \<Rightarrow> TCPConnection \<Rightarrow> (IPCInputMessage \<times> 'l \<times> TCPConnection) result option" where
  "TCP_waitForAnswer h decode msg response l c =
     (case response of
        Some answer \<Rightarrow> Some (Inr (answer, l, c))
      | None \<Rightarrow>
          (case processIncomingData h decode (blocking_handler h msg) (None, l) c of
             None \<Rightarrow> None
           | Some (Inl e) \<Rightarrow> Some (Inl e)
           | Some (Inr ((response, l), c)) \<Rightarrow> TCP_waitForAnswer h decode msg response l c))"

declare TCP_waitForAnswer.simps [code]

definition TCP_sendMessageBlocking ::
    "endianness \<Rightarrow> ((IPCInputMessage option) \<times> 'l \<Rightarrow> TCPConnection \<Rightarrow> ((IPCInputMessage option \<times> 'l) \<times> TCPConnection) result)
     \<Rightarrow> Message \<Rightarrow> 'l \<Rightarrow> TCPConnection \<Rightarrow> (IPCInputMessage \<times> 'l \<times> TCPConnection) result option" where
  "TCP_sendMessageBlocking h decode msg l c =
     bindW (Some (TCP_sendOutputMessage h msg c)) (\<lambda>(_, c). TCP_waitForAnswer h decode msg None l c)"

section \<open>Reboots\<close>

record RebootInformation =
  m_lastReceivedSessionID :: RequestID

definition RebootInformation_new :: RebootInformation where
  "RebootInformation_new = \<lparr>m_lastReceivedSessionID = 0\<rparr>"

definition updateAndTestReboot :: "ServiceDiscoveryMessage \<Rightarrow> RebootInformation \<Rightarrow> bool \<times> RebootInformation" where
  "updateAndTestReboot serviceDiscoveryHeader info =
     (let hasRebooted = (getRebootFlag serviceDiscoveryHeader
            \<and> m_requestID serviceDiscoveryHeader < m_lastReceivedSessionID info)
      in (hasRebooted, info\<lparr>m_lastReceivedSessionID := m_requestID serviceDiscoveryHeader\<rparr>))"

definition detectReboot ::
    "ServiceDiscoveryMessage \<Rightarrow> bool \<Rightarrow> RebootInformation \<times> RebootInformation \<Rightarrow> bool \<times> RebootInformation \<times> RebootInformation" where
  "detectReboot serviceDiscoveryHeader isMulticast = (\<lambda>(m_rebootInformationMulticast, m_rebootInformationUnicast).
     if isMulticast
     then let (hasRebooted, info) = updateAndTestReboot serviceDiscoveryHeader m_rebootInformationMulticast
          in (hasRebooted, info, m_rebootInformationUnicast)
     else let (hasRebooted, info) = updateAndTestReboot serviceDiscoveryHeader m_rebootInformationUnicast
          in (hasRebooted, m_rebootInformationMulticast, info))"

section \<open>What the bytes on the wire are\<close>

definition tcp_bytes :: "'a SomeIPHeader_scheme \<Rightarrow> u8 list \<Rightarrow> u8 list" where
  "tcp_bytes header data = header_code header (of_nat (8 + length data)) @ data"

lemma contents_TCP_serialize:
  "ba_invar (TCP_serialize h header p)" "contents (TCP_serialize h header p) = tcp_bytes header p"
proof -
  let ?k = "NetworkSerializer h"
  let ?rest = "bytes_be (m_requestID header) @ [m_protocolVersion header, m_interfaceVersion header,
      MessageType_underlying (m_messageType header), ReturnCode_underlying (m_returnCode header)] @ p"
  have all: "appends (\<lambda>b. let b = writeValue ?k b (m_requestID header);
               b = writeValue ?k b (m_protocolVersion header);
               b = writeValue ?k b (m_interfaceVersion header);
               b = writeValue ?k b (MessageType_underlying (m_messageType header));
               b = writeValue ?k b (ReturnCode_underlying (m_returnCode header))
           in writeRawData b p) ?rest"
    by (simp add: appends_def Let_def)
  have "length ?rest = 8 + length p" by simp
  with appends_scope [OF all, where 'a = 32 and off = 0 and k = ?k]
  show "ba_invar (TCP_serialize h header p)" "contents (TCP_serialize h header p) = tcp_bytes header p"
    unfolding TCP_serialize_def Let_def appends_def tcp_bytes_def
    by (simp_all add: header_code_def ucast_of_nat_u64 del: of_nat_mult of_nat_add)
qed

lemma TCP_sendBytes_eq: "TCP_sendBytes h header p c = writeBytesNonBlocking c (tcp_bytes header p)"
  using contents_TCP_serialize [of h header p] by (simp add: TCP_sendBytes_def contents_def Let_def)

lemma tag_bits:
  "bit (push_bit 16 (ucast (i :: u16)) + and r 0xFFFF :: u32) n = (if n < 16 then bit r n else bit i (n - 16))"
proof -
  have "and (push_bit 16 (ucast i)) (and r 0xFFFF) = (0 :: u32)"
  proof (rule bit_word_eqI)
    fix n assume "n < LENGTH(32)"
    have "bit (0xFFFF :: u32) n \<longleftrightarrow> n < 16"
      using bit_mask_iff [of 16 n, where 'a = u32] by (auto simp: mask_numeral)
    then show "bit (and (push_bit 16 (ucast i)) (and r 0xFFFF)) n \<longleftrightarrow> bit (0 :: u32) n"
      by (auto simp: bit_simps)
  qed
  then have "push_bit 16 (ucast i) + and r 0xFFFF = or (push_bit 16 (ucast i)) (and r (0xFFFF :: u32))"
    by (simp add: disjunctive_add_eq_or)
  moreover have "bit (0xFFFF :: u32) n \<longleftrightarrow> n < 16"
    using bit_mask_iff [of 16 n, where 'a = u32] by (auto simp: mask_numeral)
  moreover have "\<not> bit i n" if "n \<ge> 16" for n using that bit_imp_le_length [of i n] by auto
  ultimately show ?thesis by (auto simp: bit_simps not_less dest: bit_imp_le_length)
qed

lemma extract_tag [simp]: "extractClientIdentifier (tagClientIdentifier hdr i) = i"
  unfolding extractClientIdentifier_def tagClientIdentifier_def setRequestID_def
  by (rule bit_word_eqI) (simp add: bit_simps tag_bits)

lemma untag_tag: "tagClientIdentifier (tagClientIdentifier hdr i) 0 = tagClientIdentifier hdr 0"
proof -
  have "push_bit 16 (ucast (0 :: u16)) + and (push_bit 16 (ucast i) + and r 0xFFFF) 0xFFFF
      = push_bit 16 (ucast (0 :: u16)) + and r (0xFFFF :: u32)" for r
    by (rule bit_word_eqI) (simp only: tag_bits, simp add: tag_bits)
  then show ?thesis by (simp add: tagClientIdentifier_def setRequestID_def)
qed

lemma untag_small:
  assumes "m_requestID hdr < 0x10000"
  shows "tagClientIdentifier hdr 0 = hdr"
proof -
  have "and r (mask 16) = r" if "r < 2 ^ 16" for r :: u32
    using that
    by (simp add: take_bit_eq_mask [symmetric] word_unat_eq_iff unsigned_take_bit_eq take_bit_nat_eq_self word_less_nat_alt)
  then have "and r 0xFFFF = r" if "r < 0x10000" for r :: u32
    using that by (simp add: mask_numeral)
  then show ?thesis using assms by (simp add: tagClientIdentifier_def setRequestID_def)
qed

section \<open>Reassembling messages\<close>

text \<open>One call of \<open>recv\<close> moves some bytes from \<open>inbox\<close> to the buffer.\<close>

lemma IPCBufferReader_read_step:
  assumes "IPCBufferReader_read r buffer b c = (report, r', buffer', c')"
  obtains bs i q where "r' = r\<lparr>rb_receivedBytesCount := rb_receivedBytesCount r + length bs\<rparr>"
    and "buffer' = memcpy_at buffer (rb_receivedBytesCount r) bs" and "c' = c\<lparr>inbox := i, recvs := q\<rparr>"
    and "inbox c = bs @ i" and "length bs \<le> rb_size r - rb_receivedBytesCount r"
    and "length q \<le> length (recvs c)" and "bs \<noteq> [] \<longrightarrow> length q < length (recvs c)"
proof -
  have m: "memcpy_at buffer (rb_receivedBytesCount r) [] = buffer" by (simp add: memcpy_at_def)
  show thesis
  proof (cases "\<exists>n q. recvs c = Delivers n # q \<and> rb_size r - rb_receivedBytesCount r \<noteq> 0")
    case True
    then obtain n q where q: "recvs c = Delivers n # q" "rb_size r - rb_receivedBytesCount r \<noteq> 0" by blast
    let ?n = "min n (rb_size r - rb_receivedBytesCount r)"
    show thesis
      using assms q m
      by (intro that [of "take ?n (inbox c)" q "drop ?n (inbox c)"])
        (auto simp: IPCBufferReader_read_def socket_recv_def split: if_splits)
  next
    case False
    then show thesis
      using assms m
      by (intro that [of "[]" "recvs c'" "inbox c"])
        (auto simp: IPCBufferReader_read_def socket_recv_def split: if_splits list.splits recv_outcome.splits)
  qed
qed

text \<open>
  The message is ready for a header and \<open>n\<close> bytes of payload: its bytes begin with an IPC
  header, and it has had a header before or the new one stays in the array inside the object.
\<close>

definition message_room :: "endianness \<Rightarrow> IPCInputMessage \<Rightarrow> nat \<Rightarrow> bool" where
  "message_room h msg n =
     (ba_invar (m_payload msg) \<and> 4 \<le> ba_size (m_payload msg)
      \<and> (\<exists>hdr. IPCMessageHeader_ok hdr \<and> ipc_messageType hdr = SEND_MESSAGE
            \<and> take 4 (contents (m_payload msg)) = IPCMessageHeader_bytes h hdr)
      \<and> (20 \<le> ba_size (m_payload msg) \<or> usesStaticBuffer (m_payload msg) \<and> n \<le> 1004))"

lemma message_room_view: "message_view h ipc m \<Longrightarrow> message_room h ipc n"
  by (auto simp: message_view_def message_room_def ipc_view_def ba_size_contents)

lemma resize_poked:
  assumes "ba_invar b" and "4 \<le> ba_size b" and "length xs = 16"
    and "20 \<le> ba_size b \<or> usesStaticBuffer b \<and> n \<le> 1004"
  shows "take 20 (getData (ba_resize (ba_poke b 4 xs) (20 + n))) = take 4 (contents b) @ xs"
proof (cases "20 \<le> ba_size b")
  case True
  let ?b = "ba_poke b 4 xs"
  have c: "contents ?b = memcpy_at (contents b) 4 xs" "ba_size ?b = ba_size b" "ba_invar ?b"
    using True assms by (simp_all add: ba_size_contents)
  then have t: "take 20 (contents ?b) = take 4 (contents b) @ xs"
    using True assms by (simp add: ba_size_contents memcpy_at_def)
  show ?thesis
  proof (cases "20 + n \<le> ba_size b")
    case le: True
    then have "take 20 (contents (ba_resize ?b (20 + n))) = take 20 (contents ?b)"
      using c by (simp add: contents_resize_shrink)
    moreover have "take 20 (getData (ba_resize ?b (20 + n))) = take 20 (contents (ba_resize ?b (20 + n)))"
      using c by (intro take_getData) (simp_all add: ba_size_contents [symmetric])
    ultimately show ?thesis using t by simp
  next
    case False
    then have "take (ba_size b) (getData (ba_resize ?b (20 + n))) = contents ?b"
      using resize_keeps_prefix [of ?b "20 + n"] c by simp
    then have "take 20 (getData (ba_resize ?b (20 + n))) = take 20 (contents ?b)"
      using True by (metis min.absorb1 take_take)
    with t show ?thesis by simp
  qed
next
  case False
  then have d: "m_dynamicData b = None" "n \<le> 1004" "length (m_staticData b) = 1024"
    using assms by (auto simp: usesStaticBuffer_def ba_invar_def STATIC_DATA_SIZE_def)
  moreover have "take 4 (contents b) = take 4 (m_staticData b)"
    using assms(1,2) d take_getData [of b 4] by (simp add: ba_size_contents getData_def)
  ultimately show ?thesis
    using assms(3)
    by (simp add: ba_resize_def ba_poke_def getData_def setData_def memcpy_at_def STATIC_DATA_SIZE_def)
qed

lemma header_entered:
  fixes hdr :: MessageHeader
  assumes "message_room h msg n" and "header_ok hdr"
  shows "\<exists>body. length body = n \<and> message_view h (set_header_at h sizeof_IPCMessageHeader (\<lambda>_. hdr) msg
      \<lparr>m_payload := ba_resize (m_payload (set_header_at h sizeof_IPCMessageHeader (\<lambda>_. hdr) msg)) (20 + n)\<rparr>)
    (MessageHeader.extend hdr (Message.fields body))"
proof -
  let ?b = "ba_resize (ba_poke (m_payload msg) 4 (MessageHeader_bytes h hdr)) (20 + n)"
  obtain ihdr where i: "IPCMessageHeader_ok ihdr" "ipc_messageType ihdr = SEND_MESSAGE"
      "take 4 (contents (m_payload msg)) = IPCMessageHeader_bytes h ihdr"
    and b: "ba_invar (m_payload msg)" "4 \<le> ba_size (m_payload msg)"
      "20 \<le> ba_size (m_payload msg) \<or> usesStaticBuffer (m_payload msg) \<and> n \<le> 1004"
    using assms(1) by (auto simp: message_room_def)
  have inv: "ba_invar ?b" "ba_size ?b = 20 + n" using b(1) by simp_all
  then have len: "length (contents ?b) = 20 + n" by (simp add: ba_size_contents)
  have "take 20 (contents ?b) = IPCMessageHeader_bytes h ihdr @ MessageHeader_bytes h hdr"
    using resize_poked [OF b(1,2) length_MessageHeader_bytes b(3), of h hdr] take_getData [of ?b 20] inv len i(3) by simp
  then have c: "contents ?b = IPCMessageHeader_bytes h ihdr @ MessageHeader_bytes h hdr @ drop 20 (contents ?b)"
    by (metis append.assoc append_take_drop_id)
  have "MessageHeader_bytes h (MessageHeader.extend hdr (Message.fields p)) = MessageHeader_bytes h hdr"
    "header_ok (MessageHeader.extend hdr (Message.fields p))" "payload (MessageHeader.extend hdr (Message.fields p)) = p" for p
    using assms(2) by (simp_all add: MessageHeader_bytes_def header_ok_def MessageHeader.defs Message.defs)
  then show ?thesis
    using c inv i len
    by (auto simp: message_view_def ipc_view_def set_header_at_def sizeof_IPCMessageHeader_def
        intro!: exI [of _ "drop 20 (contents ?b)"] exI [of _ ihdr])
qed

text \<open>
  A message that has not had a header yet loses the first one if it moves to the heap: the
  header is written behind the end of the array's contents, and only these are moved.
\<close>

definition fresh_message :: "endianness \<Rightarrow> IPCInputMessage \<Rightarrow> bool" where
  "fresh_message h msg =
     (ba_invar (m_payload msg) \<and> usesStaticBuffer (m_payload msg)
      \<and> (\<exists>hdr. IPCMessageHeader_ok hdr \<and> ipc_messageType hdr = SEND_MESSAGE
            \<and> contents (m_payload msg) = IPCMessageHeader_bytes h hdr))"

definition zero_header :: "Message \<Rightarrow> Message" where
  "zero_header m = \<lparr>m_messageID = 0, m_requestID = 0, m_protocolVersion = 0, m_interfaceVersion = 0,
     m_messageType = MessageType_cast 0, m_returnCode = E_OK, m_clientIdentifier = 0, m_instanceID = 0,
     payload = payload m\<rparr>"

lemma zero_header_bytes: "MessageHeader_bytes h (zero_header m) = replicate 16 0"
proof -
  have "object_bytes h (0 :: u32) = replicate 4 0" "object_bytes h (0 :: u16) = replicate 2 0"
    by (cases h, simp_all add: bytes_le_def bytes_be_def map_replicate_const)+
  then show ?thesis
    by (simp add: MessageHeader_bytes_def zero_header_def MessageType_cast_def numeral_eq_Suc)
qed

lemma zero_header_ok [simp]: "header_ok (zero_header m)" "payload (zero_header m) = payload m"
  by (simp_all add: header_ok_def zero_header_def MessageType_cast_def canonical_def ReturnCode_cast_def)

lemma header_lost:
  assumes "fresh_message h msg" and "1004 < n"
  shows "\<exists>m'. payload m' = replicate n 0 \<and> SomeIPHeader.truncate m' = SomeIPHeader.truncate (zero_header m)
    \<and> message_view h (set_header_at h sizeof_IPCMessageHeader (\<lambda>_. hdr) msg
      \<lparr>m_payload := ba_resize (m_payload (set_header_at h sizeof_IPCMessageHeader (\<lambda>_. hdr) msg)) (20 + n)\<rparr>) m'"
proof -
  obtain ihdr where i: "IPCMessageHeader_ok ihdr" "ipc_messageType ihdr = SEND_MESSAGE"
      "contents (m_payload msg) = IPCMessageHeader_bytes h ihdr"
    and b: "ba_invar (m_payload msg)" "m_dynamicData (m_payload msg) = None"
    using assms(1) by (auto simp: fresh_message_def usesStaticBuffer_def)
  let ?m = "(zero_header m)\<lparr>payload := replicate n 0\<rparr>"
  let ?p = "ba_poke (m_payload msg) 4 (MessageHeader_bytes h hdr)"
  have sz: "unat (m_length (m_payload msg)) = 4"
    using ba_size_contents [OF b(1)] b(2) i(3) by (simp add: ba_size_def)
  have st: "length (m_staticData (m_payload msg)) = 1024" using b by (simp add: ba_invar_def STATIC_DATA_SIZE_def)
  have "take 4 (m_staticData (m_payload msg)) = IPCMessageHeader_bytes h ihdr"
    using i(3) b(2) sz by (simp add: contents_def ba_size_def getData_def)
  then have "contents (ba_resize ?p (20 + n)) = IPCMessageHeader_bytes h ihdr @ replicate (16 + n) 0"
    using b st sz assms(2)
    by (simp add: contents_def ba_size_def getData_def setData_def ba_resize_def ba_poke_def memcpy_at_def
        STATIC_DATA_SIZE_def vector_resize_def)
  then have "ipc_view h (set_header_at h sizeof_IPCMessageHeader (\<lambda>_. hdr) msg
      \<lparr>m_payload := ba_resize (m_payload (set_header_at h sizeof_IPCMessageHeader (\<lambda>_. hdr) msg)) (20 + n)\<rparr>) ihdr
      (MessageHeader_bytes h (zero_header m) @ replicate n 0)"
    using b(1) i(1)
    by (simp add: ipc_view_def set_header_at_def sizeof_IPCMessageHeader_def zero_header_bytes replicate_add)
  moreover have "MessageHeader_bytes h ?m = MessageHeader_bytes h (zero_header m)" "header_ok ?m"
    "SomeIPHeader.truncate ?m = SomeIPHeader.truncate (zero_header m)"
    using zero_header_ok(1) [of m] by (simp_all add: MessageHeader_bytes_def header_ok_def SomeIPHeader.defs)
  ultimately show ?thesis using i(2) by (intro exI [of _ ?m]) (auto simp: message_view_def)
qed

definition tcp_frame :: "Message \<Rightarrow> u8 list" where
  "tcp_frame m = tcp_bytes m (payload m)"

definition tcp_message_ok :: "Message \<Rightarrow> bool" where
  "tcp_message_ok m = (header_ok m \<and> 8 + length (payload m) < 2 ^ 32)"

text \<open>
  The bytes \<open>stream\<close> bring the messages \<open>ms\<close>: they are their frames and the message being
  received has room for the first one, or the first one comes without its header.
\<close>

definition tcp_brings :: "endianness \<Rightarrow> IPCInputMessage \<Rightarrow> u8 list \<Rightarrow> Message list \<Rightarrow> bool" where
  "tcp_brings h cur stream ms =
     ((\<forall>m \<in> set ms. tcp_message_ok m)
      \<and> (stream = concat (map tcp_frame ms) \<and> message_room h cur (case ms of [] \<Rightarrow> 0 | m # _ \<Rightarrow> length (payload m))
         \<or> (\<exists>m ms'. stream = concat (map tcp_frame (m # ms')) \<and> ms = zero_header m # ms' \<and> tcp_message_ok m
              \<and> 1004 < length (payload m) \<and> fresh_message h cur)))"

text \<open>
  Where the connection is in the stream: inside a header, or inside the payload of a message
  whose header has been entered. \<open>ms\<close> are the messages still to be handed over, \<open>later\<close> the
  bytes that have not arrived.
\<close>

definition tcp_receiving :: "endianness \<Rightarrow> TCPConnection \<Rightarrow> u8 list \<Rightarrow> Message list \<Rightarrow> bool" where
  "tcp_receiving h c later ms =
     (let k = rb_receivedBytesCount (m_headerReader c); n = rb_receivedBytesCount (m_payloadReader c);
          cur = m_currentIncomingMessage c
      in rb_size (m_headerReader c) = 16 \<and> k \<le> 16 \<and> length (m_headerBytes c) = 16
         \<and> (if k < 16
            then tcp_brings h cur (take k (m_headerBytes c) @ inbox c @ later) ms
            else \<exists>m ms' m'. ms = m # ms' \<and> (\<forall>m \<in> set ms'. tcp_message_ok m) \<and> message_view h cur m'
                 \<and> SomeIPHeader.truncate m' = SomeIPHeader.truncate m
                 \<and> length (payload m') = length (payload m) \<and> rb_size (m_payloadReader c) = length (payload m)
                 \<and> n \<le> length (payload m)
                 \<and> take n (payload m') @ inbox c @ later = payload m @ concat (map tcp_frame ms')))"

lemma TCP_readHeaderBytes_step:
  assumes "tcp_receiving h c later ms" and "\<not> reader_isComplete (m_headerReader c)"
  defines "c' \<equiv> TCP_readHeaderBytes c"
  shows "length (recvs c') \<le> length (recvs c)"
    and "reader_isComplete (m_headerReader c') \<Longrightarrow> length (recvs c') < length (recvs c)
      \<and> tcp_brings h (m_currentIncomingMessage c') (m_headerBytes c' @ inbox c' @ later) ms
      \<and> m_headerReader c' = \<lparr>rb_receivedBytesCount = 16, rb_size = 16\<rparr> \<and> length (m_headerBytes c') = 16"
    and "\<not> reader_isComplete (m_headerReader c') \<Longrightarrow> tcp_receiving h c' later ms"
proof -
  let ?r = "m_headerReader c"
  obtain rep r1 b1 c1 where rd: "IPCBufferReader_read ?r (m_headerBytes c) False c = (rep, r1, b1, c1)"
    by (metis prod_cases4)
  from IPCBufferReader_read_step [OF rd] obtain bs i q where
    s: "r1 = ?r\<lparr>rb_receivedBytesCount := rb_receivedBytesCount ?r + length bs\<rparr>"
    "b1 = memcpy_at (m_headerBytes c) (rb_receivedBytesCount ?r) bs" "c1 = c\<lparr>inbox := i, recvs := q\<rparr>"
    "inbox c = bs @ i" "length bs \<le> rb_size ?r - rb_receivedBytesCount ?r"
    "length q \<le> length (recvs c)" "bs \<noteq> [] \<longrightarrow> length q < length (recvs c)" .
  have c': "c' = c1\<lparr>m_headerReader := r1, m_headerBytes := b1\<rparr>"
    by (simp add: c'_def TCP_readHeaderBytes_def rd)
  have k: "rb_receivedBytesCount ?r < 16" "rb_size ?r = 16" "length (m_headerBytes c) = 16"
    "tcp_brings h (m_currentIncomingMessage c)
      (take (rb_receivedBytesCount ?r) (m_headerBytes c) @ inbox c @ later) ms"
    using assms(1,2) by (auto simp: tcp_receiving_def reader_isComplete_def Let_def split: if_splits)
  have t: "take (rb_receivedBytesCount ?r + length bs) b1 = take (rb_receivedBytesCount ?r) (m_headerBytes c) @ bs"
    using s(2,5) k by (simp add: take_memcpy_at_end)
  show "length (recvs c') \<le> length (recvs c)" using c' s by simp
  show "length (recvs c') < length (recvs c)
      \<and> tcp_brings h (m_currentIncomingMessage c') (m_headerBytes c' @ inbox c' @ later) ms
      \<and> m_headerReader c' = \<lparr>rb_receivedBytesCount = 16, rb_size = 16\<rparr> \<and> length (m_headerBytes c') = 16"
    if "reader_isComplete (m_headerReader c')"
  proof -
    have l: "rb_receivedBytesCount ?r + length bs = 16" "bs \<noteq> []"
      using that c' s k by (auto simp: reader_isComplete_def)
    then have "b1 = take (rb_receivedBytesCount ?r) (m_headerBytes c) @ bs" using t s(2) k by simp
    then show ?thesis using c' s k l by (cases ?r) auto
  qed
  show "tcp_receiving h c' later ms" if "\<not> reader_isComplete (m_headerReader c')"
    using that c' s k t by (auto simp: tcp_receiving_def reader_isComplete_def Let_def)
qed

lemma payload_size:
  assumes "8 + n < 2 ^ 32"
  shows "unat (ucast (of_nat (8 + n) :: u32) - of_nat SOMEIP_HEADER_LENGTH_ON_NETWORK + 4 + 4
      + of_nat sizeof_IPCMessageHeader + of_nat sizeof_MessageHeader :: u64) = 20 + n"
proof -
  have "ucast (of_nat (8 + n) :: u32) = (of_nat (8 + n) :: u64)"
    using assms by (intro word_unat_eq_iff [THEN iffD2]) (simp add: unsigned_ucast_eq unat_of_nat take_bit_nat_eq_self del: of_nat_add)
  then have "ucast (of_nat (8 + n) :: u32) - of_nat SOMEIP_HEADER_LENGTH_ON_NETWORK + 4 + 4
      + of_nat sizeof_IPCMessageHeader + of_nat sizeof_MessageHeader = (of_nat (20 + n) :: u64)"
    by (simp add: SOMEIP_HEADER_LENGTH_ON_NETWORK_def sizeof_SomeIPHeader_def sizeof_IPCMessageHeader_def sizeof_MessageHeader_def)
  then show ?thesis using assms by (simp add: unat_of_nat del: of_nat_add)
qed

lemma entered_view:
  assumes "tcp_brings h msg stream ms" and "stream \<noteq> []"
  obtains m m1 ms' where "ms = m1 # ms'" and "stream = tcp_frame m @ concat (map tcp_frame ms')" and "tcp_message_ok m"
    and "payload m1 = payload m" and "\<forall>m \<in> set ms'. tcp_message_ok m" and "ba_invar (m_payload msg)"
    and "\<forall>old. let hdr = SomeIPHeader_assign old m; set = set_header_at h sizeof_IPCMessageHeader (\<lambda>_. hdr) msg
      in \<exists>m'. message_view h (set\<lparr>m_payload := ba_resize (m_payload set) (20 + length (payload m))\<rparr>) m'
           \<and> SomeIPHeader.truncate m' = SomeIPHeader.truncate m1 \<and> length (payload m') = length (payload m)"
  using assms(1) unfolding tcp_brings_def
proof (elim conjE disjE exE)
  assume a: "stream = concat (map tcp_frame ms)" "message_room h msg (case ms of [] \<Rightarrow> 0 | m # _ \<Rightarrow> length (payload m))"
    "\<forall>m \<in> set ms. tcp_message_ok m"
  then obtain m ms' where ms: "ms = m # ms'" using assms(2) by (cases ms) auto
  show thesis
  proof (rule that [of m ms' m], goal_cases)
    case 7
    have "header_ok (SomeIPHeader_assign old m)" for old :: MessageHeader
      using a(3) ms by (simp add: header_ok_def SomeIPHeader_assign_def tcp_message_ok_def)
    from header_entered [OF a(2) this] ms show ?case
      by (fastforce simp: Let_def SomeIPHeader.defs MessageHeader.defs Message.defs SomeIPHeader_assign_def)
  qed (use a ms in \<open>auto simp: message_room_def\<close>)
next
  fix m ms' assume a: "stream = concat (map tcp_frame (m # ms'))" "ms = zero_header m # ms'" "tcp_message_ok m"
    "1004 < length (payload m)" "fresh_message h msg" "\<forall>m \<in> set ms. tcp_message_ok m"
  show thesis
  proof (rule that [of "zero_header m" ms' m], goal_cases)
    case 7
    have "\<exists>m' :: Message. length (payload m') = length (payload m)
        \<and> SomeIPHeader.truncate m' = SomeIPHeader.truncate (zero_header m)
        \<and> message_view h (set_header_at h sizeof_IPCMessageHeader (\<lambda>_. hdr) msg
          \<lparr>m_payload := ba_resize (m_payload (set_header_at h sizeof_IPCMessageHeader (\<lambda>_. hdr) msg)) (20 + length (payload m))\<rparr>) m'"
      for hdr :: MessageHeader
      using header_lost [OF a(5,4), of m hdr] by (metis length_replicate)
    then show ?case unfolding Let_def by blast
  qed (use a in \<open>auto simp: fresh_message_def\<close>)
qed

lemma TCP_readHeader_step:
  assumes st: "tcp_brings h (m_currentIncomingMessage c) (m_headerBytes c @ inbox c @ later) ms"
    and "m_headerReader c = \<lparr>rb_receivedBytesCount = 16, rb_size = 16\<rparr>" and len: "length (m_headerBytes c) = 16"
  shows "\<exists>c'. TCP_readHeader h c = Inr c' \<and> tcp_receiving h c' later ms \<and> recvs c' = recvs c
    \<and> m_headerReader c' = m_headerReader c"
proof -
  let ?msg = "m_currentIncomingMessage c"
  have ne: "m_headerBytes c @ inbox c @ later \<noteq> []" using len by auto
  from entered_view [OF st ne] obtain m m1 ms' where ms: "ms = m1 # ms'"
    and stream: "m_headerBytes c @ inbox c @ later = tcp_frame m @ concat (map tcp_frame ms')" and m: "tcp_message_ok m"
    and p: "payload m1 = payload m" and ok': "\<forall>m \<in> set ms'. tcp_message_ok m" and inv: "ba_invar (m_payload ?msg)"
    and view: "\<forall>old. let hdr = SomeIPHeader_assign old m;
        set = set_header_at h sizeof_IPCMessageHeader (\<lambda>_. hdr) ?msg
      in \<exists>m'. message_view h (set\<lparr>m_payload := ba_resize (m_payload set) (20 + length (payload m))\<rparr>) m'
           \<and> SomeIPHeader.truncate m' = SomeIPHeader.truncate m1 \<and> length (payload m') = length (payload m)" .
  let ?n = "length (payload m)"
  have ok: "header_ok m" "8 + ?n < 2 ^ 32" using m by (auto simp: tcp_message_ok_def)
  have hb: "m_headerBytes c = header_code m (of_nat (8 + ?n))"
    and rest: "inbox c @ later = payload m @ concat (map tcp_frame ms')"
    using stream len
    by (auto simp: tcp_frame_def tcp_bytes_def append_eq_append_conv SOMEIP_HEADER_LENGTH_ON_NETWORK_def sizeof_SomeIPHeader_def)
  let ?hdr = "SomeIPHeader_assign (InputMessage_getHeader h ?msg) m"
  have des: "SomeIPHeader_deserialize h (InputMessage_getHeader h ?msg) (Deserializer_new (m_headerBytes c))
      = Some ((of_nat (8 + ?n), ?hdr), dser (header_code m (of_nat (8 + ?n))) [])"
    using SomeIPHeader_deserialize_code [OF ok(1), of h "InputMessage_getHeader h ?msg" "[]" "of_nat (8 + ?n)" "[]"]
    by (simp add: hb Deserializer_new_dser)
  let ?set = "set_header_at h sizeof_IPCMessageHeader (\<lambda>_. ?hdr) ?msg"
  let ?msg' = "?set\<lparr>m_payload := ba_resize (m_payload ?set) (20 + ?n)\<rparr>"
  have "ba_invar (m_payload ?set)" using inv by (simp add: set_header_at_def)
  then have "unat (tcp_getPayloadLength ?msg') = ?n"
    using ok(2) by (simp add: tcp_getPayloadLength_def sizeof_IPCMessageHeader_def sizeof_MessageHeader_def unat_of_nat)
  then have "TCP_readHeader h c = Inr (c\<lparr>m_currentIncomingMessage := ?msg', m_payloadReader := setBuffer ?n\<rparr>)"
    unfolding TCP_readHeader_def Let_def des setPayloadSize_def option.case prod.case payload_size [OF ok(2)]
    by simp
  moreover have "tcp_receiving h (c\<lparr>m_currentIncomingMessage := ?msg', m_payloadReader := setBuffer ?n\<rparr>) later ms"
    using assms(2) len ms spec [OF view, of "InputMessage_getHeader h ?msg"] rest ok' p
    by (auto simp: tcp_receiving_def setBuffer_def Let_def)
  ultimately show ?thesis by auto
qed

lemma memcpy_at_Nil [simp]: "memcpy_at xs n [] = xs"
  by (simp add: memcpy_at_def)

lemma memcpy_behind:
  "20 \<le> length d \<Longrightarrow> take 20 d @ memcpy_at (drop 20 d) n bs = memcpy_at d (20 + n) bs"
proof -
  assume "20 \<le> length d"
  have e: "n + length bs + 20 = 20 + n + length bs" by simp
  have "n + length bs \<le> length d - 20 \<longleftrightarrow> 20 + n + length bs \<le> length d"
    using \<open>20 \<le> length d\<close> by arith
  then show ?thesis
    by (simp add: memcpy_at_def take_add [of 20 n] e)
qed

lemma message_view_poke:
  assumes "message_view h ipc m" and "n + length bs \<le> length (payload m)"
  shows "message_view h (ipc\<lparr>m_payload := ba_poke (m_payload ipc) (20 + n) bs\<rparr>) (m\<lparr>payload := memcpy_at (payload m) n bs\<rparr>)"
proof -
  obtain hdr where v: "header_ok m" "ipc_messageType hdr = SEND_MESSAGE"
    "ipc_view h ipc hdr (MessageHeader_bytes h m @ payload m)"
    using assms(1) by (auto simp: message_view_def)
  let ?pre = "IPCMessageHeader_bytes h hdr @ MessageHeader_bytes h m"
  have "memcpy_at (?pre @ payload m) (20 + n) bs = ?pre @ memcpy_at (payload m) n bs"
    using memcpy_behind [of "?pre @ payload m" n bs] by simp
  moreover have "MessageHeader_bytes h (m\<lparr>payload := p\<rparr>) = MessageHeader_bytes h m" for p
    by (simp add: MessageHeader_bytes_def)
  ultimately show ?thesis
    using v assms(2) by (auto simp: message_view_def ipc_view_def header_ok_def)
qed

lemma TCP_readPayload_step:
  assumes "tcp_receiving h c later ms" and "reader_isComplete (m_headerReader c)"
  shows "\<exists>c'. TCP_readPayload c = Inr c' \<and> tcp_receiving h c' later ms
    \<and> m_headerReader c' = m_headerReader c \<and> length (recvs c') \<le> length (recvs c)"
proof -
  let ?r = "m_payloadReader c" and ?msg = "m_currentIncomingMessage c"
  let ?n = "rb_receivedBytesCount ?r" and ?d = "getData (m_payload ?msg)"
  obtain m ms' m' where m: "ms = m # ms'" "message_view h ?msg m'" "SomeIPHeader.truncate m' = SomeIPHeader.truncate m"
    "\<forall>m \<in> set ms'. tcp_message_ok m" "length (payload m') = length (payload m)" "rb_size ?r = length (payload m)" "?n \<le> length (payload m)"
    "take ?n (payload m') @ inbox c @ later = payload m @ concat (map tcp_frame ms')"
    and hr: "rb_size (m_headerReader c) = 16" "rb_receivedBytesCount (m_headerReader c) = 16" "length (m_headerBytes c) = 16"
    using assms by (auto simp: tcp_receiving_def reader_isComplete_def Let_def split: if_splits)
  have inv: "ba_invar (m_payload ?msg)" "length (contents (m_payload ?msg)) = 20 + length (payload m)"
    using m(2,5) by (auto simp: message_view_def ipc_view_def)
  then have d: "20 + length (payload m) \<le> length ?d"
    using ba_size_le_data [OF inv(1)] by (simp add: ba_size_contents)
  obtain rep r1 b1 c1 where rd: "IPCBufferReader_read ?r (drop 20 ?d) False c = (rep, r1, b1, c1)"
    by (metis prod_cases4)
  from IPCBufferReader_read_step [OF rd] obtain bs i q where
    s: "r1 = ?r\<lparr>rb_receivedBytesCount := ?n + length bs\<rparr>" "b1 = memcpy_at (drop 20 ?d) ?n bs"
    "c1 = c\<lparr>inbox := i, recvs := q\<rparr>" "inbox c = bs @ i" "length bs \<le> rb_size ?r - ?n"
    "length q \<le> length (recvs c)" "bs \<noteq> [] \<longrightarrow> length q < length (recvs c)" .
  have nb: "?n + length bs \<le> length (payload m)" using s(5) m(6,7) by simp
  let ?msg' = "?msg\<lparr>m_payload := ba_poke (m_payload ?msg) (20 + ?n) bs\<rparr>"
  let ?c' = "c1\<lparr>m_payloadReader := r1, m_currentIncomingMessage := ?msg'\<rparr>"
  have "take 20 ?d @ b1 = memcpy_at ?d (20 + ?n) bs" using s(2) d memcpy_behind [of ?d ?n bs] by simp
  then have "TCP_readPayload c = Inr ?c'"
    using rd s(1,2) nb d
    by (simp add: TCP_readPayload_def tcp_header_size_def sizeof_IPCMessageHeader_def sizeof_MessageHeader_def ba_poke_def Let_def)
  moreover have "message_view h ?msg' (m'\<lparr>payload := memcpy_at (payload m') ?n bs\<rparr>)"
    using m(2,5) nb by (intro message_view_poke) simp_all
  then have "tcp_receiving h ?c' later ms"
    using m s hr nb
    by (auto simp: tcp_receiving_def Let_def take_memcpy_at_end SomeIPHeader.defs
        intro!: exI [of _ "m'\<lparr>payload := memcpy_at (payload m') ?n bs\<rparr>"])
  ultimately show ?thesis using s by auto
qed

text \<open>What the decoder or the handler is given for a message \<open>m\<close> of the stream.\<close>

datatype TCPInput = ToDecoder IPCInputMessage | ToHandler IPCInputMessage

definition shown :: "endianness \<Rightarrow> IPCInputMessage \<Rightarrow> u8 list \<Rightarrow> SomeIPHeader \<Rightarrow> bool" where
  "shown h ipc p hdr = (\<exists>m. message_view h ipc m \<and> payload m = p \<and> SomeIPHeader.truncate m = hdr)"

fun passed_on :: "endianness \<Rightarrow> Message \<Rightarrow> TCPInput \<Rightarrow> bool" where
  "passed_on h m (ToDecoder ipc) = (m_messageID m = SERVICE_DISCOVERY_MEMBER_ID
     \<and> shown h ipc (payload m) (SomeIPHeader.truncate m))"
| "passed_on h m (ToHandler ipc) = (m_messageID m \<noteq> SERVICE_DISCOVERY_MEMBER_ID
     \<and> (if isReply m
        then shown h ipc (payload m) (SomeIPHeader.truncate (tagClientIdentifier m 0))
             \<and> m_clientIdentifier (InputMessage_getHeader h ipc) = extractClientIdentifier m
        else shown h ipc (payload m) (SomeIPHeader.truncate m)))"

text \<open>The functions that record what they are given.\<close>

definition records :: "(IPCInputMessage \<Rightarrow> TCPInput) \<Rightarrow> TCPInput list \<Rightarrow> TCPConnection \<Rightarrow> (TCPInput list \<times> TCPConnection) result" where
  "records f l c = Inr (l @ [f (m_currentIncomingMessage c)], c)"

lemma truncate_header:
  fixes m' :: Message and m :: Message
  assumes "SomeIPHeader.truncate m' = SomeIPHeader.truncate m"
  shows "m_messageID m' = m_messageID m" "m_requestID m' = m_requestID m" "m_messageType m' = m_messageType m"
    "isReply m' = isReply m" "extractClientIdentifier m' = extractClientIdentifier m"
    "SomeIPHeader.truncate (tagClientIdentifier m' i) = SomeIPHeader.truncate (tagClientIdentifier m i)"
  using assms
  by (auto simp: SomeIPHeader.defs isReply_def extractClientIdentifier_def tagClientIdentifier_def setRequestID_def isErrorType_def)

lemma truncate_truncate:
  fixes m :: Message
  shows "m_messageID (MessageHeader.truncate m) = m_messageID m"
    "isReply (MessageHeader.truncate m) = isReply m"
    "extractClientIdentifier (MessageHeader.truncate m) = extractClientIdentifier m"
  by (simp_all add: MessageHeader.defs isReply_def extractClientIdentifier_def)

text \<open>The part of \<open>processIncomingData\<close> that finds the client an answer is for.\<close>

lemma untagged_view:
  assumes "message_view h ipc m"
  defines "ipc' \<equiv> set_header_at h sizeof_IPCMessageHeader (\<lambda>header. tagClientIdentifier header 0)
      (InputMessage_setClientIdentifier h ipc (extractClientIdentifier m))"
  shows "message_view h ipc' (tagClientIdentifier (m\<lparr>m_clientIdentifier := extractClientIdentifier m\<rparr>) 0)"
proof -
  let ?m1 = "m\<lparr>m_clientIdentifier := extractClientIdentifier m\<rparr>"
  have ok: "header_ok m" using assms(1) by (simp add: message_view_def)
  have "message_view h (InputMessage_setClientIdentifier h ipc (extractClientIdentifier m)) ?m1"
    unfolding InputMessage_setClientIdentifier_def
    using assms(1) ok by (intro message_view_set_header) (simp_all add: MessageHeader.defs header_ok_def)
  then show ?thesis
    unfolding ipc'_def
    by (rule message_view_set_header)
      (use ok in \<open>simp_all add: MessageHeader.defs header_ok_def tagClientIdentifier_def setRequestID_def\<close>)
qed

lemma TCP_messageComplete_step:
  assumes rec: "tcp_receiving h c later ms" and "reader_isComplete (m_headerReader c)"
    and "reader_isComplete (m_payloadReader c)"
  shows "\<exists>m ms' x c'. ms = m # ms' \<and> passed_on h m x
    \<and> TCP_messageComplete h (records ToDecoder) (records ToHandler) l c = Inr (l @ [x], c')
    \<and> tcp_receiving h c' later ms' \<and> \<not> reader_isComplete (m_headerReader c') \<and> recvs c' = recvs c"
proof -
  let ?msg = "m_currentIncomingMessage c"
  obtain m ms' m' where m: "ms = m # ms'" "message_view h ?msg m'" "SomeIPHeader.truncate m' = SomeIPHeader.truncate m"
    "payload m' = payload m" "inbox c @ later = concat (map tcp_frame ms')" "\<forall>m \<in> set ms'. tcp_message_ok m"
    and hr: "rb_size (m_headerReader c) = 16" "length (m_headerBytes c) = 16"
    using assms by (auto simp: tcp_receiving_def reader_isComplete_def Let_def split: if_splits)
  note t = truncate_header [OF m(3)]
  have hd: "InputMessage_getHeader h ?msg = MessageHeader.truncate m'"
    using m(2) by (simp add: InputMessage_getHeader_def message_view_header_at)
  define msg' where "msg' = (if m_messageID m \<noteq> SERVICE_DISCOVERY_MEMBER_ID \<and> isReply m
    then set_header_at h sizeof_IPCMessageHeader (\<lambda>header. tagClientIdentifier header 0)
      (InputMessage_setClientIdentifier h ?msg (extractClientIdentifier m')) else ?msg)"
  define x where "x = (if m_messageID m = SERVICE_DISCOVERY_MEMBER_ID then ToDecoder msg' else ToHandler msg')"
  define m2 where "m2 = (if m_messageID m \<noteq> SERVICE_DISCOVERY_MEMBER_ID \<and> isReply m
    then tagClientIdentifier (m'\<lparr>m_clientIdentifier := extractClientIdentifier m'\<rparr>) 0 else m')"
  have v: "message_view h msg' m2" using m(2) untagged_view [OF m(2)] by (simp add: msg'_def m2_def)
  have "InputMessage_getHeader h msg' = MessageHeader.truncate m2"
    using v by (simp add: InputMessage_getHeader_def message_view_header_at)
  moreover have "payload m2 = payload m" "SomeIPHeader.truncate m2 = SomeIPHeader.truncate
      (if m_messageID m \<noteq> SERVICE_DISCOVERY_MEMBER_ID \<and> isReply m then tagClientIdentifier m 0 else m)"
    using m(3,4) t(2) by (simp_all add: m2_def tagClientIdentifier_def setRequestID_def SomeIPHeader.defs)
  ultimately have "passed_on h m x"
    using v t by (auto simp: x_def shown_def m2_def tagClientIdentifier_def setRequestID_def MessageHeader.defs
        intro!: exI [of _ m2])
  moreover have "TCP_messageComplete h (records ToDecoder) (records ToHandler) l c = Inr (l @ [x],
      c\<lparr>m_currentIncomingMessage := msg', m_headerReader := reader_clear (m_headerReader c),
        m_payloadReader := reader_clear (m_payloadReader c)\<rparr>)" (is "_ = Inr (_, ?c')")
    using t hd by (simp add: TCP_messageComplete_def records_def x_def msg'_def truncate_truncate Let_def)
  moreover have "tcp_receiving h ?c' later ms'"
    using m(5,6) hr message_room_view [OF v] by (simp add: tcp_receiving_def tcp_brings_def reader_clear_def)
  ultimately show ?thesis using m(1) hr by (auto simp: reader_isComplete_def reader_clear_def)
qed

definition tcp_measure :: "TCPConnection \<Rightarrow> nat" where
  "tcp_measure c = 2 * length (recvs c) + (if reader_isComplete (m_headerReader c) then 1 else 0)"

definition tcp_idle :: "TCPConnection \<Rightarrow> bool" where
  "tcp_idle c = (\<not> reader_isComplete (m_headerReader c) \<or> \<not> reader_isComplete (m_payloadReader c))"

lemma processIncomingData_frames:
  assumes "tcp_receiving h c later ms"
  shows "\<exists>xs c' done ms'. processIncomingData h (records ToDecoder) (records ToHandler) l c = Some (Inr (l @ xs, c'))
    \<and> ms = done @ ms' \<and> list_all2 (passed_on h) done xs \<and> tcp_receiving h c' later ms' \<and> tcp_idle c'"
  using assms
proof (induction "tcp_measure c" arbitrary: c ms l rule: less_induct)
  case less
  show ?case
  proof (cases "reader_isComplete (m_headerReader c)")
    case False
    note r = TCP_readHeaderBytes_step [OF less.prems False]
    let ?c = "TCP_readHeaderBytes c"
    show ?thesis
    proof (cases "reader_isComplete (m_headerReader ?c)")
      case True
      then obtain c2 where c2: "TCP_readHeader h ?c = Inr c2" "tcp_receiving h c2 later ms" "recvs c2 = recvs ?c"
        using TCP_readHeader_step [of h ?c later ms] r(2) by auto
      have "tcp_measure c2 < tcp_measure c" using r(2) True False c2(3) by (auto simp: tcp_measure_def)
      from less.hyps [OF this c2(2)] show ?thesis
        using False True c2(1) by (subst processIncomingData.simps) simp
    next
      case F: False
      then show ?thesis
        using False r(3) by (subst processIncomingData.simps) (auto simp: tcp_idle_def intro!: exI [of _ "[]"])
    qed
  next
    case True
    obtain c1 where c1: "TCP_readPayload c = Inr c1" "tcp_receiving h c1 later ms"
      "m_headerReader c1 = m_headerReader c" "length (recvs c1) \<le> length (recvs c)"
      using TCP_readPayload_step [OF less.prems True] by blast
    show ?thesis
    proof (cases "reader_isComplete (m_payloadReader c1)")
      case F: False
      then show ?thesis
        using True c1 by (subst processIncomingData.simps) (auto simp: tcp_idle_def intro!: exI [of _ "[]"])
    next
      case T: True
      obtain m ms1 x c2 where c2: "ms = m # ms1" "passed_on h m x"
        "TCP_messageComplete h (records ToDecoder) (records ToHandler) l c1 = Inr (l @ [x], c2)"
        "tcp_receiving h c2 later ms1" "\<not> reader_isComplete (m_headerReader c2)" "recvs c2 = recvs c1"
        using TCP_messageComplete_step [OF c1(2) _ T, of l] c1(3) True by auto
      have dec: "tcp_measure c2 < tcp_measure c" using c2(5,6) c1(4) True by (simp add: tcp_measure_def)
      obtain xs c' dn ms' where ih: "processIncomingData h (records ToDecoder) (records ToHandler) (l @ [x]) c2
          = Some (Inr ((l @ [x]) @ xs, c'))" "ms1 = dn @ ms'" "list_all2 (passed_on h) dn xs"
        "tcp_receiving h c' later ms'" "tcp_idle c'"
        using less.hyps [OF dec c2(4), of "l @ [x]"] by auto
      have "processIncomingData h (records ToDecoder) (records ToHandler) l c = Some (Inr (l @ x # xs, c'))"
        using True T c1(1) c2(3) ih(1) by (subst processIncomingData.simps) simp
      moreover have "ms = (m # dn) @ ms'" "list_all2 (passed_on h) (m # dn) (x # xs)" using c2(1,2) ih(2,3) by simp_all
      ultimately show ?thesis using ih(4,5) by blast
    qed
  qed
qed

text \<open>What is left when every byte has been read is nothing.\<close>

lemma tcp_idle_done:
  assumes "tcp_receiving h c [] ms" and "tcp_idle c" and "inbox c = []"
  shows "ms = []"
proof (rule ccontr)
  assume "ms \<noteq> []"
  then obtain m ms1 where ms: "ms = m # ms1" by (cases ms) auto
  show False
  proof (cases "rb_receivedBytesCount (m_headerReader c) < 16")
    case True
    then have "tcp_brings h (m_currentIncomingMessage c) (take (rb_receivedBytesCount (m_headerReader c)) (m_headerBytes c)) ms"
      using assms(1,3) by (auto simp: tcp_receiving_def Let_def)
    then obtain m1 where "take (rb_receivedBytesCount (m_headerReader c)) (m_headerBytes c) = tcp_frame m1 @ concat (map tcp_frame ms1)"
      using ms by (auto simp: tcp_brings_def)
    then have "length (take (rb_receivedBytesCount (m_headerReader c)) (m_headerBytes c)) \<ge> length (tcp_frame m1)" by simp
    with True show False
      by (simp add: tcp_frame_def tcp_bytes_def SOMEIP_HEADER_LENGTH_ON_NETWORK_def sizeof_SomeIPHeader_def)
  next
    case False
    let ?n = "rb_receivedBytesCount (m_payloadReader c)"
    obtain m' :: Message where m': "rb_size (m_payloadReader c) = length (payload m)" "?n \<le> length (payload m)"
      "take ?n (payload m') = payload m @ concat (map tcp_frame ms1)"
      and h: "reader_isComplete (m_headerReader c)"
      using assms(1,3) False ms by (auto simp: tcp_receiving_def Let_def reader_isComplete_def)
    have "length (take ?n (payload m')) \<ge> length (payload m)" using m'(3) by simp
    then have "?n = rb_size (m_payloadReader c)" using m'(1,2) by simp
    with assms(2) h show False by (simp add: tcp_idle_def reader_isComplete_def)
  qed
qed

section \<open>The life of a connection\<close>

text \<open>
  Calls of \<open>processIncomingData\<close>, before each of which more bytes have arrived and the kernel
  has made up its mind about the next calls of \<open>recv\<close>.
\<close>

fun tcp_receive_all ::
    "endianness \<Rightarrow> ('l \<Rightarrow> TCPConnection \<Rightarrow> ('l \<times> TCPConnection) result)
     \<Rightarrow> ('l \<Rightarrow> TCPConnection \<Rightarrow> ('l \<times> TCPConnection) result)
     \<Rightarrow> 'l \<Rightarrow> TCPConnection \<Rightarrow> (u8 list \<times> recv_outcome list) list \<Rightarrow> ('l \<times> TCPConnection) result option" where
  "tcp_receive_all h decode handler l c [] = Some (Inr (l, c))"
| "tcp_receive_all h decode handler l c ((bytes, outcomes) # rest) =
     bindW (processIncomingData h decode handler l (c\<lparr>inbox := inbox c @ bytes, recvs := outcomes\<rparr>))
       (\<lambda>(l, c). tcp_receive_all h decode handler l c rest)"

lemma tcp_receiving_more:
  "tcp_receiving h c (bytes @ later) ms \<Longrightarrow> tcp_receiving h (c\<lparr>inbox := inbox c @ bytes, recvs := q\<rparr>) later ms"
  by (auto simp: tcp_receiving_def Let_def)

lemma tcp_receive_all_frames:
  assumes "tcp_receiving h c (concat (map fst batches) @ later) ms" and "tcp_idle c"
  shows "\<exists>xs c' done ms'. tcp_receive_all h (records ToDecoder) (records ToHandler) l c batches = Some (Inr (l @ xs, c'))
    \<and> ms = done @ ms' \<and> list_all2 (passed_on h) done xs \<and> tcp_receiving h c' later ms' \<and> tcp_idle c'"
  using assms
proof (induction batches arbitrary: c ms l)
  case Nil
  then show ?case by (auto intro!: exI [of _ "[]"])
next
  case (Cons b batches)
  obtain bytes outcomes where b: "b = (bytes, outcomes)" by fastforce
  let ?c = "c\<lparr>inbox := inbox c @ bytes, recvs := outcomes\<rparr>"
  have "tcp_receiving h ?c (concat (map fst batches) @ later) ms"
    using tcp_receiving_more [of h c bytes _ ms] Cons.prems(1) b by simp
  from processIncomingData_frames [OF this, of l]
  obtain xs1 c1 d1 ms1 where s1: "processIncomingData h (records ToDecoder) (records ToHandler) l ?c = Some (Inr (l @ xs1, c1))"
    "ms = d1 @ ms1" "list_all2 (passed_on h) d1 xs1" "tcp_receiving h c1 (concat (map fst batches) @ later) ms1" "tcp_idle c1"
    by blast
  from Cons.IH [OF s1(4,5), of "l @ xs1"]
  obtain xs2 c2 d2 ms2 where s2: "tcp_receive_all h (records ToDecoder) (records ToHandler) (l @ xs1) c1 batches
      = Some (Inr ((l @ xs1) @ xs2, c2))" "ms1 = d2 @ ms2" "list_all2 (passed_on h) d2 xs2"
    "tcp_receiving h c2 later ms2" "tcp_idle c2"
    by blast
  have "tcp_receive_all h (records ToDecoder) (records ToHandler) l c (b # batches) = Some (Inr (l @ xs1 @ xs2, c2))"
    using b s1(1) s2(1) by simp
  moreover have "ms = (d1 @ d2) @ ms2" "list_all2 (passed_on h) (d1 @ d2) (xs1 @ xs2)"
    using s1(2,3) s2(2,3) by (simp_all add: list_all2_appendI)
  ultimately show ?case using s2(4,5) by blast
qed

definition tcp_start :: "endianness \<Rightarrow> int \<Rightarrow> TCPConnection" where
  "tcp_start h fileDescriptor = TCPClient_init (TCPConnection_new h False fileDescriptor)"

lemma fresh_MyInputMessage: "fresh_message h (MyInputMessage_new h)"
proof -
  let ?m = "IPCMessage.extend IPCMessage_new (IPCInputMessage.fields 0 0 False)"
  have "ipc_view h ?m IPCMessageHeader_zero []"
    using ipc_view_new [of h] by (simp add: ipc_view_def IPCMessage.defs)
  then have "ipc_view h (IPCMessage_setHeader h (\<lambda>hdr. hdr\<lparr>ipc_requestID := 0\<rparr>)
      (IPCMessage_setHeader h (\<lambda>hdr. hdr\<lparr>ipc_messageType := INVALID\<rparr>) ?m)) IPCMessageHeader_zero []"
    using ipc_view_setHeader [OF ipc_view_setHeader, of h ?m IPCMessageHeader_zero "[]" "\<lambda>hdr. hdr\<lparr>ipc_messageType := INVALID\<rparr>"
        "\<lambda>hdr. hdr\<lparr>ipc_requestID := 0\<rparr>"]
    by (simp add: IPCMessageHeader_zero_def IPCMessageHeader_ok_def)
  then have "ipc_view h (IPCInputMessage_new h) IPCMessageHeader_zero []"
    by (simp add: IPCInputMessage_new_def IPCInput_clear_def Let_def ipc_view_def)
  from ipc_view_setHeader [OF this, of "\<lambda>hdr. hdr\<lparr>ipc_messageType := SEND_MESSAGE\<rparr>"]
  have v: "ipc_view h (MyInputMessage_new h) (IPCMessageHeader_zero\<lparr>ipc_messageType := SEND_MESSAGE\<rparr>) []"
    by (simp add: MyInputMessage_new_def IPCMessageHeader_zero_def IPCMessageHeader_ok_def)
  have "usesStaticBuffer (m_payload (MyInputMessage_new h))"
    by (simp add: usesStaticBuffer_def MyInputMessage_new_def IPCInputMessage_new_def IPCInput_clear_def
        IPCMessage_setHeader_def IPCMessage_new_def IPCMessage.defs ba_poke_def setData_def ba_resize_def
        ByteArray_new_def sizeof_IPCMessageHeader_def STATIC_DATA_SIZE_def Let_def split: option.splits)
  with v show ?thesis
    by (auto simp: fresh_message_def ipc_view_def intro!: exI [of _ "IPCMessageHeader_zero\<lparr>ipc_messageType := SEND_MESSAGE\<rparr>"])
qed

lemma tcp_start_receiving:
  assumes "fd \<noteq> UNINITIALIZED_FILE_DESCRIPTOR" and "tcp_brings h (MyInputMessage_new h) stream ms"
  shows "tcp_receiving h (tcp_start h fd) stream ms" and "tcp_idle (tcp_start h fd)"
  using assms
  by (simp_all add: tcp_start_def TCPClient_init_def TCPConnection_new_def setupConnection_def setBuffer_def
      SOMEIP_HEADER_LENGTH_ON_NETWORK_def sizeof_SomeIPHeader_def tcp_receiving_def tcp_idle_def reader_isComplete_def)

lemma tcp_brings_small:
  assumes "\<forall>m \<in> set ms. tcp_message_ok m" and "ms \<noteq> [] \<longrightarrow> length (payload (hd ms)) \<le> 1004"
  shows "tcp_brings h (MyInputMessage_new h) (concat (map tcp_frame ms)) ms"
proof -
  have "length (contents (m_payload (MyInputMessage_new h))) = 4"
    "take 4 (contents (m_payload (MyInputMessage_new h))) = contents (m_payload (MyInputMessage_new h))"
    using fresh_MyInputMessage [of h] by (auto simp: fresh_message_def)
  then have "message_room h (MyInputMessage_new h) (case ms of [] \<Rightarrow> 0 | m # _ \<Rightarrow> length (payload m))"
    using fresh_MyInputMessage [of h] assms(2)
    by (auto simp: fresh_message_def message_room_def ba_size_contents split: list.split)
  with assms(1) show ?thesis by (simp add: tcp_brings_def)
qed

lemma tcp_receive_from_start:
  assumes "fd \<noteq> UNINITIALIZED_FILE_DESCRIPTOR"
    and "tcp_brings h (MyInputMessage_new h) (concat (map fst batches) @ later) ms"
  shows "case tcp_receive_all h (records ToDecoder) (records ToHandler) [] (tcp_start h fd) batches of
      Some (Inr (xs, c)) \<Rightarrow>
        \<exists>done rest. ms = done @ rest \<and> list_all2 (passed_on h) done xs \<and> (later = [] \<and> inbox c = [] \<longrightarrow> rest = [])
    | _ \<Rightarrow> False"
proof -
  from tcp_receive_all_frames [OF tcp_start_receiving [OF assms], of "[]"]
  obtain xs c dn rest where "tcp_receive_all h (records ToDecoder) (records ToHandler) [] (tcp_start h fd) batches = Some (Inr (xs, c))"
    "ms = dn @ rest" "list_all2 (passed_on h) dn xs" "tcp_receiving h c later rest" "tcp_idle c"
    by auto
  moreover from this have "rest = []" if "later = []" "inbox c = []"
    using that tcp_idle_done [of h c rest] by simp
  ultimately show ?thesis by auto
qed

lemma TCP_readHeaderBytes_progress:
  assumes "\<not> reader_isComplete (m_headerReader c)" and "reader_isComplete (m_headerReader (TCP_readHeaderBytes c))"
  shows "length (recvs (TCP_readHeaderBytes c)) < length (recvs c)
    \<and> rb_size (m_headerReader (TCP_readHeaderBytes c)) = rb_size (m_headerReader c)"
proof -
  obtain rep r1 b1 c1 where rd: "IPCBufferReader_read (m_headerReader c) (m_headerBytes c) False c = (rep, r1, b1, c1)"
    by (metis prod_cases4)
  from IPCBufferReader_read_step [OF rd] obtain bs i q where
    s: "r1 = (m_headerReader c)\<lparr>rb_receivedBytesCount := rb_receivedBytesCount (m_headerReader c) + length bs\<rparr>"
    "b1 = memcpy_at (m_headerBytes c) (rb_receivedBytesCount (m_headerReader c)) bs" "c1 = c\<lparr>inbox := i, recvs := q\<rparr>"
    "inbox c = bs @ i" "length bs \<le> rb_size (m_headerReader c) - rb_receivedBytesCount (m_headerReader c)"
    "length q \<le> length (recvs c)" "bs \<noteq> [] \<longrightarrow> length q < length (recvs c)" .
  from assms rd s(1,3,7) show ?thesis by (auto simp: TCP_readHeaderBytes_def reader_isComplete_def)
qed

lemma TCP_readHeader_keeps:
  "TCP_readHeader h c = Inr c' \<Longrightarrow> recvs c' = recvs c \<and> m_headerReader c' = m_headerReader c"
  by (auto simp: TCP_readHeader_def Let_def split: option.splits)

lemma TCP_readPayload_keeps:
  assumes "TCP_readPayload c = Inr c'"
  shows "length (recvs c') \<le> length (recvs c) \<and> m_headerReader c' = m_headerReader c"
proof -
  let ?d = "getData (m_payload (m_currentIncomingMessage c))"
  obtain rep r1 b1 c1 where rd: "IPCBufferReader_read (m_payloadReader c) (drop tcp_header_size ?d) False c = (rep, r1, b1, c1)"
    by (metis prod_cases4)
  from IPCBufferReader_read_step [OF rd] obtain i q where "c1 = c\<lparr>inbox := i, recvs := q\<rparr>" "length q \<le> length (recvs c)" by blast
  with assms rd show ?thesis by (auto simp: TCP_readPayload_def Let_def split: if_splits)
qed

lemma TCP_messageComplete_keeps:
  assumes "TCP_messageComplete h decode handler l c = Inr (l', c')"
    and "\<forall>f \<in> {decode, handler}. \<forall>l c l' c'. f l c = Inr (l', c') \<longrightarrow>
      recvs c' = recvs c \<and> rb_size (m_headerReader c') = rb_size (m_headerReader c)"
  shows "recvs c' = recvs c \<and> rb_size (m_headerReader c') = rb_size (m_headerReader c)
    \<and> rb_receivedBytesCount (m_headerReader c') = 0"
  using assms by (auto simp: TCP_messageComplete_def Let_def bindE_eq_Inr reader_clear_def split: if_splits)

lemma untag_same:
  assumes "m_requestID request < 0x10000" and "m_requestID answer = m_requestID (tagClientIdentifier request i)"
  shows "m_requestID (tagClientIdentifier answer 0) = m_requestID request"
proof -
  have "m_requestID (tagClientIdentifier answer 0) = m_requestID (tagClientIdentifier (tagClientIdentifier request i) 0)"
    using assms(2) by (simp add: tagClientIdentifier_def setRequestID_def)
  with untag_small [OF assms(1)] show ?thesis by (simp add: untag_tag)
qed

lemma short_payload_size:
  assumes "len < (8 :: u32)"
  shows "unat (ucast len - of_nat SOMEIP_HEADER_LENGTH_ON_NETWORK + 4 + 4
      + of_nat sizeof_IPCMessageHeader + of_nat sizeof_MessageHeader :: u64) = 12 + unat len"
    and "2 ^ 63 \<le> unat (of_nat (12 + unat len) - of_nat sizeof_IPCMessageHeader - of_nat sizeof_MessageHeader :: u64)"
proof -
  have "unat len < 8" using assms by (simp add: word_less_nat_alt)
  then have "unat len = 0 \<or> unat len = 1 \<or> unat len = 2 \<or> unat len = 3 \<or> unat len = 4 \<or> unat len = 5
      \<or> unat len = 6 \<or> unat len = 7"
    by arith
  then have d: "len = 0 \<or> len = 1 \<or> len = 2 \<or> len = 3 \<or> len = 4 \<or> len = 5 \<or> len = 6 \<or> len = 7"
    by (elim disjE) (simp_all add: word_unat_eq_iff)
  then show "unat (ucast len - of_nat SOMEIP_HEADER_LENGTH_ON_NETWORK + 4 + 4
      + of_nat sizeof_IPCMessageHeader + of_nat sizeof_MessageHeader :: u64) = 12 + unat len"
    by (elim disjE) (simp_all add: SOMEIP_HEADER_LENGTH_ON_NETWORK_def sizeof_SomeIPHeader_def sizeof_IPCMessageHeader_def sizeof_MessageHeader_def)
  show "2 ^ 63 \<le> unat (of_nat (12 + unat len) - of_nat sizeof_IPCMessageHeader - of_nat sizeof_MessageHeader :: u64)"
    using d
    by (elim disjE) (simp_all add: sizeof_IPCMessageHeader_def sizeof_MessageHeader_def unsigned_minus_1_eq_mask mask_eq_exp_minus_1)
qed

lemma short_header_entered:
  assumes "header_ok hdr" and "len < 8" and "m_currentIncomingMessage c = MyInputMessage_new h"
    and "m_headerBytes c = header_code hdr len"
  shows "\<exists>msg n. TCP_readHeader h c = Inr (c\<lparr>m_currentIncomingMessage := msg, m_payloadReader := setBuffer n\<rparr>)
    \<and> length (getData (m_payload msg)) = 1024 \<and> 2 ^ 63 \<le> n"
proof -
  let ?msg = "MyInputMessage_new h"
  let ?hdr = "SomeIPHeader_assign (InputMessage_getHeader h ?msg) hdr"
  have des: "SomeIPHeader_deserialize h (InputMessage_getHeader h ?msg) (Deserializer_new (header_code hdr len))
      = Some ((len, ?hdr), dser (header_code hdr len) [])"
    using SomeIPHeader_deserialize_code [OF assms(1), of h "InputMessage_getHeader h ?msg" "[]" len "[]"]
    by (simp add: Deserializer_new_dser)
  let ?set = "set_header_at h sizeof_IPCMessageHeader (\<lambda>_. ?hdr) ?msg"
  let ?msg' = "?set\<lparr>m_payload := ba_resize (m_payload ?set) (12 + unat len)\<rparr>"
  have f: "ba_invar (m_payload ?msg)" "m_dynamicData (m_payload ?msg) = None"
    using fresh_MyInputMessage [of h] by (auto simp: fresh_message_def usesStaticBuffer_def)
  have "unat len < 8" using assms(2) by (simp add: word_less_nat_alt)
  then have "length (getData (m_payload ?msg')) = 1024"
    using f by (simp add: set_header_at_def ba_poke_def setData_def ba_resize_def getData_def ba_invar_def STATIC_DATA_SIZE_def)
  moreover have "ba_size (m_payload ?msg') = 12 + unat len" using f by (simp add: set_header_at_def)
  then have "2 ^ 63 \<le> unat (tcp_getPayloadLength ?msg')"
    using short_payload_size(2) [OF assms(2)] by (simp add: tcp_getPayloadLength_def)
  moreover have "TCP_readHeader h c = Inr (c\<lparr>m_currentIncomingMessage := ?msg', m_payloadReader := setBuffer (unat (tcp_getPayloadLength ?msg'))\<rparr>)"
    unfolding TCP_readHeader_def Let_def assms(3,4) des setPayloadSize_def option.case prod.case short_payload_size(1) [OF assms(2)]
    by simp
  ultimately show ?thesis by blast
qed

section \<open>Restarts of a host\<close>

text \<open>What a sequence of multicast messages of one host is taken for.\<close>

fun detections :: "ServiceDiscoveryMessage list \<Rightarrow> RebootInformation \<times> RebootInformation \<Rightarrow> bool list" where
  "detections [] infos = []"
| "detections (msg # msgs) infos = (let (b, infos) = detectReboot msg True infos in b # detections msgs infos)"

fun remembered :: "ServiceDiscoveryMessage list \<Rightarrow> RebootInformation \<times> RebootInformation \<Rightarrow> RebootInformation \<times> RebootInformation" where
  "remembered [] infos = infos"
| "remembered (msg # msgs) infos = remembered msgs (snd (detectReboot msg True infos))"

lemma detections_append: "detections (xs @ ys) infos = detections xs infos @ detections ys (remembered xs infos)"
  by (induction xs arbitrary: infos) (auto simp: split: prod.split)

definition last_session :: "nat \<Rightarrow> RebootInformation" where
  "last_session n = \<lparr>m_lastReceivedSessionID = (if n = 0 then 0 else ucast (session_id (n - 1)))\<rparr>"

lemma session_id_less:
  assumes "n < 65535" and "n \<noteq> 0"
  shows "\<not> (ucast (session_id n) :: u32) < ucast (session_id (n - 1))"
  using unat_session_id [of n] unat_session_id [of "n - 1"] assms
  by (simp add: word_less_nat_alt unsigned_ucast_eq take_bit_nat_eq_self)

lemma detections_running:
  "detections (new_messages (counters_at u m) (replicate k True)) (last_session m, i) = replicate k False
   \<and> remembered (new_messages (counters_at u m) (replicate k True)) (last_session m, i) = (last_session (m + k), i)"
proof (induction k arbitrary: m)
  case (Suc k)
  obtain msg where msg: "ServiceDiscoveryMessage_new (counters_at u m) True = (counters_at u (Suc m), msg)"
    "m_requestID msg = ucast (session_id m)" "getRebootFlag msg = (m < 65535)"
    using ServiceDiscoveryMessage_new_at [of u m True] by (auto simp: session_of_def)
  have "detectReboot msg True (last_session m, i) = (False, last_session (Suc m), i)"
    using msg(2,3) session_id_less [of m]
    by (auto simp: detectReboot_def updateAndTestReboot_def last_session_def)
  with Suc [of "Suc m"] msg(1) show ?case by simp
qed simp

section \<open>Properties\<close>

text \<open>
  C0. SOME/IP messages cross a TCP connection whatever the pieces they arrive in and whatever
  the byte order of the two hosts: of the messages one host has serialized, the other hands
  over the first ones, in order, each once, with header and payload unchanged, discovery
  messages to the decoder and the rest to the handler. An answer comes with the client of its
  tag and without the tag. When every byte has arrived and been read, all have been handed
  over. The first payload is at most 1004 bytes long.
\<close>

theorem tcp_reassembly:
  assumes "fd \<noteq> UNINITIALIZED_FILE_DESCRIPTOR"
    and "concat (map fst batches) @ later = concat (map (\<lambda>m. contents (TCP_serialize h' m (payload m))) ms)"
    and "\<forall>m \<in> set ms. header_ok m \<and> 8 + length (payload m) < 2 ^ 32"
    and "ms \<noteq> [] \<longrightarrow> length (payload (hd ms)) \<le> 1004"
  shows "case tcp_receive_all h (records ToDecoder) (records ToHandler) [] (tcp_start h fd) batches of
      Some (Inr (xs, c)) \<Rightarrow>
        \<exists>done rest. ms = done @ rest \<and> list_all2 (passed_on h) done xs \<and> (later = [] \<and> inbox c = [] \<longrightarrow> rest = [])
    | _ \<Rightarrow> False"
proof -
  have "concat (map fst batches) @ later = concat (map tcp_frame ms)"
    using assms(2) by (simp add: contents_TCP_serialize tcp_frame_def [abs_def])
  with tcp_brings_small [of ms h] assms(3,4) show ?thesis
    by (intro tcp_receive_from_start [OF assms(1)]) (simp add: tcp_message_ok_def)
qed

definition sample_reply :: Message where
  "sample_reply = \<lparr>m_messageID = 0x12345678, m_requestID = 0x00051001, m_protocolVersion = 1, m_interfaceVersion = 0,
     m_messageType = RESPONSE, m_returnCode = E_OK, m_clientIdentifier = 0, m_instanceID = 0, payload = [1, 2]\<rparr>"

theorem tcp_reassembly_witness:
  "case tcp_receive_all LittleEndian (records ToDecoder) (records ToHandler) [] (tcp_start LittleEndian 5)
      [(contents (TCP_serialize BigEndian sample_reply [1, 2]), [Delivers 3, Delivers 20, Delivers 2])] of
      Some (Inr (xs, c)) \<Rightarrow> \<exists>done rest. [sample_reply] = done @ rest \<and> list_all2 (passed_on LittleEndian) done xs
    | _ \<Rightarrow> False"
proof -
  have "payload sample_reply = [1, 2]" "header_ok sample_reply" by (simp_all add: sample_reply_def header_ok_def)
  with tcp_reassembly [of 5 "[(contents (TCP_serialize BigEndian sample_reply [1, 2]), [Delivers 3, Delivers 20, Delivers 2])]" "[]" BigEndian
      "[sample_reply]" LittleEndian]
  show ?thesis
    by (simp add: UNINITIALIZED_FILE_DESCRIPTOR_def split: option.splits sum.splits prod.splits) blast
qed

text \<open>
  C0. If the first message of a TCP connection has a payload of more than 1004 bytes its
  header is lost: it is handed over with its payload and a header of zeros, whatever its
  header was.
\<close>

theorem first_large_message_loses_header:
  fixes m :: Message
  assumes "fd \<noteq> UNINITIALIZED_FILE_DESCRIPTOR"
    and "concat (map fst batches) = contents (TCP_serialize h' m (payload m))"
    and "header_ok m" and "1004 < length (payload m)" and "8 + length (payload m) < 2 ^ 32"
  shows "case tcp_receive_all h (records ToDecoder) (records ToHandler) [] (tcp_start h fd) batches of
      Some (Inr (xs, c)) \<Rightarrow> inbox c = [] \<longrightarrow>
        (\<exists>ipc. xs = [ToHandler ipc] \<and> InputMessage_getPayload ipc = payload m
           \<and> m_messageID (InputMessage_getHeader h ipc) = 0 \<and> m_requestID (InputMessage_getHeader h ipc) = 0)
    | _ \<Rightarrow> False"
proof -
  let ?z = "zero_header m"
  have "tcp_brings h (MyInputMessage_new h) (concat (map fst batches) @ []) [?z]"
    using assms fresh_MyInputMessage [of h]
    by (auto simp: tcp_brings_def contents_TCP_serialize tcp_message_ok_def tcp_frame_def intro!: exI [of _ m])
  note start = tcp_receive_from_start [OF assms(1) this]
  have z: "m_messageID ?z \<noteq> SERVICE_DISCOVERY_MEMBER_ID" "\<not> isReply ?z"
    by (simp_all add: zero_header_def SERVICE_DISCOVERY_MEMBER_ID_def getMessageID_def SERVICE_ID_BITS_COUNT_def isReply_def isErrorType_def MessageType_cast_def)
  have s: "InputMessage_getPayload ipc = payload m \<and> m_messageID (InputMessage_getHeader h ipc) = 0
      \<and> m_requestID (InputMessage_getHeader h ipc) = 0" if "shown h ipc (payload m) (SomeIPHeader.truncate ?z)" for ipc
    using that
    by (auto simp: shown_def message_view_payload InputMessage_getHeader_def message_view_header_at zero_header_def
        SomeIPHeader.defs MessageHeader.defs)
  have "\<exists>ipc. x = ToHandler ipc \<and> shown h ipc (payload m) (SomeIPHeader.truncate ?z)" if "passed_on h ?z x" for x
    using that z by (cases x) auto
  then show ?thesis
    using start s by (fastforce simp: list_all2_Cons1 split: option.splits sum.splits)
qed

theorem first_large_message_loses_header_witness:
  "let m = sample_reply\<lparr>payload := replicate 2000 7\<rparr>
   in case tcp_receive_all LittleEndian (records ToDecoder) (records ToHandler) [] (tcp_start LittleEndian 5)
        [(contents (TCP_serialize LittleEndian m (payload m)), [Delivers 16, Delivers 2000])] of
        Some (Inr (xs, c)) \<Rightarrow> inbox c = [] \<longrightarrow>
          (\<exists>ipc. xs = [ToHandler ipc] \<and> InputMessage_getPayload ipc = replicate 2000 7
             \<and> m_messageID (InputMessage_getHeader LittleEndian ipc) = 0
             \<and> m_requestID (InputMessage_getHeader LittleEndian ipc) = 0)
      | _ \<Rightarrow> False"
proof -
  let ?m = "sample_reply\<lparr>payload := replicate 2000 7\<rparr>"
  have m: "header_ok ?m" "payload ?m = replicate 2000 7" by (simp_all add: sample_reply_def header_ok_def)
  let ?b = "[(contents (TCP_serialize LittleEndian ?m (payload ?m)), [Delivers 16, Delivers 2000])]"
  have b: "concat (map fst ?b) = contents (TCP_serialize LittleEndian ?m (payload ?m))" by simp
  have l: "1004 < length (payload ?m)" "8 + length (payload ?m) < 2 ^ 32" by (simp_all add: m(2))
  have "(5 :: int) \<noteq> UNINITIALIZED_FILE_DESCRIPTOR" by (simp add: UNINITIALIZED_FILE_DESCRIPTOR_def)
  from first_large_message_loses_header [OF this b m(1) l, of LittleEndian]
  show ?thesis unfolding Let_def m(2) .
qed

text \<open>
  C0. Receiving ends: whatever is in the stream, one call of \<open>processIncomingData\<close> on a
  connection that has been set up returns or runs into a fault, if the decoder and the
  handler leave the reader of the header and the state of the socket as they are.
\<close>

theorem tcp_receiving_returns:
  assumes "rb_size (m_headerReader c) \<noteq> 0"
    and "\<forall>f \<in> {decode, handler}. \<forall>l c l' c'. f l c = Inr (l', c') \<longrightarrow>
      recvs c' = recvs c \<and> rb_size (m_headerReader c') = rb_size (m_headerReader c)"
  shows "\<exists>r. processIncomingData h decode handler l c = Some r"
  using assms(1)
proof (induction "tcp_measure c" arbitrary: c l rule: less_induct)
  case less
  show ?case
  proof (cases "reader_isComplete (m_headerReader c)")
    case False
    let ?c = "TCP_readHeaderBytes c"
    have "\<exists>r. processIncomingData h decode handler l c2 = Some r"
      if "reader_isComplete (m_headerReader ?c)" "TCP_readHeader h ?c = Inr c2" for c2
    proof (rule less.hyps)
      note p = TCP_readHeaderBytes_progress [OF False that(1)] TCP_readHeader_keeps [OF that(2)]
      show "tcp_measure c2 < tcp_measure c" using p False by (auto simp: tcp_measure_def)
      show "rb_size (m_headerReader c2) \<noteq> 0" using p less.prems by simp
    qed
    then show ?thesis
      using False by (subst processIncomingData.simps) (auto simp: Let_def split: sum.splits)
  next
    case True
    have "\<exists>r. processIncomingData h decode handler l2 c2 = Some r"
      if "TCP_readPayload c = Inr c1" "TCP_messageComplete h decode handler l c1 = Inr (l2, c2)" for c1 c2 l2
    proof (rule less.hyps)
      note p = TCP_readPayload_keeps [OF that(1)] TCP_messageComplete_keeps [OF that(2) assms(2)]
      show "rb_size (m_headerReader c2) \<noteq> 0" using p less.prems by simp
      then show "tcp_measure c2 < tcp_measure c"
        using p True by (auto simp: tcp_measure_def reader_isComplete_def)
    qed
    then show ?thesis
      using True by (subst processIncomingData.simps) (auto split: sum.splits)
  qed
qed

theorem tcp_receiving_returns_witness:
  "\<exists>r. processIncomingData LittleEndian (records ToDecoder) (records ToHandler) [] (tcp_start LittleEndian 5) = Some r"
  by (rule tcp_receiving_returns)
    (auto simp: records_def tcp_start_def TCPClient_init_def TCPConnection_new_def setupConnection_def setBuffer_def
      SOMEIP_HEADER_LENGTH_ON_NETWORK_def UNINITIALIZED_FILE_DESCRIPTOR_def)

text \<open>
  C0. The answer to a request finds the client that sent the request: a request is sent with
  the client in the upper half of its request number; when an answer with that number comes
  back, whatever its payload, it is handed over with the number of that client and with the
  request number the client had given, its low 16 bits.
\<close>

theorem answer_finds_client:
  fixes request answer :: Message
  assumes "isConnected c" and "sends c = [Accepts n]" and "16 + length (payload request) \<le> n"
    and "isRequestWithReturn request" and "m_requestID request < 0x10000"
    and "m_requestID answer = m_requestID (tagClientIdentifier request (m_clientIdentifier request))"
    and "isReply answer" and "header_ok answer" and "length (payload answer) \<le> 1004"
    and "m_messageID answer \<noteq> SERVICE_DISCOVERY_MEMBER_ID" and "fd \<noteq> UNINITIALIZED_FILE_DESCRIPTOR"
  shows "(case TCP_sendMessage h request c of
      Inl _ \<Rightarrow> False
    | Inr (code, c') \<Rightarrow> code = RC_OK \<and> wire c' = wire c
        @ contents (TCP_serialize h (tagClientIdentifier request (m_clientIdentifier request)) (payload request)))
    \<and> (case tcp_receive_all h (records ToDecoder) (records ToHandler) [] (tcp_start h fd)
        [(contents (TCP_serialize h' answer (payload answer)), outcomes)] of
      Some (Inr (xs, c)) \<Rightarrow> inbox c = [] \<longrightarrow>
        (\<exists>ipc. xs = [ToHandler ipc] \<and> InputMessage_getPayload ipc = payload answer
           \<and> m_clientIdentifier (InputMessage_getHeader h ipc) = m_clientIdentifier request
           \<and> m_requestID (InputMessage_getHeader h ipc) = m_requestID request)
    | _ \<Rightarrow> False)"
proof
  let ?t = "tagClientIdentifier request (m_clientIdentifier request)"
  have "length (tcp_bytes ?t (payload request)) \<le> n"
    using assms(3) by (simp add: tcp_bytes_def SOMEIP_HEADER_LENGTH_ON_NETWORK_def sizeof_SomeIPHeader_def)
  with assms(1,2) have "writeBytesNonBlocking c (tcp_bytes ?t (payload request))
      = Inr (IPC_OK, (increaseWrittenBytesCounter c (length (tcp_bytes ?t (payload request))))
          \<lparr>wire := wire c @ tcp_bytes ?t (payload request), sends := []\<rparr>)"
    by (simp add: writeBytesNonBlocking_def isConnected_def socket_send_def increaseWrittenBytesCounter_def Let_def)
  then show "case TCP_sendMessage h request c of
      Inl _ \<Rightarrow> False
    | Inr (code, c') \<Rightarrow> code = RC_OK \<and> wire c' = wire c @ contents (TCP_serialize h ?t (payload request))"
    using assms(1,4) by (simp add: TCP_sendMessage_def TCP_sendBytes_eq contents_TCP_serialize bindE_def Let_def)
next
  let ?xs = "tcp_receive_all h (records ToDecoder) (records ToHandler) [] (tcp_start h fd)
        [(contents (TCP_serialize h' answer (payload answer)), outcomes)]"
  have "tcp_brings h (MyInputMessage_new h) (concat (map fst [(contents (TCP_serialize h' answer (payload answer)), outcomes)]) @ []) [answer]"
    using tcp_brings_small [of "[answer]" h] assms(8,9) by (simp add: contents_TCP_serialize tcp_frame_def tcp_message_ok_def)
  note start = tcp_receive_from_start [OF assms(11) this]
  have s: "InputMessage_getPayload ipc = payload answer \<and> m_requestID (InputMessage_getHeader h ipc) = m_requestID request"
    if "shown h ipc (payload answer) (SomeIPHeader.truncate (tagClientIdentifier answer 0))" for ipc
    using that untag_same [OF assms(5,6)]
    by (auto simp: shown_def message_view_payload InputMessage_getHeader_def message_view_header_at
        SomeIPHeader.defs MessageHeader.defs)
  have e: "extractClientIdentifier answer = m_clientIdentifier request"
    using assms(6) extract_tag [of request] by (simp add: extractClientIdentifier_def)
  have "\<exists>ipc. x = ToHandler ipc \<and> shown h ipc (payload answer) (SomeIPHeader.truncate (tagClientIdentifier answer 0))
      \<and> m_clientIdentifier (InputMessage_getHeader h ipc) = m_clientIdentifier request" if "passed_on h answer x" for x
    using that assms(7,10) e by (cases x) auto
  then show "case ?xs of Some (Inr (xs, c)) \<Rightarrow> inbox c = [] \<longrightarrow>
        (\<exists>ipc. xs = [ToHandler ipc] \<and> InputMessage_getPayload ipc = payload answer
           \<and> m_clientIdentifier (InputMessage_getHeader h ipc) = m_clientIdentifier request
           \<and> m_requestID (InputMessage_getHeader h ipc) = m_requestID request)
    | _ \<Rightarrow> False"
    using start s by (fastforce simp: list_all2_Cons1 split: option.splits sum.splits)
qed

definition sample_request :: Message where
  "sample_request = \<lparr>m_messageID = 0x12345678, m_requestID = 0x1001, m_protocolVersion = 1, m_interfaceVersion = 0,
     m_messageType = REQUEST, m_returnCode = E_OK, m_clientIdentifier = 5, m_instanceID = 0, payload = [9]\<rparr>"

theorem answer_finds_client_witness:
  "case tcp_receive_all BigEndian (records ToDecoder) (records ToHandler) [] (tcp_start BigEndian 5)
      [(contents (TCP_serialize LittleEndian sample_reply (payload sample_reply)), [Delivers 16, Delivers 2])] of
      Some (Inr (xs, c)) \<Rightarrow> inbox c = [] \<longrightarrow>
        (\<exists>ipc. xs = [ToHandler ipc] \<and> InputMessage_getPayload ipc = payload sample_reply
           \<and> m_clientIdentifier (InputMessage_getHeader BigEndian ipc) = m_clientIdentifier sample_request
           \<and> m_requestID (InputMessage_getHeader BigEndian ipc) = m_requestID sample_request)
    | _ \<Rightarrow> False"
proof -
  let ?c = "(tcp_start BigEndian 5)\<lparr>sends := [Accepts 17]\<rparr>"
  have "isConnected ?c"
    by (simp add: tcp_start_def TCPClient_init_def TCPConnection_new_def setupConnection_def isConnected_def UNINITIALIZED_FILE_DESCRIPTOR_def)
  moreover have "m_requestID sample_reply = m_requestID (tagClientIdentifier sample_request (m_clientIdentifier sample_request))"
    by (simp add: sample_reply_def sample_request_def tagClientIdentifier_def setRequestID_def)
  moreover have "16 + length (payload sample_request) \<le> 17" "isRequestWithReturn sample_request" "m_requestID sample_request < 0x10000"
    "isReply sample_reply" "header_ok sample_reply" "length (payload sample_reply) \<le> 1004"
    "m_messageID sample_reply \<noteq> SERVICE_DISCOVERY_MEMBER_ID" "(5 :: int) \<noteq> UNINITIALIZED_FILE_DESCRIPTOR"
    by (simp_all add: sample_reply_def sample_request_def isRequestWithReturn_def isReply_def header_ok_def
        SERVICE_DISCOVERY_MEMBER_ID_def getMessageID_def SERVICE_ID_BITS_COUNT_def UNINITIALIZED_FILE_DESCRIPTOR_def)
  ultimately show ?thesis
    using answer_finds_client [of ?c 17 sample_request sample_reply 5 BigEndian LittleEndian "[Delivers 16, Delivers 2]"]
    by (simp del: tcp_receive_all.simps)
qed

text \<open>
  C0. A length field of less than 8 makes the reader of the payload wait for about
  \<open>2 ^ 64\<close> bytes, which it writes behind the header: once a peer has sent 1005 more bytes on
  a new connection, the receiving code writes outside the message.
\<close>

theorem short_tcp_length_overflows:
  assumes "fd \<noteq> UNINITIALIZED_FILE_DESCRIPTOR" and "header_ok hdr" and "len < 8"
    and "1004 < length junk" and "length junk < 2 ^ 63"
  shows "processIncomingData h decode handler l ((tcp_start h fd)\<lparr>inbox := header_code hdr len @ junk,
      recvs := [Delivers 16, Delivers (length junk)]\<rparr>) = Some (Inl OutOfBounds)"
proof -
  let ?c = "(tcp_start h fd)\<lparr>inbox := header_code hdr len @ junk, recvs := [Delivers 16, Delivers (length junk)]\<rparr>"
  let ?c1 = "(tcp_start h fd)\<lparr>inbox := junk, recvs := [Delivers (length junk)], m_headerBytes := header_code hdr len,
      m_headerReader := \<lparr>rb_receivedBytesCount = 16, rb_size = 16\<rparr>\<rparr>"
  have c1: "\<not> reader_isComplete (m_headerReader ?c)" "TCP_readHeaderBytes ?c = ?c1"
    using assms(1)
    by (simp_all add: tcp_start_def TCPClient_init_def TCPConnection_new_def setupConnection_def setBuffer_def reader_isComplete_def
        SOMEIP_HEADER_LENGTH_ON_NETWORK_def sizeof_SomeIPHeader_def TCP_readHeaderBytes_def IPCBufferReader_read_def
        socket_recv_def memcpy_at_def flip: length_greater_0_conv)
  have cur: "m_currentIncomingMessage ?c1 = MyInputMessage_new h"
    using assms(1) by (simp add: tcp_start_def TCPClient_init_def TCPConnection_new_def setupConnection_def)
  obtain msg n where r: "TCP_readHeader h ?c1 = Inr (?c1\<lparr>m_currentIncomingMessage := msg, m_payloadReader := setBuffer n\<rparr>)"
    "length (getData (m_payload msg)) = 1024" "2 ^ 63 \<le> n"
    using short_header_entered [OF assms(2,3) cur] by auto
  have p: "TCP_readPayload (?c1\<lparr>m_currentIncomingMessage := msg, m_payloadReader := setBuffer n\<rparr>) = Inl OutOfBounds"
    using r(2,3) assms(4,5)
    by (auto simp: TCP_readPayload_def IPCBufferReader_read_def socket_recv_def setBuffer_def tcp_header_size_def
        sizeof_IPCMessageHeader_def sizeof_MessageHeader_def Let_def)
  have "processIncomingData h decode handler l (?c1\<lparr>m_currentIncomingMessage := msg, m_payloadReader := setBuffer n\<rparr>)
      = Some (Inl OutOfBounds)"
    using p by (subst processIncomingData.simps) (simp add: reader_isComplete_def)
  moreover have "reader_isComplete (m_headerReader ?c1)" by (simp add: reader_isComplete_def)
  ultimately show ?thesis
    using c1 r(1) by (subst processIncomingData.simps) (simp add: Let_def)
qed

theorem short_tcp_length_overflows_witness:
  "processIncomingData LittleEndian (records ToDecoder) (records ToHandler) []
     ((tcp_start LittleEndian 5)\<lparr>inbox := header_code sample_reply 7 @ replicate 1005 0,
        recvs := [Delivers 16, Delivers (length (replicate 1005 (0 :: u8)))]\<rparr>) = Some (Inl OutOfBounds)"
  by (rule short_tcp_length_overflows)
    (simp_all add: sample_reply_def header_ok_def UNINITIALIZED_FILE_DESCRIPTOR_def)

text \<open>
  C0. A restart of another host is noticed by the session numbers of its multicast messages.
  While the host runs, no message counts as a restart, however many there are and also when
  the numbers wrap around. The first message after a restart does, unless the last one before
  it carried the session number 1, which only the first message and every 65535th after it do.
\<close>

theorem reboot_detection:
  "detections (new_messages SessionCounters_init (replicate n True) @ new_messages SessionCounters_init (replicate (Suc k) True))
     (RebootInformation_new, unicastInfo)
   = replicate n False @ (n \<noteq> 0 \<and> (n - 1) mod 65535 \<noteq> 0) # replicate k False"
proof -
  have init: "SessionCounters_init = counters_at 0 0"
    by (simp add: counters_at_def SessionCounters_init_def session_id_def)
  obtain msg where msg: "ServiceDiscoveryMessage_new (counters_at 0 0) True = (counters_at 0 1, msg)"
    "session_of msg = (1, True)"
    using ServiceDiscoveryMessage_new_at [of 0 0 True] by (auto simp: session_id_def)
  have up: "(last_session n)\<lparr>m_lastReceivedSessionID := 1\<rparr> = \<lparr>m_lastReceivedSessionID = 1\<rparr>"
    by (simp add: last_session_def)
  have one: "last_session 1 = \<lparr>m_lastReceivedSessionID = 1\<rparr>" by (simp add: last_session_def session_id_def)
  have "detections (new_messages (counters_at 0 0) (replicate (Suc k) True)) (last_session n, unicastInfo)
      = (1 < m_lastReceivedSessionID (last_session n)) # replicate k False"
    using msg detections_running [of 0 1 k unicastInfo] one
    by (simp add: detectReboot_def updateAndTestReboot_def session_of_def up)
  moreover have "RebootInformation_new = last_session 0" by (simp add: RebootInformation_new_def last_session_def)
  moreover have "1 < m_lastReceivedSessionID (last_session n) \<longleftrightarrow> n \<noteq> 0 \<and> (n - 1) mod 65535 \<noteq> 0"
    using unat_session_id [of "n - 1"]
    by (auto simp: last_session_def word_less_nat_alt unsigned_ucast_eq take_bit_nat_eq_self)
  ultimately show ?thesis
    using detections_running [of 0 0 n unicastInfo] by (simp add: init detections_append del: replicate.simps)
qed

end
