(* ===== verification/TCP_Manager.thy ===== *)
theory TCP_Manager
  imports TCP_Stream Dispatcher_Routing
begin

text \<open>
  The daemon's side of the network: \<open>TCPServer\<close> (\<open>lib/TCPServer.h\<close>, \<open>lib/TCPServer.cpp\<close>), the
  part of \<open>TCPClient\<close> that talks to the dispatcher (\<open>lib/TCPClient.h\<close>, \<open>lib/TCPClient.cpp\<close>),
  \<open>TCPManager\<close> (\<open>lib/TCPManager.h\<close>, \<open>lib/TCPManager.cpp\<close>), \<open>ServiceAnnouncer\<close>
  (\<open>lib/ServiceAnnouncer.h\<close>, \<open>lib/ServiceAnnouncer.cpp\<close>) and \<open>RemoteServiceListener\<close>
  (\<open>lib/RemoteServiceListener.h\<close>, \<open>lib/RemoteServiceListener.cpp\<close>). Servers and clients are
  numbered objects, the clients with the numbers they have in the dispatcher.
\<close>

section \<open>Servers\<close>

text \<open>
  The answers of the system when sockets are set up; a port that has been bound is not free
  any more.
\<close>

record Network =
  canSocket :: bool
  portFree :: "u16 \<Rightarrow> bool"
  canListen :: bool
  allIPAddresses :: "IPV4Address list"
  canMulticast :: "IPV4Address \<Rightarrow> bool"

record TCPServer =
  m_activePorts :: "IPv4TCPEndPoint list"
  srv_port :: u16
  srv_instanceNamespace :: "ServiceID \<Rightarrow> nat option"
  srv_listening :: bool

definition TCPServer_new :: "u16 \<Rightarrow> TCPServer" where
  "TCPServer_new port = \<lparr>m_activePorts = [], srv_port = port, srv_instanceNamespace = (\<lambda>_. None), srv_listening = False\<rparr>"

text \<open>The loop of \<open>init\<close> that looks for a port: \<open>m_port\<close> is a \<open>uint16_t\<close>.\<close>

fun bind_loop :: "(u16 \<Rightarrow> bool) \<Rightarrow> nat \<Rightarrow> u16 \<Rightarrow> bool \<times> u16" where
  "bind_loop free 0 port = (False, port)"
| "bind_loop free (Suc n) port = (if \<not> free port then bind_loop free n (port + 1) else (True, port))"

definition TCPServer_init :: "Network \<Rightarrow> nat \<Rightarrow> TCPServer \<Rightarrow> SomeIPReturnCode \<times> Network \<times> TCPServer" where
  "TCPServer_init net portCount srv =
     (if \<not> canSocket net then (RC_ERROR, net, srv)
      else let (bindSuccessful, port) = bind_loop (portFree net) portCount (srv_port srv);
               srv = srv\<lparr>srv_port := port\<rparr>
           in if bindSuccessful
              then let net = net\<lparr>portFree := (portFree net)(port := False)\<rparr>
                   in if \<not> canListen net then (RC_ERROR, net, srv)
                      else (RC_OK, net, srv\<lparr>srv_listening := True, m_activePorts := m_activePorts srv
                              @ map (\<lambda>address. \<lparr>ep_address = address, ep_port = port\<rparr>) (allIPAddresses net)\<rparr>)
              else (RC_ERROR, net, srv))"

definition isBlackListed :: "TCPServer \<Rightarrow> IPv4TCPEndPoint \<Rightarrow> bool" where
  "isBlackListed srv server = list_ex (\<lambda>localAddress. IPv4TCPEndPoint_eq localAddress server) (m_activePorts srv)"

definition TCPServer_isServiceRegistered :: "Dispatcher \<Rightarrow> TCPServer \<Rightarrow> nat \<Rightarrow> bool" where
  "TCPServer_isServiceRegistered d srv s =
     (case srv_instanceNamespace srv (serviceID (getServiceIDs d s)) of
        None \<Rightarrow> False
      | Some e \<Rightarrow> instanceID (getServiceIDs d e) = instanceID (getServiceIDs d s))"

definition isServiceIDRegistered :: "TCPServer \<Rightarrow> ServiceID \<Rightarrow> bool" where
  "isServiceIDRegistered srv sid = (srv_instanceNamespace srv sid \<noteq> None)"

definition addService :: "Dispatcher \<Rightarrow> nat \<Rightarrow> TCPServer \<Rightarrow> TCPServer result" where
  "addService d s srv =
     (let sid = serviceID (getServiceIDs d s)
      in if srv_instanceNamespace srv sid \<noteq> None then Inl AssertFailed
         else Inr (srv\<lparr>srv_instanceNamespace := (srv_instanceNamespace srv)(sid := Some s)\<rparr>))"

definition removeService :: "Dispatcher \<Rightarrow> nat \<Rightarrow> TCPServer \<Rightarrow> TCPServer result" where
  "removeService d s srv =
     (let sid = serviceID (getServiceIDs d s)
      in if srv_instanceNamespace srv sid = None then Inl AssertFailed
         else Inr (srv\<lparr>srv_instanceNamespace := (srv_instanceNamespace srv)(sid := None)\<rparr>))"

section \<open>The manager\<close>

text \<open>
  A client on TCP. The services it may name are those of the server it has connected to, or
  for a remote client its own table, in which a pointer may be null.
\<close>

record TCPClient =
  connection :: TCPConnection
  m_serverIdentifier :: IPv4TCPEndPoint
  ofServer :: "nat option"
  m_ownInstanceNamespace :: "ServiceID \<Rightarrow> nat option option"
  m_rebootInformation :: "RebootInformation \<times> RebootInformation"

text \<open>
  \<open>m_blackList\<close> is the list of filters of the dispatcher, to which only servers are added.
\<close>

record TCPManager =
  tcpClients :: "nat \<Rightarrow> TCPClient"
  m_remoteClients :: "nat list"
  tcpServers :: "nat \<Rightarrow> TCPServer"
  nextServer :: nat
  m_servers :: "nat list"
  m_blackList :: "nat list"
  m_basePort :: u16
  m_portCount :: nat

definition updServer :: "nat \<Rightarrow> TCPServer \<Rightarrow> TCPManager \<Rightarrow> TCPManager" where
  "updServer i srv m = m\<lparr>tcpServers := (tcpServers m)(i := srv)\<rparr>"

definition updTCPClient :: "nat \<Rightarrow> (TCPClient \<Rightarrow> TCPClient) \<Rightarrow> TCPManager \<Rightarrow> TCPManager" where
  "updTCPClient c f m = m\<lparr>tcpClients := (tcpClients m)(c := f (tcpClients m c))\<rparr>"

definition TCPManager_new :: "(nat \<Rightarrow> TCPClient) \<Rightarrow> u16 \<Rightarrow> TCPManager" where
  "TCPManager_new cs port = \<lparr>tcpClients = cs, m_remoteClients = [], tcpServers = (\<lambda>_. TCPServer_new port), nextServer = 0,
     m_servers = [], m_blackList = [], m_basePort = port, m_portCount = 10\<rparr>"

definition getEndPoint :: "Dispatcher \<Rightarrow> nat \<Rightarrow> TCPManager \<Rightarrow> nat option" where
  "getEndPoint d s m = find (\<lambda>i. TCPServer_isServiceRegistered d (tcpServers m i) s) (m_servers m)"

text \<open>The loop keeps the last server that has no service with the identifier.\<close>

definition availableServer :: "Dispatcher \<Rightarrow> nat \<Rightarrow> TCPManager \<Rightarrow> nat option" where
  "availableServer d s m =
     fold (\<lambda>i found. if \<not> isServiceIDRegistered (tcpServers m i) (serviceID (getServiceIDs d s)) then Some i else found)
       (m_servers m) None"

definition bindService ::
    "Dispatcher \<Rightarrow> nat \<Rightarrow> Network \<times> TCPManager \<Rightarrow> (SomeIPReturnCode \<times> Network \<times> TCPManager) result" where
  "bindService d s = (\<lambda>(net, m).
     let (i, net, m) = (case availableServer d s m of
             Some i \<Rightarrow> (i, net, m)
           | None \<Rightarrow>
               let i = nextServer m;
                   (code, net, srv) = TCPServer_init net (m_portCount m) (TCPServer_new (m_basePort m));
                   m = updServer i srv (m\<lparr>nextServer := i + 1, m_blackList := m_blackList m @ [i]\<rparr>)
               in (i, net, if \<not> isError code then m\<lparr>m_servers := m_servers m @ [i]\<rparr> else m))
     in bindE (addService d s (tcpServers m i)) (\<lambda>srv. Inr (RC_OK, net, updServer i srv m)))"

definition TCPManager_onServiceRegistered ::
    "Dispatcher \<Rightarrow> nat \<Rightarrow> Network \<times> TCPManager \<Rightarrow> (Network \<times> TCPManager) result" where
  "TCPManager_onServiceRegistered d s nm =
     (if m_isLocal (services d s) then bindE (bindService d s nm) (\<lambda>(_, nm). Inr nm) else Inr nm)"

definition TCPManager_onServiceUnregistered :: "Dispatcher \<Rightarrow> nat \<Rightarrow> TCPManager \<Rightarrow> TCPManager result" where
  "TCPManager_onServiceUnregistered d s m =
     (if m_isLocal (services d s)
      then case getEndPoint d s m of
             None \<Rightarrow> Inr m
           | Some i \<Rightarrow> bindE (removeService d s (tcpServers m i)) (\<lambda>srv. Inr (updServer i srv m))
      else Inr m)"

section \<open>Clients on TCP and the dispatcher\<close>

text \<open>A new object: \<open>c\<close> is the number it gets, \<open>ping\<close> its ping sender before it is used.\<close>

definition RemoteTCPClient_new :: "endianness \<Rightarrow> IPv4TCPEndPoint \<Rightarrow> int option list \<Rightarrow> TCPClient" where
  "RemoteTCPClient_new h server outcomes =
     \<lparr>connection = (TCPConnection_new h True UNINITIALIZED_FILE_DESCRIPTOR)\<lparr>connects := outcomes\<rparr>,
      m_serverIdentifier = server, ofServer = None, m_ownInstanceNamespace = (\<lambda>_. None),
      m_rebootInformation = (RebootInformation_new, RebootInformation_new)\<rparr>"

definition TCPServer_createNewClientConnection ::
    "endianness \<Rightarrow> PingSender \<Rightarrow> nat \<Rightarrow> nat \<Rightarrow> int \<Rightarrow> TCPManager \<times> Dispatcher \<Rightarrow> (TCPManager \<times> Dispatcher) result" where
  "TCPServer_createNewClientConnection h ping c i fileDescriptor = (\<lambda>(m, d).
     let m = updTCPClient c (\<lambda>_. \<lparr>connection = TCPConnection_new h False fileDescriptor,
               m_serverIdentifier = \<lparr>ep_address = IPV4Address_new, ep_port = 0\<rparr>, ofServer = Some i,
               m_ownInstanceNamespace = (\<lambda>_. None),
               m_rebootInformation = (RebootInformation_new, RebootInformation_new)\<rparr>) m
     in bindE (registerClient c (newClient c ping d)) (\<lambda>d. Inr (m, d)))"

text \<open>\<open>m_instanceNamespace\<close> is a reference.\<close>

definition m_instanceNamespace :: "TCPManager \<Rightarrow> nat \<Rightarrow> ServiceID \<Rightarrow> nat option option" where
  "m_instanceNamespace m c =
     (case ofServer (tcpClients m c) of
        None \<Rightarrow> m_ownInstanceNamespace (tcpClients m c)
      | Some i \<Rightarrow> (\<lambda>sid. map_option Some (srv_instanceNamespace (tcpServers m i) sid)))"

text \<open>The function \<open>setupConnection\<close> gives to \<open>processIncomingData\<close>.\<close>

definition TCPClient_handler :: "timeval \<Rightarrow> TCPManager \<Rightarrow> nat \<Rightarrow> Message \<Rightarrow> Dispatcher \<Rightarrow> Dispatcher result" where
  "TCPClient_handler currentTime m c msg d =
     (case m_instanceNamespace m c (header_getServiceID msg) of
        None \<Rightarrow> Inl AssertFailed
      | Some None \<Rightarrow> Inl NullDereference
      | Some (Some s) \<Rightarrow>
          processIncomingMessage currentTime c (msg\<lparr>m_instanceID := instanceID (getServiceIDs d s)\<rparr>) d)"

definition same_instance :: "Dispatcher \<Rightarrow> nat option option \<Rightarrow> ServiceIDs \<Rightarrow> unit result" where
  "same_instance d entry ids =
     (case entry of
        None \<Rightarrow> Inr ()
      | Some None \<Rightarrow> Inl NullDereference
      | Some (Some e) \<Rightarrow> if instanceID (getServiceIDs d e) = instanceID ids then Inr () else Inl AssertFailed)"

definition TCPClient_onServiceAvailable ::
    "nat \<Rightarrow> ServiceIDs \<Rightarrow> TCPManager \<times> Dispatcher \<Rightarrow> (TCPManager \<times> Dispatcher) result" where
  "TCPClient_onServiceAvailable c ids = (\<lambda>(m, d).
     bindE (Client_registerService c ids False d) (\<lambda>(service, d).
     bindE (same_instance d (m_ownInstanceNamespace (tcpClients m c) (serviceID ids)) ids) (\<lambda>_.
       Inr (updTCPClient c (\<lambda>x. x\<lparr>m_ownInstanceNamespace := (m_ownInstanceNamespace x)(serviceID ids := Some service)\<rparr>) m, d))))"

definition TCPClient_onServiceUnavailable ::
    "nat \<Rightarrow> ServiceIDs \<Rightarrow> TCPManager \<times> Dispatcher \<Rightarrow> (TCPManager \<times> Dispatcher) result" where
  "TCPClient_onServiceUnavailable c ids = (\<lambda>(m, d).
     bindE (Client_unregisterService c ids d) (\<lambda>d.
       Inr (updTCPClient c (\<lambda>x. x\<lparr>m_ownInstanceNamespace := (m_ownInstanceNamespace x)(serviceID ids := None)\<rparr>) m, d)))"

definition TCPClient_onRemoteClientSubscription ::
    "nat \<Rightarrow> EventGroupEntry \<Rightarrow> IPv4ConfigurationOption option \<Rightarrow> Dispatcher \<Rightarrow> Dispatcher result" where
  "TCPClient_onRemoteClientSubscription c serviceEntry address d =
     (if address \<noteq> None then Inl AssertFailed
      else subscribeToNotification c
             (MemberIDs_new (m_serviceID serviceEntry) (m_entryInstanceID serviceEntry) (m_eventGroupID serviceEntry)) d)"

text \<open>\<open>disconnect\<close> calls \<open>onDisconnected\<close>, which unregisters the client.\<close>

definition TCPClient_disconnect :: "nat \<Rightarrow> TCPManager \<times> Dispatcher \<Rightarrow> (TCPManager \<times> Dispatcher) result" where
  "TCPClient_disconnect c = (\<lambda>(m, d).
     if isConnected (connection (tcpClients m c))
     then bindE (unregisterClient c d) (\<lambda>d.
            Inr (updTCPClient c (\<lambda>x. x\<lparr>connection := disconnect (connection x)\<rparr>) m, d))
     else Inr (m, d))"

text \<open>
  \<open>onNotificationSubscribed\<close> tells the other host. Only remote clients provide services, so
  the table is the client's own. \<open>uninitialised\<close> is what the entry has in its reserved field.
\<close>

definition TCPClient_onNotificationSubscribed ::
    "endianness \<Rightarrow> u16 \<Rightarrow> Dispatcher \<Rightarrow> nat \<Rightarrow> MemberID \<Rightarrow> SessionCounters \<times> TCPClient
     \<Rightarrow> (SessionCounters \<times> TCPClient) result" where
  "TCPClient_onNotificationSubscribed h uninitialised d s memberID = (\<lambda>(counters, x).
     let ids = getServiceIDs d s
     in bindE (same_instance d (m_ownInstanceNamespace x (serviceID ids)) ids) (\<lambda>_.
        let x = x\<lparr>m_ownInstanceNamespace := (m_ownInstanceNamespace x)(serviceID ids := Some (Some s))\<rparr>;
            c = connection x;
            c = (if \<not> isConnected c then snd (TCPClient_connect c) else c);
            (counters, msg) = ServiceDiscoveryMessage_new counters True;
            msg = addEntry msg (EventGroupEntryV (SubscribeNotificationEntry uninitialised ids memberID));
            byteArray = SD_serialize h msg ByteArray_new
        in bindE (writeBytesNonBlocking c (take (ba_size byteArray) (getData byteArray))) (\<lambda>(_, c).
             Inr (counters, x\<lparr>connection := c\<rparr>))))"

section \<open>Services of other hosts\<close>

definition getOrCreateClient ::
    "endianness \<Rightarrow> PingSender \<Rightarrow> nat \<Rightarrow> int option list \<Rightarrow> IPv4TCPEndPoint \<Rightarrow> TCPManager \<times> Dispatcher
     \<Rightarrow> (nat \<times> TCPManager \<times> Dispatcher) result" where
  "getOrCreateClient h ping new outcomes server = (\<lambda>(m, d).
     case fold (\<lambda>c found. if IPv4TCPEndPoint_eq server (m_serverIdentifier (tcpClients m c)) then Some c else found)
            (m_remoteClients m) None of
       Some c \<Rightarrow> Inr (c, m, d)
     | None \<Rightarrow>
         let m = updTCPClient new (\<lambda>_. RemoteTCPClient_new h server outcomes) m;
             m = m\<lparr>m_remoteClients := m_remoteClients m @ [new]\<rparr>
         in bindE (registerClient new (newClient new ping d)) (\<lambda>d. Inr (new, m, d)))"

definition onClientReboot :: "nat \<Rightarrow> TCPManager \<times> Dispatcher \<Rightarrow> (TCPManager \<times> Dispatcher) result" where
  "onClientReboot c md =
     bindE (TCPClient_disconnect c md) (\<lambda>(m, d).
     bindE (unregisterClient c d) (\<lambda>d.
       Inr (m\<lparr>m_remoteClients := removeFromVector (m_remoteClients m) c\<rparr>, d)))"

definition TCPClient_detectReboot :: "ServiceDiscoveryMessage \<Rightarrow> nat \<Rightarrow> TCPManager \<Rightarrow> bool \<times> TCPManager" where
  "TCPClient_detectReboot message c m =
     (let (b, info) = detectReboot message True (m_rebootInformation (tcpClients m c))
      in (b, updTCPClient c (\<lambda>x. x\<lparr>m_rebootInformation := info\<rparr>) m))"

text \<open>
  At most one client is created by a call, since a new one does not detect a restart; \<open>new\<close>
  is its number.
\<close>

definition TCPManager_onRemoteServiceAvailable ::
    "endianness \<Rightarrow> PingSender \<Rightarrow> nat \<Rightarrow> int option list \<Rightarrow> ServiceEntry \<Rightarrow> IPv4ConfigurationOption \<Rightarrow> ServiceDiscoveryMessage
     \<Rightarrow> TCPManager \<times> Dispatcher \<Rightarrow> (TCPManager \<times> Dispatcher) result" where
  "TCPManager_onRemoteServiceAvailable h ping new outcomes serviceEntry address message = (\<lambda>(m, d).
     let server = \<lparr>ep_address = m_address address, ep_port = m_port address\<rparr>;
         ids = ServiceIDs_new (m_serviceID serviceEntry) (m_entryInstanceID serviceEntry)
     in if list_ex (\<lambda>i. isBlackListed (tcpServers m i) server) (m_blackList m) then Inr (m, d)
        else bindE (getOrCreateClient h ping new outcomes server (m, d)) (\<lambda>(c, m, d).
             let (hasRebooted, m) = TCPClient_detectReboot message c m
             in if hasRebooted
                then bindE (onClientReboot c (m, d)) (\<lambda>(m, d).
                     bindE (getOrCreateClient h ping new outcomes server (m, d)) (\<lambda>(c, m, d).
                       TCPClient_onServiceAvailable c ids (m, d)))
                else TCPClient_onServiceAvailable c ids (m, d)))"

definition TCPManager_onRemoteServiceUnavailable ::
    "endianness \<Rightarrow> PingSender \<Rightarrow> nat \<Rightarrow> int option list \<Rightarrow> ServiceEntry \<Rightarrow> IPv4ConfigurationOption \<Rightarrow> ServiceDiscoveryMessage
     \<Rightarrow> TCPManager \<times> Dispatcher \<Rightarrow> (TCPManager \<times> Dispatcher) result" where
  "TCPManager_onRemoteServiceUnavailable h ping new outcomes serviceEntry address message = (\<lambda>(m, d).
     let server = \<lparr>ep_address = m_address address, ep_port = m_port address\<rparr>;
         ids = ServiceIDs_new (m_serviceID serviceEntry) (m_entryInstanceID serviceEntry)
     in if list_ex (\<lambda>i. isBlackListed (tcpServers m i) server) (m_blackList m) then Inr (m, d)
        else bindE (getOrCreateClient h ping new outcomes server (m, d)) (\<lambda>(c, m, d).
             let (hasRebooted, m) = TCPClient_detectReboot message c m
             in if hasRebooted then onClientReboot c (m, d)
                else TCPClient_onServiceUnavailable c ids (m, d)))"

text \<open>The listener functions of a \<open>TCPClient\<close>, called by its discovery decoder.\<close>

fun TCPClient_onDiscovery ::
    "endianness \<Rightarrow> PingSender \<Rightarrow> nat \<Rightarrow> int option list \<Rightarrow> nat \<Rightarrow> DiscoveryEvent \<Rightarrow> TCPManager \<times> Dispatcher
     \<Rightarrow> (TCPManager \<times> Dispatcher) result" where
  "TCPClient_onDiscovery h ping new outcomes c (onRemoteClientSubscription e address) md =
     bindE (TCPClient_onRemoteClientSubscription c e address (snd md)) (\<lambda>d. Inr (fst md, d))"
| "TCPClient_onDiscovery h ping new outcomes c (onRemoteClientSubscriptionFinished e address) md = Inr md"
| "TCPClient_onDiscovery h ping new outcomes c (onRemoteServiceAvailable e address message) md =
     TCPManager_onRemoteServiceAvailable h ping new outcomes e address message md"
| "TCPClient_onDiscovery h ping new outcomes c (onRemoteServiceUnavailable e address message) md =
     TCPManager_onRemoteServiceUnavailable h ping new outcomes e address message md"
| "TCPClient_onDiscovery h ping new outcomes c (onFindServiceRequested e message) md = Inr md"

section \<open>The announcer\<close>

text \<open>
  A channel is a socket for the multicasts of one interface, known by the address of the
  interface. \<open>datagrams\<close> are those handed to \<open>sendto\<close>, \<open>counters\<close> the static members of the
  class of discovery messages.
\<close>

record ServiceAnnouncer =
  m_channels :: "IPV4Address list"
  datagrams :: "(IPV4Address \<times> u8 list) list"
  counters :: SessionCounters

definition ServiceAnnouncer_sendMessage ::
    "endianness \<Rightarrow> ServiceDiscoveryMessage \<Rightarrow> IPV4Address \<Rightarrow> ServiceAnnouncer \<Rightarrow> ServiceAnnouncer" where
  "ServiceAnnouncer_sendMessage h msg channel a =
     (let byteArray = SD_serialize h msg ByteArray_new
      in a\<lparr>datagrams := datagrams a @ [(channel, take (ba_size byteArray) (getData byteArray))]\<rparr>)"

definition ServiceAnnouncer_onServiceRegistered ::
    "endianness \<Rightarrow> Dispatcher \<Rightarrow> TCPManager \<Rightarrow> nat \<Rightarrow> ServiceAnnouncer \<Rightarrow> ServiceAnnouncer" where
  "ServiceAnnouncer_onServiceRegistered h d m s a =
     (case getEndPoint d s m of
        None \<Rightarrow> a
      | Some server \<Rightarrow>
          fold (\<lambda>channel. fold (\<lambda>ipAddress a.
            if IPV4Address_eq channel (ep_address ipAddress)
            then let (st, msg) = ServiceDiscoveryMessage_new (counters a) True;
                     (serviceEntry, msg) = ServiceOfferedEntry msg (getServiceIDs d s) TCP (ep_address ipAddress) (ep_port ipAddress)
                 in ServiceAnnouncer_sendMessage h (addEntry msg (ServiceEntryV serviceEntry)) channel (a\<lparr>counters := st\<rparr>)
            else a) (m_activePorts (tcpServers m server))) (m_channels a) a)"

definition ServiceAnnouncer_onServiceUnregistered ::
    "endianness \<Rightarrow> Dispatcher \<Rightarrow> TCPManager \<Rightarrow> nat \<Rightarrow> ServiceAnnouncer \<Rightarrow> ServiceAnnouncer" where
  "ServiceAnnouncer_onServiceUnregistered h d m s a =
     (case getEndPoint d s m of
        None \<Rightarrow> a
      | Some server \<Rightarrow>
          fold (\<lambda>channel. fold (\<lambda>ipAddress a.
            if IPV4Address_eq channel (ep_address ipAddress)
            then let (st, msg) = ServiceDiscoveryMessage_new (counters a) True;
                     (serviceEntry, msg) = ServiceUnregisteredEntry msg (getServiceIDs d s) TCP (ep_address ipAddress) (ep_port ipAddress)
                 in ServiceAnnouncer_sendMessage h (addEntry msg (ServiceEntryV serviceEntry)) channel (a\<lparr>counters := st\<rparr>)
            else a) (m_activePorts (tcpServers m server))) (m_channels a) a)"

definition announceServices :: "endianness \<Rightarrow> Dispatcher \<Rightarrow> TCPManager \<Rightarrow> ServiceAnnouncer \<Rightarrow> ServiceAnnouncer" where
  "announceServices h d m a =
     fold (\<lambda>s a. if m_isLocal (services d s) then ServiceAnnouncer_onServiceRegistered h d m s a else a) (m_services d) a"

text \<open>\<open>init\<close>: opens the channels and asks on each for the services of the other hosts.\<close>

fun ServiceAnnouncer_init :: "endianness \<Rightarrow> Network \<Rightarrow> IPV4Address list \<Rightarrow> ServiceAnnouncer \<Rightarrow> SomeIPReturnCode \<times> ServiceAnnouncer" where
  "ServiceAnnouncer_init h net [] a = (RC_OK, a)"
| "ServiceAnnouncer_init h net (address # interfaces) a =
     (if \<not> canSocket net then (RC_ERROR, a)
      else if \<not> canMulticast net address then ServiceAnnouncer_init h net interfaces a
      else let (st, msg) = ServiceDiscoveryMessage_new (counters a) True;
               msg = addEntry msg (ServiceEntryV (ServiceQueryEntry 0xFFFF));
               a = ServiceAnnouncer_sendMessage h msg address (a\<lparr>counters := st\<rparr>)
           in ServiceAnnouncer_init h net interfaces (a\<lparr>m_channels := m_channels a @ [address]\<rparr>))"

section \<open>The listener for other hosts\<close>

record Host =
  hostOrder :: endianness
  network :: Network
  dispatcher :: Dispatcher
  tcpManager :: TCPManager
  announcer :: ServiceAnnouncer

text \<open>The listener functions of the \<open>RemoteServiceListener\<close>.\<close>

fun RemoteServiceListener_onDiscovery ::
    "PingSender \<Rightarrow> nat \<Rightarrow> int option list \<Rightarrow> DiscoveryEvent \<Rightarrow> Host \<Rightarrow> Host result" where
  "RemoteServiceListener_onDiscovery ping new outcomes (onFindServiceRequested e message) x =
     Inr (x\<lparr>announcer := announceServices (hostOrder x) (dispatcher x) (tcpManager x) (announcer x)\<rparr>)"
| "RemoteServiceListener_onDiscovery ping new outcomes (onRemoteClientSubscription e address) x =
     (if address = None then Inl NullDereference else Inr x)"
| "RemoteServiceListener_onDiscovery ping new outcomes (onRemoteClientSubscriptionFinished e address) x = Inl AssertFailed"
| "RemoteServiceListener_onDiscovery ping new outcomes (onRemoteServiceAvailable e address message) x =
     bindE (TCPManager_onRemoteServiceAvailable (hostOrder x) ping new outcomes e address message (tcpManager x, dispatcher x))
       (\<lambda>(m, d). Inr (x\<lparr>tcpManager := m, dispatcher := d\<rparr>))"
| "RemoteServiceListener_onDiscovery ping new outcomes (onRemoteServiceUnavailable e address message) x =
     bindE (TCPManager_onRemoteServiceUnavailable (hostOrder x) ping new outcomes e address message (tcpManager x, dispatcher x))
       (\<lambda>(m, d). Inr (x\<lparr>tcpManager := m, dispatcher := d\<rparr>))"

text \<open>
  \<open>handleMessage\<close>: \<open>received\<close> is the datagram \<open>read\<close> returns, \<open>None\<close> if it fails; the result
  -1 is then the new size of the array, which the vector refuses with an exception.
\<close>

definition RemoteServiceListener_handleMessage ::
    "PingSender \<Rightarrow> nat \<Rightarrow> int option list \<Rightarrow> u8 list option \<Rightarrow> Host \<Rightarrow> Host result" where
  "RemoteServiceListener_handleMessage ping new outcomes received x =
     (case received of
        None \<Rightarrow> Inl ExceptionThrown
      | Some datagram \<Rightarrow>
          bindE (decodeMessage (hostOrder x) (take 65536 datagram)) (\<lambda>evs.
            foldE (RemoteServiceListener_onDiscovery ping new outcomes) evs x))"

section \<open>What the dispatcher calls\<close>

text \<open>
  The calls the dispatcher has recorded, carried out on the network's side: listeners for
  services and clients on TCP.
\<close>

fun perform :: "u16 \<Rightarrow> (nat \<Rightarrow> bool) \<Rightarrow> Effect \<Rightarrow> Host \<Rightarrow> Host result" where
  "perform uninitialised onTCP (OnServiceRegistered TCPManagerListener s) x =
     bindE (TCPManager_onServiceRegistered (dispatcher x) s (network x, tcpManager x)) (\<lambda>(net, m).
       Inr (x\<lparr>network := net, tcpManager := m\<rparr>))"
| "perform uninitialised onTCP (OnServiceRegistered ServiceAnnouncerListener s) x =
     Inr (x\<lparr>announcer := ServiceAnnouncer_onServiceRegistered (hostOrder x) (dispatcher x) (tcpManager x) s (announcer x)\<rparr>)"
| "perform uninitialised onTCP (OnServiceUnregistered TCPManagerListener s) x =
     bindE (TCPManager_onServiceUnregistered (dispatcher x) s (tcpManager x)) (\<lambda>m. Inr (x\<lparr>tcpManager := m\<rparr>))"
| "perform uninitialised onTCP (OnServiceUnregistered ServiceAnnouncerListener s) x =
     Inr (x\<lparr>announcer := ServiceAnnouncer_onServiceUnregistered (hostOrder x) (dispatcher x) (tcpManager x) s (announcer x)\<rparr>)"
| "perform uninitialised onTCP (InitClient c) x =
     Inr (if onTCP c then x\<lparr>tcpManager := updTCPClient c (\<lambda>y. y\<lparr>connection := TCPClient_init (connection y)\<rparr>) (tcpManager x)\<rparr> else x)"
| "perform uninitialised onTCP (SendMessage c msg) x =
     (if onTCP c
      then bindE (TCP_sendMessage (hostOrder x) msg (connection (tcpClients (tcpManager x) c))) (\<lambda>(_, k).
             Inr (x\<lparr>tcpManager := updTCPClient c (\<lambda>y. y\<lparr>connection := k\<rparr>) (tcpManager x)\<rparr>))
      else Inr x)"
| "perform uninitialised onTCP (SendOutputMessage c msg) x =
     (if onTCP c
      then bindE (TCP_sendOutputMessage (hostOrder x) msg (connection (tcpClients (tcpManager x) c))) (\<lambda>(_, k).
             Inr (x\<lparr>tcpManager := updTCPClient c (\<lambda>y. y\<lparr>connection := k\<rparr>) (tcpManager x)\<rparr>))
      else Inr x)"
| "perform uninitialised onTCP (OnNotificationSubscribed c s memberID) x =
     (if onTCP c
      then bindE (TCPClient_onNotificationSubscribed (hostOrder x) uninitialised (dispatcher x) s memberID
                    (counters (announcer x), tcpClients (tcpManager x) c)) (\<lambda>(st, y).
             Inr (x\<lparr>tcpManager := updTCPClient c (\<lambda>_. y) (tcpManager x), announcer := (announcer x)\<lparr>counters := st\<rparr>\<rparr>))
      else Inr x)"
| "perform uninitialised onTCP _ x = Inr x"

text \<open>A command of the dispatcher with what follows from it.\<close>

definition host_execute :: "u16 \<Rightarrow> (nat \<Rightarrow> bool) \<Rightarrow> Command \<Rightarrow> Host \<Rightarrow> Host result" where
  "host_execute uninitialised onTCP cmd x =
     bindE (execute cmd ((dispatcher x)\<lparr>effects := []\<rparr>)) (\<lambda>d.
       foldE (perform uninitialised onTCP) (effects d) (x\<lparr>dispatcher := d\<rparr>))"

end
