(* ===== verification/TCP_Manager_Properties.thy ===== *)
theory TCP_Manager_Properties
  imports TCP_Manager Dispatcher_Properties
begin

text \<open>
  What the network side of the daemon guarantees: services of the host are published on one
  port each, offers are learned by other hosts, subscriptions reach the host of the service;
  and where it fails.
\<close>

section \<open>Ports\<close>

lemma bind_loop_True:
  "bind_loop free n p = (True, q) \<Longrightarrow> \<exists>i < n. q = p + of_nat i \<and> free q \<and> (\<forall>j < i. \<not> free (p + of_nat j))"
proof (induction n arbitrary: p)
  case (Suc n)
  show ?case
  proof (cases "free p")
    case True
    with Suc.prems show ?thesis by (intro exI [of _ 0]) simp
  next
    case False
    with Suc obtain i where i: "i < n" "q = p + 1 + of_nat i" "free q" "\<forall>j < i. \<not> free (p + 1 + of_nat j)" by auto
    have "\<not> free (p + of_nat j)" if "j < Suc i" for j
      using that False i(4) by (cases j) (simp_all add: add.assoc)
    with i show ?thesis by (intro exI [of _ "Suc i"]) (simp add: add.assoc)
  qed
qed simp

lemma bind_loop_False: "bind_loop free n p = (False, q) \<Longrightarrow> \<forall>i < n. \<not> free (p + of_nat i)"
proof (induction n arbitrary: p)
  case (Suc n)
  then have "\<not> free p" and ih: "\<forall>i < n. \<not> free (p + 1 + of_nat i)" by (auto split: if_splits)
  then show ?case by (auto simp: less_Suc_eq_0_disj add.assoc)
qed simp

section \<open>Which server publishes a service\<close>

lemma fold_last_found:
  "fold (\<lambda>i found. if P i then Some i else found) xs a = Some i \<Longrightarrow> (i \<in> set xs \<and> P i) \<or> a = Some i"
proof (induction xs arbitrary: a)
  case (Cons x xs)
  from Cons.IH [of "if P x then Some x else a"] Cons.prems show ?case by (auto split: if_splits)
qed simp

lemma availableServer_Some:
  "availableServer d s m = Some i \<Longrightarrow> i \<in> set (m_servers m) \<and> srv_instanceNamespace (tcpServers m i) (serviceID (getServiceIDs d s)) = None"
  unfolding availableServer_def by (drule fold_last_found) (simp add: isServiceIDRegistered_def)

text \<open>
  The servers that are listened on have different ports, and the services in their tables are
  registered services of this host, each under its identifier and with one server only.
\<close>

definition holds :: "TCPManager \<Rightarrow> nat \<Rightarrow> ServiceID \<Rightarrow> nat \<Rightarrow> bool" where
  "holds m i sid s = (i \<in> set (m_servers m) \<and> srv_instanceNamespace (tcpServers m i) sid = Some s)"

definition manager_ok :: "Network \<Rightarrow> Dispatcher \<Rightarrow> TCPManager \<Rightarrow> bool" where
  "manager_ok net d m =
     (distinct (map (\<lambda>i. srv_port (tcpServers m i)) (m_servers m))
      \<and> (\<forall>i \<in> set (m_servers m). i < nextServer m \<and> srv_listening (tcpServers m i) \<and> \<not> portFree net (srv_port (tcpServers m i)))
      \<and> (\<forall>i sid s. holds m i sid s \<longrightarrow> s \<in> set (m_services d) \<and> m_isLocal (services d s) \<and> serviceID (getServiceIDs d s) = sid)
      \<and> (\<forall>i j sid s. holds m i sid s \<and> holds m j sid s \<longrightarrow> i = j))"

lemma manager_okD:
  assumes "manager_ok net d m"
  shows "distinct (map (\<lambda>i. srv_port (tcpServers m i)) (m_servers m))"
    and "i \<in> set (m_servers m) \<Longrightarrow> i < nextServer m \<and> srv_listening (tcpServers m i) \<and> \<not> portFree net (srv_port (tcpServers m i))"
    and "holds m i sid s \<Longrightarrow> s \<in> set (m_services d) \<and> m_isLocal (services d s) \<and> serviceID (getServiceIDs d s) = sid"
    and "holds m i sid s \<Longrightarrow> holds m j sid s \<Longrightarrow> i = j"
  using assms unfolding manager_ok_def by (blast, blast, blast, blast)

lemma manager_ok_more_services:
  assumes "manager_ok net d m" and "set (m_services d) \<subseteq> set (m_services d')"
    and "\<And>s. s \<in> set (m_services d) \<Longrightarrow> m_isLocal (services d' s) = m_isLocal (services d s) \<and> getServiceIDs d' s = getServiceIDs d s"
  shows "manager_ok net d' m"
proof -
  have "\<forall>i sid s. holds m i sid s \<longrightarrow>
      s \<in> set (m_services d') \<and> m_isLocal (services d' s) \<and> serviceID (getServiceIDs d' s) = sid"
    using manager_okD(3) [OF assms(1)] assms(2,3) by (metis subsetD)
  with assms(1) show ?thesis by (simp add: manager_ok_def)
qed

lemma manager_ok_shrink:
  assumes "manager_ok net d m" and "m_servers m' = m_servers m" and "nextServer m' = nextServer m"
    and "\<And>i. i \<in> set (m_servers m) \<Longrightarrow> srv_port (tcpServers m' i) = srv_port (tcpServers m i)
      \<and> srv_listening (tcpServers m' i) = srv_listening (tcpServers m i)"
    and "\<And>i sid s. holds m' i sid s \<Longrightarrow> holds m i sid s \<and> s \<in> set (m_services d')" and "services d' = services d"
  shows "manager_ok net d' m'"
proof -
  have ids: "getServiceIDs d' = getServiceIDs d" using assms(6) by (simp add: getServiceIDs_def fun_eq_iff)
  have "map (\<lambda>j. srv_port (tcpServers m' j)) (m_servers m') = map (\<lambda>j. srv_port (tcpServers m j)) (m_servers m)"
    using assms(2,4) by simp
  moreover have "\<forall>i \<in> set (m_servers m'). i < nextServer m' \<and> srv_listening (tcpServers m' i) \<and> \<not> portFree net (srv_port (tcpServers m' i))"
    using manager_okD(2) [OF assms(1)] assms(2,3,4) by simp
  moreover have "\<forall>i sid s. holds m' i sid s \<longrightarrow> s \<in> set (m_services d') \<and> m_isLocal (services d' s) \<and> serviceID (getServiceIDs d' s) = sid"
    using manager_okD(3) [OF assms(1)] assms(5,6) ids by metis
  moreover have "\<forall>j k sid e. holds m' j sid e \<and> holds m' k sid e \<longrightarrow> j = k"
    using manager_okD(4) [OF assms(1)] assms(5) by metis
  ultimately show ?thesis using manager_okD(1) [OF assms(1)] by (simp add: manager_ok_def del: not_all not_ex)
qed

lemma manager_ok_unlisted:
  assumes "manager_ok net d m" and "n \<notin> set (m_servers m)"
  shows "manager_ok net d (updServer n srv m)"
proof (rule manager_ok_shrink [OF assms(1)], goal_cases)
  case (3 i)
  with assms(2) show ?case by (auto simp: updServer_def)
next
  case (4 i sid e)
  then have "holds m i sid e" using assms(2) by (auto simp: holds_def updServer_def split: if_splits)
  with manager_okD(3) [OF assms(1)] show ?case by metis
qed (simp_all add: updServer_def)

lemma manager_ok_put:
  assumes "manager_ok net d m" and "i \<in> set (m_servers m)"
    and "srv_instanceNamespace (tcpServers m i) (serviceID (getServiceIDs d s)) = None"
    and "s \<in> set (m_services d)" and "m_isLocal (services d s)" and "\<And>j sid. \<not> holds m j sid s"
  defines "m' \<equiv> updServer i ((tcpServers m i)\<lparr>srv_instanceNamespace :=
      (srv_instanceNamespace (tcpServers m i))(serviceID (getServiceIDs d s) := Some s)\<rparr>) m"
  shows "manager_ok net d m'" and "holds m' i (serviceID (getServiceIDs d s)) s"
proof -
  have h: "holds m' j sid e \<longleftrightarrow> holds m j sid e \<or> (j = i \<and> sid = serviceID (getServiceIDs d s) \<and> e = s)" for j sid e
    using assms(2,3) by (auto simp: holds_def m'_def updServer_def)
  have "map (\<lambda>j. srv_port (tcpServers m' j)) (m_servers m') = map (\<lambda>j. srv_port (tcpServers m j)) (m_servers m)"
    by (simp add: m'_def updServer_def)
  moreover have "\<forall>j \<in> set (m_servers m'). j < nextServer m' \<and> srv_listening (tcpServers m' j) \<and> \<not> portFree net (srv_port (tcpServers m' j))"
    using manager_okD(2) [OF assms(1)] by (simp add: m'_def updServer_def)
  moreover have "\<forall>j sid e. holds m' j sid e \<longrightarrow> e \<in> set (m_services d) \<and> m_isLocal (services d e) \<and> serviceID (getServiceIDs d e) = sid"
    using manager_okD(3) [OF assms(1)] assms(4,5) h by metis
  moreover have "\<forall>j k sid e. holds m' j sid e \<and> holds m' k sid e \<longrightarrow> j = k"
    using manager_okD(4) [OF assms(1)] assms(6) h by metis
  ultimately show "manager_ok net d m'" using manager_okD(1) [OF assms(1)] by (simp add: manager_ok_def)
  show "holds m' i (serviceID (getServiceIDs d s)) s" using h by blast
qed

text \<open>A server that has been set up, and one that could not be.\<close>

lemma manager_ok_new_server:
  assumes "manager_ok net d m" and "TCPServer_init net (m_portCount m) (TCPServer_new (m_basePort m)) = (code, net', srv)"
  defines "m' \<equiv> (updServer (nextServer m) srv (m\<lparr>nextServer := nextServer m + 1, m_blackList := m_blackList m @ [nextServer m]\<rparr>))
      \<lparr>m_servers := m_servers m @ (if isError code then [] else [nextServer m])\<rparr>"
  shows "manager_ok net' d m'" and "holds m' j sid e \<longleftrightarrow> holds m j sid e"
    and "srv_instanceNamespace srv = (\<lambda>_. None)"
proof -
  let ?n = "nextServer m"
  show ns: "srv_instanceNamespace srv = (\<lambda>_. None)"
    using assms(2) by (auto simp: TCPServer_init_def TCPServer_new_def Let_def split: if_splits prod.splits)
  have old: "?n \<notin> set (m_servers m)" using manager_okD(2) [OF assms(1)] by blast
  have less: "portFree net' p \<Longrightarrow> portFree net p" for p
    using assms(2) by (auto simp: TCPServer_init_def Let_def split: if_splits prod.splits)
  have new: "srv_listening srv \<and> \<not> portFree net' (srv_port srv) \<and> portFree net (srv_port srv)" if "\<not> isError code"
    using that assms(2) by (auto simp: TCPServer_init_def TCPServer_new_def isError_def Let_def
        dest: bind_loop_True split: if_splits prod.splits)
  have h: "holds m' j sid e \<longleftrightarrow> holds m j sid e" for j sid e
    using old ns by (auto simp: holds_def m'_def updServer_def)
  then show "holds m' j sid e \<longleftrightarrow> holds m j sid e" .
  have p: "map (\<lambda>j. srv_port (tcpServers m' j)) (m_servers m) = map (\<lambda>j. srv_port (tcpServers m j)) (m_servers m)"
    using old by (auto simp: m'_def updServer_def)
  have ms: "m_servers m' = m_servers m @ (if isError code then [] else [nextServer m])" "tcpServers m' ?n = srv"
    by (simp_all add: m'_def updServer_def)
  have "distinct (map (\<lambda>j. srv_port (tcpServers m' j)) (m_servers m'))"
    using manager_okD(1,2) [OF assms(1)] new by (cases "isError code") (auto simp: ms p)
  moreover have "\<forall>j \<in> set (m_servers m'). j < nextServer m' \<and> srv_listening (tcpServers m' j) \<and> \<not> portFree net' (srv_port (tcpServers m' j))"
    using manager_okD(2) [OF assms(1)] new less by (auto simp: m'_def updServer_def less_Suc_eq)
  moreover have "\<forall>j sid e. holds m' j sid e \<longrightarrow> e \<in> set (m_services d) \<and> m_isLocal (services d e) \<and> serviceID (getServiceIDs d e) = sid"
    using manager_okD(3) [OF assms(1)] h by metis
  moreover have "\<forall>j k sid e. holds m' j sid e \<and> holds m' k sid e \<longrightarrow> j = k"
    using manager_okD(4) [OF assms(1)] h by metis
  ultimately show "manager_ok net' d m'" unfolding manager_ok_def by blast
qed

lemma TCPServer_init_ok:
  assumes "canSocket net" and "canListen net" and "i < n" and "portFree net (srv_port srv + of_nat i)"
  shows "fst (TCPServer_init net n srv) = RC_OK"
  using assms bind_loop_False [of "portFree net" n "srv_port srv"]
  by (cases "bind_loop (portFree net) n (srv_port srv)") (auto simp: TCPServer_init_def Let_def)

definition ports_left :: "Network \<Rightarrow> TCPManager \<Rightarrow> bool" where
  "ports_left net m = (canSocket net \<and> canListen net \<and> (\<exists>i < m_portCount m. portFree net (m_basePort m + of_nat i)))"

lemma getEndPoint_holds:
  assumes "holds m i (serviceID (getServiceIDs d s)) s"
  shows "getEndPoint d s m \<noteq> None"
  using assms by (auto simp: getEndPoint_def find_None_iff holds_def TCPServer_isServiceRegistered_def split: option.splits)

lemma onServiceRegistered_ok:
  assumes "manager_ok net d m" and "s \<in> set (m_services d)" and "\<And>j sid. \<not> holds m j sid s"
  shows "\<exists>net' m'. TCPManager_onServiceRegistered d s (net, m) = Inr (net', m') \<and> manager_ok net' d m'
    \<and> (m_isLocal (services d s) \<and> ports_left net m \<longrightarrow> getEndPoint d s m' \<noteq> None)"
proof (cases "m_isLocal (services d s)")
  case False
  with assms(1) show ?thesis by (simp add: TCPManager_onServiceRegistered_def)
next
  case True
  show ?thesis
  proof (cases "availableServer d s m")
    case (Some i)
    note i = availableServer_Some [OF Some]
    note put = manager_ok_put [OF assms(1) i [THEN conjunct1] i [THEN conjunct2] assms(2) True assms(3)]
    then show ?thesis
      using True Some i getEndPoint_holds [OF put(2)]
      by (simp add: TCPManager_onServiceRegistered_def bindService_def addService_def bindE_def)
  next
    case None
    obtain code net' srv where init: "TCPServer_init net (m_portCount m) (TCPServer_new (m_basePort m)) = (code, net', srv)"
      by (metis prod_cases3)
    let ?m = "(updServer (nextServer m) srv (m\<lparr>nextServer := nextServer m + 1, m_blackList := m_blackList m @ [nextServer m]\<rparr>))
      \<lparr>m_servers := m_servers m @ (if isError code then [] else [nextServer m])\<rparr>"
    note new = manager_ok_new_server [OF assms(1) init]
    let ?srv = "srv\<lparr>srv_instanceNamespace := (srv_instanceNamespace srv)(serviceID (getServiceIDs d s) := Some s)\<rparr>"
    have at: "tcpServers ?m (nextServer m) = srv" by (simp add: updServer_def)
    have res: "TCPManager_onServiceRegistered d s (net, m) = Inr (net', updServer (nextServer m) ?srv ?m)"
      using True None new(3)
      by (cases "isError code")
        (simp_all add: TCPManager_onServiceRegistered_def bindService_def init addService_def bindE_def updServer_def Let_def)
    show ?thesis
    proof (cases "isError code")
      case True
      have "nextServer m \<notin> set (m_servers ?m)" using manager_okD(2) [OF assms(1)] True by auto
      then have "manager_ok net' d (updServer (nextServer m) ?srv ?m)" by (rule manager_ok_unlisted [OF new(1)])
      moreover have "\<not> ports_left net m"
        using True init TCPServer_init_ok [of net _ "m_portCount m" "TCPServer_new (m_basePort m)"]
        by (auto simp: ports_left_def TCPServer_new_def isError_def)
      ultimately show ?thesis using res by blast
    next
      case False
      then have "nextServer m \<in> set (m_servers ?m)" by simp
      note put = manager_ok_put [OF new(1) this, of s, unfolded at]
      have h: "\<not> holds ?m j sid s" for j sid using new(2) assms(3) by blast
      note put' = put [OF _ assms(2) True h]
      show ?thesis
        using res put' new(3) getEndPoint_holds [of _ "nextServer m" d s] by auto
    qed
  qed
qed

lemma holds_same_ids:
  assumes "manager_ok net d m" and "services_ok d" and "s \<in> set (m_services d)"
    and "TCPServer_isServiceRegistered d (tcpServers m i) s" and "i \<in> set (m_servers m)"
  shows "holds m i (serviceID (getServiceIDs d s)) s"
proof -
  obtain e where e: "holds m i (serviceID (getServiceIDs d s)) e" "instanceID (getServiceIDs d e) = instanceID (getServiceIDs d s)"
    using assms(4,5) by (auto simp: TCPServer_isServiceRegistered_def holds_def split: option.splits)
  then have "e \<in> set (m_services d)" "getServiceIDs d e = getServiceIDs d s"
    using manager_okD(3) [OF assms(1) e(1)] by (auto intro: ServiceIDs.equality)
  then have "e = s" using assms(2,3) by (auto simp: services_ok_def distinct_map inj_on_def)
  with e(1) show ?thesis by simp
qed

lemma onServiceUnregistered_ok:
  assumes "manager_ok net d m" and "services_ok d" and "s \<in> set (m_services d)"
    and "set (m_services d') = set (m_services d) - {s}" and "services d' = services d"
  shows "\<exists>m'. TCPManager_onServiceUnregistered d' s m = Inr m' \<and> manager_ok net d' m'"
proof -
  have ids: "getServiceIDs d' = getServiceIDs d" using assms(5) by (simp add: getServiceIDs_def fun_eq_iff)
  then have reg: "TCPServer_isServiceRegistered d' = TCPServer_isServiceRegistered d" by (intro ext) (auto simp: TCPServer_isServiceRegistered_def split: option.splits)
  have keep: "manager_ok net d' m" if "\<And>i sid. \<not> holds m i sid s"
    using manager_okD(3) [OF assms(1)] that assms(4,5) by (intro manager_ok_shrink [OF assms(1)]) auto
  have local: "m_isLocal (services d s)" "sid = serviceID (getServiceIDs d s)" if "holds m i sid s" for i sid
    using manager_okD(3) [OF assms(1) that] by simp_all
  show ?thesis
  proof (cases "m_isLocal (services d s)")
    case False
    with local keep assms(5) show ?thesis by (auto simp: TCPManager_onServiceUnregistered_def)
  next
    case True
    show ?thesis
    proof (cases "getEndPoint d' s m")
      case None
      then have "\<not> holds m i sid s" for i sid
        using local(2) [of i sid] reg getEndPoint_holds [of m i d' s] ids by auto
      with True None keep assms(5) show ?thesis by (simp add: TCPManager_onServiceUnregistered_def)
    next
      case (Some i)
      let ?sid = "serviceID (getServiceIDs d s)"
      have i: "i \<in> set (m_servers m)" "TCPServer_isServiceRegistered d (tcpServers m i) s"
        using find_Some_member Some reg unfolding getEndPoint_def by metis+
      note h = holds_same_ids [OF assms(1-3) i(2,1)]
      let ?m = "updServer i ((tcpServers m i)\<lparr>srv_instanceNamespace := (srv_instanceNamespace (tcpServers m i))(?sid := None)\<rparr>) m"
      have "TCPManager_onServiceUnregistered d' s m = Inr ?m"
        using True Some h assms(5) ids by (simp add: TCPManager_onServiceUnregistered_def removeService_def holds_def)
      moreover have hm: "holds ?m j sid e \<longleftrightarrow> holds m j sid e \<and> \<not> (j = i \<and> sid = ?sid)" for j sid e
        by (auto simp: holds_def updServer_def)
      have "e \<noteq> s" if "holds ?m j sid e" for j sid e
        using that hm local(2) manager_okD(4) [OF assms(1) h] by metis
      then have "manager_ok net d' ?m"
        using manager_okD(3) [OF assms(1)] hm assms(4,5)
        by (intro manager_ok_shrink [OF assms(1)]) (simp_all add: updServer_def, metis DiffI singletonD)
      ultimately show ?thesis by blast
    qed
  qed
qed

section \<open>Commands of applications\<close>

text \<open>Calls that neither the manager nor a client on TCP answers.\<close>

fun quiet :: "(nat \<Rightarrow> bool) \<Rightarrow> Effect \<Rightarrow> bool" where
  "quiet onTCP (OnServiceRegistered l s) = (l \<noteq> TCPManagerListener)"
| "quiet onTCP (OnServiceUnregistered l s) = (l \<noteq> TCPManagerListener)"
| "quiet onTCP (InitClient c) = (\<not> onTCP c)"
| "quiet onTCP (SendMessage c msg) = (\<not> onTCP c)"
| "quiet onTCP (SendOutputMessage c msg) = (\<not> onTCP c)"
| "quiet onTCP (OnNotificationSubscribed c s memberID) = (\<not> onTCP c)"
| "quiet onTCP _ = True"

lemma perform_quiet:
  assumes "quiet onTCP e"
  shows "\<exists>a. perform u onTCP e x = Inr (x\<lparr>announcer := a\<rparr>)"
proof -
  have same: "\<exists>a. x = x\<lparr>announcer := a\<rparr>" by (rule exI [of _ "announcer x"]) simp
  show ?thesis
  proof (cases e)
    case (OnServiceRegistered l s)
    with assms same show ?thesis by (cases l) auto
  next
    case (OnServiceUnregistered l s)
    with assms same show ?thesis by (cases l) auto
  qed (use assms same in auto)
qed

lemma foldE_quiet: "list_all (quiet onTCP) es \<Longrightarrow> \<exists>a. foldE (perform u onTCP) es x = Inr (x\<lparr>announcer := a\<rparr>)"
proof (induction es arbitrary: x)
  case (Cons e es)
  obtain a where a: "perform u onTCP e x = Inr (x\<lparr>announcer := a\<rparr>)" using perform_quiet [of onTCP e u x] Cons.prems by auto
  obtain b where "foldE (perform u onTCP) es (x\<lparr>announcer := a\<rparr>) = Inr (x\<lparr>announcer := a\<rparr>\<lparr>announcer := b\<rparr>)"
    using Cons.IH [of "x\<lparr>announcer := a\<rparr>"] Cons.prems by auto
  with a show ?case by auto
next
  case Nil
  show ?case by (rule exI [of _ "announcer x"]) simp
qed

lemma foldE_one_loud:
  assumes "list_all (quiet onTCP) es1" and "list_all (quiet onTCP) es2"
    and "\<And>x'. dispatcher x' = dispatcher x \<Longrightarrow> tcpManager x' = tcpManager x \<Longrightarrow> network x' = network x \<Longrightarrow>
      perform u onTCP e x' = Inr (x'\<lparr>network := net, tcpManager := m\<rparr>)"
  shows "\<exists>a. foldE (perform u onTCP) (es1 @ e # es2) x = Inr (x\<lparr>network := net, tcpManager := m, announcer := a\<rparr>)"
proof -
  obtain a where a: "foldE (perform u onTCP) es1 x = Inr (x\<lparr>announcer := a\<rparr>)" using foldE_quiet [OF assms(1)] by blast
  have e: "perform u onTCP e (x\<lparr>announcer := a\<rparr>) = Inr (x\<lparr>announcer := a, network := net, tcpManager := m\<rparr>)"
    using assms(3) [of "x\<lparr>announcer := a\<rparr>"] by simp
  obtain b where b: "foldE (perform u onTCP) es2 (x\<lparr>announcer := a, network := net, tcpManager := m\<rparr>)
      = Inr (x\<lparr>announcer := a, network := net, tcpManager := m\<rparr>\<lparr>announcer := b\<rparr>)"
    using foldE_quiet [OF assms(2)] by blast
  have "x\<lparr>announcer := a, network := net, tcpManager := m\<rparr>\<lparr>announcer := b\<rparr> = x\<lparr>network := net, tcpManager := m, announcer := b\<rparr>"
    by simp
  with a e b show ?thesis by (auto simp: foldE_append)
qed

lemma count_list_1_split:
  assumes "count_list xs a = 1"
  obtains ys zs where "xs = ys @ a # zs" and "a \<notin> set ys" and "a \<notin> set zs"
proof -
  have "a \<in> set xs" using assms count_notin by force
  then obtain ys zs where s: "xs = ys @ a # zs" "a \<notin> set ys" using split_list_first by metis
  then have "count_list zs a = 0" using assms by simp
  then show thesis using that s by (simp add: count_list_0_iff)
qed

text \<open>The tables of the dispatcher and those of the manager, which listens to it.\<close>

definition host_ok :: "Host \<Rightarrow> bool" where
  "host_ok x = (dispatcher_ok (dispatcher x)
     \<and> count_list (m_serviceRegistrationListeners (dispatcher x)) TCPManagerListener = 1
     \<and> manager_ok (network x) (dispatcher x) (tcpManager x))"

lemma dispatcher_ok_effects [simp]: "dispatcher_ok (d\<lparr>effects := es\<rparr>) = dispatcher_ok d"
  using dispatcher_ok_record [of "effects d" "d\<lparr>effects := []\<rparr>"] dispatcher_ok_record [of es "d\<lparr>effects := []\<rparr>"]
  by (simp add: record_calls_def)

lemma manager_ok_same_services:
  "m_services d' = m_services d \<Longrightarrow> services d' = services d \<Longrightarrow> manager_ok net d' m = manager_ok net d m"
  by (simp add: manager_ok_def getServiceIDs_def)

lemma bring_effects:
  "effects (bring ids l c d) = effects d @ map (\<lambda>x. OnServiceRegistered x (nextService d)) (m_serviceRegistrationListeners d)
     @ map (\<lambda>n. OnNotificationSubscribed c (nextService d) (m_memberID (m_messageIDs (notifications d n))))
         (filter (\<lambda>n. m_serviceIDs (m_messageIDs (notifications d n)) = ids) (m_notifications d))"
  "m_serviceRegistrationListeners (bring ids l c d) = m_serviceRegistrationListeners d"
  by (simp_all add: bring_def register_def record_calls_def provide_def subscribed_calls_def getServiceIDs_def Service_new_def
      Let_def concat_map_singleton)

lemma attach_isLocal [simp]: "m_isLocal (services (attach s c d) s') = m_isLocal (services d s')"
  "m_serviceRegistrationListeners (attach s c d) = m_serviceRegistrationListeners d"
  by (simp_all add: attach_def updService_def)

lemma register_new_published:
  assumes "host_ok x" and "m_registered (clients (dispatcher x) c)" and "\<not> onTCP c" and "getService ids (dispatcher x) = None"
  shows "\<exists>x'. host_execute u onTCP (RegisterService c ids True) x = Inr x' \<and> host_ok x'
    \<and> (ports_left (network x) (tcpManager x) \<longrightarrow>
        (\<exists>s. getService ids (dispatcher x') = Some s \<and> getEndPoint (dispatcher x') s (tcpManager x') \<noteq> None))"
proof -
  let ?e = "(dispatcher x)\<lparr>effects := []\<rparr>" and ?s = "nextService (dispatcher x)"
  let ?d = "listService c ?s (bring ids True c ?e)"
  have ok: "dispatcher_ok ?e" "m_registered (clients ?e c)" "getService ids ?e = None"
    using assms by (simp_all add: host_ok_def getService_find getServiceIDs_def)
  have ex: "execute (RegisterService c ids True) ?e = Inr ?d"
    using ok by (simp add: Client_registerService_def tryRegisterService_new listService_def)
  have new: "?s \<notin> set (m_services (dispatcher x))" using ok(1) by (auto simp: dispatcher_ok_def services_ok_def)
  have m0: "manager_ok (network x) (dispatcher x) (tcpManager x)" using assms(1) by (simp add: host_ok_def)
  have m1: "manager_ok (network x) ?d (tcpManager x)"
    using new by (intro manager_ok_more_services [OF m0]) (auto simp: getServiceIDs_def)
  have nh: "\<not> holds (tcpManager x) j sid ?s" for j sid using manager_okD(3) [OF m0] new by blast
  obtain net' m' where r: "TCPManager_onServiceRegistered ?d ?s (network x, tcpManager x) = Inr (net', m')"
    "manager_ok net' ?d m'" "ports_left (network x) (tcpManager x) \<longrightarrow> getEndPoint ?d ?s m' \<noteq> None"
    using onServiceRegistered_ok [OF m1 _ nh] by (auto simp: Service_new_def)
  obtain l1 l2 where l: "m_serviceRegistrationListeners (dispatcher x) = l1 @ TCPManagerListener # l2"
    "TCPManagerListener \<notin> set l1" "TCPManagerListener \<notin> set l2"
    using count_list_1_split assms(1) unfolding host_ok_def by metis
  let ?subs = "map (\<lambda>n. OnNotificationSubscribed c ?s (m_memberID (m_messageIDs (notifications (dispatcher x) n))))
         (filter (\<lambda>n. m_serviceIDs (m_messageIDs (notifications (dispatcher x) n)) = ids) (m_notifications (dispatcher x)))"
  have es: "effects ?d = map (\<lambda>y. OnServiceRegistered y ?s) l1 @ OnServiceRegistered TCPManagerListener ?s
      # (map (\<lambda>y. OnServiceRegistered y ?s) l2 @ ?subs)"
    by (simp add: bring_effects l(1))
  have "\<exists>a. foldE (perform u onTCP) (effects ?d) (x\<lparr>dispatcher := ?d\<rparr>)
      = Inr (x\<lparr>dispatcher := ?d\<rparr>\<lparr>network := net', tcpManager := m', announcer := a\<rparr>)"
    unfolding es
    by (rule foldE_one_loud) (use l(2,3) assms(3) r(1) in \<open>auto simp: list_all_iff\<close>)
  then obtain a where run: "host_execute u onTCP (RegisterService c ids True) x
      = Inr (x\<lparr>dispatcher := ?d\<rparr>\<lparr>network := net', tcpManager := m', announcer := a\<rparr>)"
    unfolding host_execute_def ex by auto
  have "getService ids ?d = Some ?s"
    using getService_appended [of "bring ids True c ?e" ?e ?s ids ids] new ok(3) by simp
  moreover have "dispatcher_ok ?d" using bring_ok [OF ok(1,3,2)] by simp
  ultimately show ?thesis
    using run r(2,3) l by (auto simp: host_ok_def bring_effects)
qed

lemma register_known_quiet:
  assumes "host_ok x" and "m_registered (clients (dispatcher x) c)" and "getService ids (dispatcher x) \<noteq> None"
  shows "\<exists>x'. host_execute u onTCP (RegisterService c ids True) x = Inr x' \<and> host_ok x'"
proof -
  let ?e = "(dispatcher x)\<lparr>effects := []\<rparr>"
  have ok: "dispatcher_ok ?e" "m_registered (clients ?e c)" "getService ids ?e = getService ids (dispatcher x)"
    using assms by (simp_all add: host_ok_def getService_find getServiceIDs_def)
  obtain r d' where d': "Client_registerService c ids True ?e = Inr (r, d')" "dispatcher_ok d'"
    using Client_registerService_ok [OF ok(1,2)] by blast
  have q: "list_all (quiet onTCP) (map (SendIPCMessage c) ms)" for ms by (simp add: list_all_iff)
  have f: "list_all (quiet onTCP) (effects d') \<and> m_services d' = m_services (dispatcher x)
      \<and> (\<forall>s. m_isLocal (services d' s) = m_isLocal (services (dispatcher x) s) \<and> getServiceIDs d' s = getServiceIDs (dispatcher x) s)
      \<and> m_serviceRegistrationListeners d' = m_serviceRegistrationListeners (dispatcher x)"
    using ok(1,2)
  proof (cases rule: Client_registerService_cases [of ?e c ids True, consumes 2, case_names remote taken again activated new])
    case (taken s c')
    then show ?thesis using d'(1) by (simp add: getServiceIDs_def)
  next
    case (again s)
    then show ?thesis using d'(1) by (simp add: getServiceIDs_def)
  next
    case (activated s)
    then show ?thesis using d'(1) q by (simp add: getServiceIDs_def)
  next
    case new
    then show ?thesis using ok(3) assms(3) by simp
  qed simp
  obtain a where a: "foldE (perform u onTCP) (effects d') (x\<lparr>dispatcher := d'\<rparr>) = Inr (x\<lparr>dispatcher := d', announcer := a\<rparr>)"
    using foldE_quiet [of onTCP "effects d'" u "x\<lparr>dispatcher := d'\<rparr>"] f by auto
  have m0: "manager_ok (network x) (dispatcher x) (tcpManager x)" using assms(1) by (simp add: host_ok_def)
  have "manager_ok (network x) d' (tcpManager x)"
    by (rule manager_ok_more_services [OF m0]) (use f in simp_all)
  with a d' f assms(1) show ?thesis by (auto simp: host_execute_def host_ok_def)
qed

lemma unregister_withdrawn:
  assumes "host_ok x" and "findService (dispatcher x) ids (m_registeredServices (clients (dispatcher x) c)) = Some s"
    and "s \<in> set (m_services (dispatcher x))"
  shows "\<exists>x'. host_execute u onTCP (UnregisterService c ids) x = Inr x' \<and> host_ok x'"
proof -
  let ?e = "(dispatcher x)\<lparr>effects := []\<rparr>" and ?d = "unlistService c s (unregister s ((dispatcher x)\<lparr>effects := []\<rparr>))"
  have ok: "dispatcher_ok ?e" using assms(1) by (simp add: host_ok_def)
  have ids: "getServiceIDs ?e = getServiceIDs (dispatcher x)" by (simp add: getServiceIDs_def fun_eq_iff)
  have ex: "execute (UnregisterService c ids) ?e = Inr ?d"
    using assms(2) by (simp add: Client_unregisterService_eq findService_find ids)
  have okd: "dispatcher_ok ?d"
    using ok ex Client_unregisterService_ok [OF ok, of c ids] by simp
  have so: "services_ok (dispatcher x)" using assms(1) by (simp add: host_ok_def dispatcher_ok_def)
  have m0: "manager_ok (network x) (dispatcher x) (tcpManager x)" using assms(1) by (simp add: host_ok_def)
  have "set (m_services ?d) = set (m_services (dispatcher x)) - {s}" using distinct_services [OF so] by simp
  then obtain m' where r: "TCPManager_onServiceUnregistered ?d s (tcpManager x) = Inr m'" "manager_ok (network x) ?d m'"
    using onServiceUnregistered_ok [OF m0 so assms(3), of ?d] by auto
  obtain l1 l2 where l: "m_serviceRegistrationListeners (dispatcher x) = l1 @ TCPManagerListener # l2"
    "TCPManagerListener \<notin> set l1" "TCPManagerListener \<notin> set l2"
    using count_list_1_split assms(1) unfolding host_ok_def by metis
  have es: "effects ?d = map (\<lambda>y. OnServiceUnregistered y s) (rev l2) @ OnServiceUnregistered TCPManagerListener s
      # map (\<lambda>y. OnServiceUnregistered y s) (rev l1)"
    by (simp add: l(1))
  have "\<exists>a. foldE (perform u onTCP) (effects ?d) (x\<lparr>dispatcher := ?d\<rparr>)
      = Inr (x\<lparr>dispatcher := ?d\<rparr>\<lparr>network := network x, tcpManager := m', announcer := a\<rparr>)"
    unfolding es
    by (rule foldE_one_loud) (use l(2,3) r(1) in \<open>auto simp: list_all_iff\<close>)
  then obtain a where run: "host_execute u onTCP (UnregisterService c ids) x
      = Inr (x\<lparr>dispatcher := ?d\<rparr>\<lparr>network := network x, tcpManager := m', announcer := a\<rparr>)"
    unfolding host_execute_def ex by auto
  have "m_serviceRegistrationListeners ?d = m_serviceRegistrationListeners (dispatcher x)"
    by (simp add: unlistService_def updClient_def)
  with run r(2) okd l show ?thesis by (auto simp: host_ok_def)
qed

section \<open>Offers\<close>

definition offer_message :: "SessionCounters \<Rightarrow> ServiceIDs \<Rightarrow> IPv4TCPEndPoint \<Rightarrow> ServiceDiscoveryMessage" where
  "offer_message st ids ip =
     (let msg = snd (ServiceDiscoveryMessage_new st True);
          (serviceEntry, msg) = ServiceOfferedEntry msg ids TCP (ep_address ip) (ep_port ip)
      in addEntry msg (ServiceEntryV serviceEntry))"

definition next_session :: "SessionCounters \<Rightarrow> SessionCounters" where
  "next_session st = fst (ServiceDiscoveryMessage_new st True)"

fun offers :: "endianness \<Rightarrow> ServiceIDs \<Rightarrow> SessionCounters \<Rightarrow> (IPV4Address \<times> IPv4TCPEndPoint) list \<Rightarrow> (IPV4Address \<times> u8 list) list" where
  "offers h ids st [] = []"
| "offers h ids st ((ch, ip) # ps) =
     (ch, contents (SD_serialize h (offer_message st ids ip) ByteArray_new)) # offers h ids (next_session st) ps"

definition announce_one :: "endianness \<Rightarrow> ServiceIDs \<Rightarrow> IPV4Address \<Rightarrow> IPv4TCPEndPoint \<Rightarrow> ServiceAnnouncer \<Rightarrow> ServiceAnnouncer" where
  "announce_one h ids ch ipAddress a =
     (if IPV4Address_eq ch (ep_address ipAddress)
      then let (st, msg) = ServiceDiscoveryMessage_new (counters a) True;
               (serviceEntry, msg) = ServiceOfferedEntry msg ids TCP (ep_address ipAddress) (ep_port ipAddress)
           in ServiceAnnouncer_sendMessage h (addEntry msg (ServiceEntryV serviceEntry)) ch (a\<lparr>counters := st\<rparr>)
      else a)"

text \<open>The interfaces with a channel on which the server can be reached.\<close>

definition reachable_on :: "IPV4Address list \<Rightarrow> IPv4TCPEndPoint list \<Rightarrow> (IPV4Address \<times> IPv4TCPEndPoint) list" where
  "reachable_on chs ips = concat (map (\<lambda>ch. map (Pair ch) (filter (\<lambda>ip. IPV4Address_eq ch (ep_address ip)) ips)) chs)"

lemma offers_append:
  "offers h ids st (ps @ qs) = offers h ids st ps @ offers h ids ((next_session ^^ length ps) st) qs"
  by (induction ps arbitrary: st) (auto simp: funpow_swap1)

lemma announce_one_eq:
  "announce_one h ids ch ip a = (if IPV4Address_eq ch (ep_address ip)
     then a\<lparr>counters := next_session (counters a),
            datagrams := datagrams a @ [(ch, contents (SD_serialize h (offer_message (counters a) ids ip) ByteArray_new))]\<rparr>
     else a)"
  by (simp add: announce_one_def offer_message_def next_session_def ServiceAnnouncer_sendMessage_def contents_def Let_def
      split: prod.splits)

lemma announce_inner:
  "datagrams (fold (announce_one h ids ch) ips a) = datagrams a @ offers h ids (counters a) (reachable_on [ch] ips)
   \<and> m_channels (fold (announce_one h ids ch) ips a) = m_channels a
   \<and> counters (fold (announce_one h ids ch) ips a) = (next_session ^^ length (reachable_on [ch] ips)) (counters a)"
  by (induction ips arbitrary: a) (auto simp: announce_one_eq reachable_on_def funpow_swap1)

lemma announce_outer:
  "datagrams (fold (\<lambda>ch. fold (announce_one h ids ch) ips) chs a) = datagrams a @ offers h ids (counters a) (reachable_on chs ips)"
proof (induction chs arbitrary: a)
  case (Cons ch chs)
  have "reachable_on (ch # chs) ips = reachable_on [ch] ips @ reachable_on chs ips" by (simp add: reachable_on_def)
  then show ?case
    using Cons.IH [of "fold (announce_one h ids ch) ips a"] announce_inner [of h ids ch ips a] by (simp add: offers_append)
qed (simp add: reachable_on_def)

lemma announce_datagrams:
  assumes "getEndPoint d s m = Some i"
  shows "datagrams (ServiceAnnouncer_onServiceRegistered h d m s a)
    = datagrams a @ offers h (getServiceIDs d s) (counters a) (reachable_on (m_channels a) (m_activePorts (tcpServers m i)))"
  using assms announce_outer [of h "getServiceIDs d s" "m_activePorts (tcpServers m i)" "m_channels a" a]
  by (simp add: ServiceAnnouncer_onServiceRegistered_def announce_one_def [abs_def])

lemma offers_member:
  "(ch, bytes) \<in> set (offers h ids st ps) \<Longrightarrow>
   \<exists>st' ip. (ch, ip) \<in> set ps \<and> bytes = contents (SD_serialize h (offer_message st' ids ip) ByteArray_new)"
proof (induction ps arbitrary: st)
  case (Cons p ps)
  then show ?case by (cases p) (auto, blast+)
qed simp

text \<open>What another host makes of an offer.\<close>

definition seen_endpoint :: "endianness \<Rightarrow> endianness \<Rightarrow> IPv4TCPEndPoint \<Rightarrow> IPv4TCPEndPoint" where
  "seen_endpoint h h' ip = \<lparr>ep_address = IPV4Address_assign h' IPV4Address_new (toArray h (ep_address ip)), ep_port = ep_port ip\<rparr>"

lemmas discovery_record_simps = ServiceDiscoveryMessage_new_def ServiceDiscoveryMessage_default_def SomeIPHeader_default_def
  SomeIPHeader.defs ServiceDiscoveryMessage.defs assignUniqueSessionID_def setRequestID_def setMessageType_def setMessageID_def
  addOption_def addEntry_def IPv4ConfigurationOption_new_def

lemma offer_message_fields:
  "SD_ok (offer_message st ids ip)" "length (SD_body_code h (offer_message st ids ip)) = 40"
  "m_options (offer_message st ids ip) = [IPv4ConfigurationOptionV (IPv4ConfigurationOption_new TCP (ep_address ip) (ep_port ip))]"
  "\<exists>e. m_entries (offer_message st ids ip) = [ServiceEntryV e] \<and> m_type e = OfferService \<and> m_indexFirstOptionRun e = 0
     \<and> m_serviceID e = serviceID ids \<and> m_entryInstanceID e = instanceID ids \<and> m_ttl e = 0xFFFFFFFF"
  "m_requestID (offer_message st ids ip) = ucast (s_nextMulticastSessionID st)"
  by (simp_all add: SD_ok_def SD_body_code_def offer_message_def ServiceOfferedEntry_def discovery_record_simps header_ok_def entry_header_code_def Let_def)

lemma decode_offer:
  "\<exists>e o' msg. decodeMessage h' (contents (SD_serialize h (offer_message st ids ip) ByteArray_new))
      = Inr [onRemoteServiceAvailable e o' msg]
    \<and> m_serviceID e = serviceID ids \<and> m_entryInstanceID e = instanceID ids
    \<and> m_requestID msg = ucast (s_nextMulticastSessionID st)
    \<and> \<lparr>ep_address = m_address o', ep_port = m_port o'\<rparr> = seen_endpoint h h' ip"
proof -
  let ?msg = "offer_message st ids ip"
  obtain e where e: "m_entries ?msg = [ServiceEntryV e]" "m_type e = OfferService" "m_indexFirstOptionRun e = 0"
    "m_serviceID e = serviceID ids" "m_entryInstanceID e = instanceID ids" "m_ttl e = 0xFFFFFFFF"
    using offer_message_fields(4) by blast
  have "SD_read h' (Deserializer_new (contents (SD_serialize h ?msg ByteArray_new)))
      = Some (SD_seen h h' ?msg, dser (contents (SD_serialize h ?msg ByteArray_new)) [])"
    using SD_read_code [OF offer_message_fields(1), of h' "[]"] by (simp add: contents_SD_serialize Deserializer_new_dser)
  then show ?thesis
    using e by (simp add: decodeMessage_def SD_seen_def offer_message_fields(3,5) option_at_def seen_endpoint_def
        IPv4ConfigurationOption_new_def)
qed

lemma offer_length: "length (contents (SD_serialize h (offer_message st ids ip) ByteArray_new)) = 56"
  by (simp add: contents_SD_serialize offer_message_fields(2) SOMEIP_HEADER_LENGTH_ON_NETWORK_def sizeof_SomeIPHeader_def)

text \<open>A server that is not on this host, and one no offer has come from.\<close>

definition foreign :: "TCPManager \<Rightarrow> IPv4TCPEndPoint \<Rightarrow> bool" where
  "foreign m server = (\<not> list_ex (\<lambda>i. isBlackListed (tcpServers m i) server) (m_blackList m))"

definition stranger :: "TCPManager \<Rightarrow> IPv4TCPEndPoint \<Rightarrow> bool" where
  "stranger m server = (foreign m server
     \<and> \<not> list_ex (\<lambda>c. IPv4TCPEndPoint_eq server (m_serverIdentifier (tcpClients m c))) (m_remoteClients m))"

definition offered_by :: "IPv4TCPEndPoint \<Rightarrow> ServiceIDs \<Rightarrow> nat \<Rightarrow> RequestID \<Rightarrow> nat option \<Rightarrow> TCPManager \<times> Dispatcher \<Rightarrow> bool" where
  "offered_by server ids c session entry = (\<lambda>(m, d).
     dispatcher_ok d \<and> m_registered (clients d c) \<and> foreign m server
     \<and> m_remoteClients m \<noteq> [] \<and> last (m_remoteClients m) = c \<and> m_serverIdentifier (tcpClients m c) = server
     \<and> (\<exists>s. getService ids d = Some s \<and> m_client (services d s) = Some c \<and> \<not> m_isLocal (services d s)
          \<and> (entry = None \<or> entry = Some s))
     \<and> m_ownInstanceNamespace (tcpClients m c) (serviceID ids) = Some entry
     \<and> m_lastReceivedSessionID (fst (m_rebootInformation (tcpClients m c))) = session)"

lemma fold_none_found: "\<not> list_ex P xs \<Longrightarrow> fold (\<lambda>c found. if P c then Some c else found) xs None = None"
  by (induction xs) auto

lemma endpoint_eq_refl [simp]: "IPv4TCPEndPoint_eq server server"
  by (simp add: IPv4TCPEndPoint_eq_def IPV4Address_eq_def)

lemma getOrCreateClient_known:
  assumes "m_remoteClients m \<noteq> []" and "last (m_remoteClients m) = c" and "m_serverIdentifier (tcpClients m c) = server"
  shows "getOrCreateClient h ping new outcomes server (m, d) = Inr (c, m, d)"
proof -
  obtain cs where "m_remoteClients m = cs @ [c]" using assms(1,2) by (metis append_butlast_last_id)
  with assms(3) show ?thesis by (simp add: getOrCreateClient_def)
qed

lemma detectReboot_later:
  assumes "m_lastReceivedSessionID (fst (m_rebootInformation (tcpClients m c))) \<le> m_requestID message"
  shows "\<exists>info. TCPClient_detectReboot message c m = (False, updTCPClient c (\<lambda>x. x\<lparr>m_rebootInformation := info\<rparr>) m)
    \<and> m_lastReceivedSessionID (fst info) = m_requestID message"
  using assms
  by (cases "m_rebootInformation (tcpClients m c)")
    (auto simp: TCPClient_detectReboot_def detectReboot_def updateAndTestReboot_def Let_def)

lemma offer_new:
  assumes "dispatcher_ok d" and "\<not> allocated d new" and "length (m_clients d) \<noteq> 65536" and "getService ids d = None"
    and "stranger m server"
    and "m_serviceID e = serviceID ids" and "m_entryInstanceID e = instanceID ids"
    and "\<lparr>ep_address = m_address o', ep_port = m_port o'\<rparr> = server"
  shows "\<exists>md. TCPManager_onRemoteServiceAvailable h ping new outcomes e o' message (m, d) = Inr md
    \<and> offered_by server ids new (m_requestID message) (Some (nextService d)) md"
proof -
  let ?j = "join new ping d"
  let ?d = "listService new (nextService d) (bring ids False new ?j)"
  let ?m = "(updTCPClient new (\<lambda>_. RemoteTCPClient_new h server outcomes) m)\<lparr>m_remoteClients := m_remoteClients m @ [new]\<rparr>"
  have ids: "ServiceIDs_new (m_serviceID e) (m_entryInstanceID e) = ids" using assms(6,7) by (simp add: ServiceIDs_new_def)
  have st: "\<not> list_ex (\<lambda>i. isBlackListed (tcpServers m i) server) (m_blackList m)"
    "\<not> list_ex (\<lambda>c. IPv4TCPEndPoint_eq server (m_serverIdentifier (tcpClients m c))) (m_remoteClients m)"
    using assms(5) by (simp_all add: stranger_def foreign_def)
  have reg: "registerClient new (newClient new ping d) = Inr ?j"
    using registerClient_new [of d new ping] assms(1,3) by (simp add: dispatcher_ok_def)
  have j: "dispatcher_ok ?j" "m_registered (clients ?j new)" "getService ids ?j = None"
    using join_ok [OF assms(1-3)] assms(4) by (simp_all add: getService_find getServiceIDs_def)
  have crs: "Client_registerService new ids False ?j = Inr (Some (nextService d), ?d)"
    using j(1,2) by (cases rule: Client_registerService_cases [of ?j new ids False]) (use j(3) in simp_all)
  have make: "getOrCreateClient h ping new outcomes server (m, d) = Inr (new, ?m, ?j)"
    using st(2) reg by (simp add: getOrCreateClient_def fold_none_found updTCPClient_def Let_def)
  have "m_lastReceivedSessionID (fst (m_rebootInformation (tcpClients ?m new))) \<le> m_requestID message"
    by (simp add: updTCPClient_def RemoteTCPClient_new_def RebootInformation_new_def)
  then obtain info where info: "TCPClient_detectReboot message new ?m = (False, updTCPClient new (\<lambda>x. x\<lparr>m_rebootInformation := info\<rparr>) ?m)"
    "m_lastReceivedSessionID (fst info) = m_requestID message"
    using detectReboot_later by blast
  have ok: "dispatcher_ok ?d" using bring_ok [OF j(1,3,2), of False] by simp
  then have "services_ok ?d" by (simp add: dispatcher_ok_def)
  then have "getService ids ?d = Some (nextService d)"
    unfolding getService_Some_iff [OF \<open>services_ok ?d\<close>] by (simp add: getServiceIDs_def Service_new_def)
  with ok j(2) info st show ?thesis
    unfolding TCPManager_onRemoteServiceAvailable_def assms(8) ids
    by (simp add: make crs TCPClient_onServiceAvailable_def same_instance_def offered_by_def foreign_def Service_new_def
        updTCPClient_def RemoteTCPClient_new_def Let_def)
qed

lemma offer_again:
  assumes "offered_by server ids c old entry (m, d)" and "old \<le> m_requestID message"
    and "m_serviceID e = serviceID ids" and "m_entryInstanceID e = instanceID ids"
    and "\<lparr>ep_address = m_address o', ep_port = m_port o'\<rparr> = server"
  shows "if entry = None then TCPManager_onRemoteServiceAvailable h ping new outcomes e o' message (m, d) = Inl NullDereference
    else \<exists>md. TCPManager_onRemoteServiceAvailable h ping new outcomes e o' message (m, d) = Inr md
      \<and> offered_by server ids c (m_requestID message) None md"
proof -
  have ids: "ServiceIDs_new (m_serviceID e) (m_entryInstanceID e) = ids" using assms(3,4) by (simp add: ServiceIDs_new_def)
  have o: "dispatcher_ok d" "m_registered (clients d c)" "foreign m server" "m_remoteClients m \<noteq> []"
    "last (m_remoteClients m) = c" "m_serverIdentifier (tcpClients m c) = server"
    "m_ownInstanceNamespace (tcpClients m c) (serviceID ids) = Some entry"
    "m_lastReceivedSessionID (fst (m_rebootInformation (tcpClients m c))) = old"
    using assms(1) by (simp_all add: offered_by_def)
  obtain s where s: "getService ids d = Some s" "m_client (services d s) = Some c" "\<not> m_isLocal (services d s)"
    "entry = None \<or> entry = Some s"
    using assms(1) by (auto simp: offered_by_def)
  have crs: "Client_registerService c ids False d = Inr (None, d)"
    using o(1,2) by (cases rule: Client_registerService_cases [of d c ids False]) (use s(1) in simp_all)
  obtain info where info: "TCPClient_detectReboot message c m = (False, updTCPClient c (\<lambda>x. x\<lparr>m_rebootInformation := info\<rparr>) m)"
    "m_lastReceivedSessionID (fst info) = m_requestID message"
    using detectReboot_later [of m c message] o(8) assms(2) by auto
  have si: "getServiceIDs d s = ids" using s(1) o(1) by (simp add: dispatcher_ok_def getService_Some_iff)
  have call: "TCPManager_onRemoteServiceAvailable h ping new outcomes e o' message (m, d)
      = TCPClient_onServiceAvailable c ids (updTCPClient c (\<lambda>x. x\<lparr>m_rebootInformation := info\<rparr>) m, d)"
    using o(3) info unfolding TCPManager_onRemoteServiceAvailable_def assms(5) ids
    by (simp add: getOrCreateClient_known [OF o(4-6)] foreign_def Let_def)
  show ?thesis
    using o s si info unfolding call
    by (auto simp: TCPClient_onServiceAvailable_def crs same_instance_def offered_by_def foreign_def updTCPClient_def)
qed

lemma handle_offer:
  "RemoteServiceListener_handleMessage ping new outcomes (Some (contents (SD_serialize h (offer_message st ids ip) ByteArray_new))) y
    = bindE (decodeMessage (hostOrder y) (contents (SD_serialize h (offer_message st ids ip) ByteArray_new)))
        (\<lambda>evs. foldE (RemoteServiceListener_onDiscovery ping new outcomes) evs y)"
  by (simp add: RemoteServiceListener_handleMessage_def offer_length)

lemma announce_once:
  fixes h :: endianness
  assumes "getEndPoint d s m = Some i" and "m_activePorts (tcpServers m i) = [ip]" and "m_channels a = [ch]"
    and "IPV4Address_eq ch (ep_address ip)"
  defines "a' \<equiv> ServiceAnnouncer_onServiceRegistered h d m s a"
  shows "datagrams a' = datagrams a @ [(ch, contents (SD_serialize h (offer_message (counters a) (getServiceIDs d s) ip) ByteArray_new))]"
    and "m_channels a' = [ch]" and "counters a' = next_session (counters a)"
  using assms(1-4) announce_inner [of h "getServiceIDs d s" ch "[ip]" a]
  by (simp_all add: a'_def ServiceAnnouncer_onServiceRegistered_def announce_one_def [abs_def] reachable_on_def)

lemma next_session_at: "next_session (counters_at u n) = counters_at u (Suc n)"
  using ServiceDiscoveryMessage_new_at [of u n True] by (auto simp: next_session_def)

lemma session_order:
  assumes "k \<le> n" and "n < 65535"
  shows "(ucast (s_nextMulticastSessionID (counters_at u k)) :: u32) \<le> ucast (s_nextMulticastSessionID (counters_at u n))"
  using assms unat_session_id [of k] unat_session_id [of n]
  by (simp add: counters_at_def word_le_nat_alt unsigned_ucast_eq take_bit_nat_eq_self)

lemma handle_first_offer:
  assumes "dispatcher_ok (dispatcher y)" and "\<not> allocated (dispatcher y) new" and "length (m_clients (dispatcher y)) \<noteq> 65536"
    and "getService ids (dispatcher y) = None" and "stranger (tcpManager y) (seen_endpoint h (hostOrder y) ip)"
  shows "\<exists>y'. RemoteServiceListener_handleMessage ping new outcomes
        (Some (contents (SD_serialize h (offer_message st ids ip) ByteArray_new))) y = Inr y'
    \<and> hostOrder y' = hostOrder y
    \<and> offered_by (seen_endpoint h (hostOrder y) ip) ids new (ucast (s_nextMulticastSessionID st))
        (Some (nextService (dispatcher y))) (tcpManager y', dispatcher y')"
proof -
  obtain e o' msg where d: "decodeMessage (hostOrder y) (contents (SD_serialize h (offer_message st ids ip) ByteArray_new))
      = Inr [onRemoteServiceAvailable e o' msg]" "m_serviceID e = serviceID ids" "m_entryInstanceID e = instanceID ids"
    "m_requestID msg = ucast (s_nextMulticastSessionID st)"
    "\<lparr>ep_address = m_address o', ep_port = m_port o'\<rparr> = seen_endpoint h (hostOrder y) ip"
    using decode_offer by blast
  obtain m' d' where r: "TCPManager_onRemoteServiceAvailable (hostOrder y) ping new outcomes e o' msg (tcpManager y, dispatcher y) = Inr (m', d')"
    "offered_by (seen_endpoint h (hostOrder y) ip) ids new (m_requestID msg) (Some (nextService (dispatcher y))) (m', d')"
    using offer_new [OF assms d(2,3,5)] by (metis surj_pair)
  with d show ?thesis by (simp add: handle_offer)
qed

lemma handle_later_offer:
  fixes ping :: PingSender and outcomes :: "int option list" and new :: nat
  assumes "offered_by (seen_endpoint h (hostOrder y) ip) ids c old entry (tcpManager y, dispatcher y)"
    and "old \<le> ucast (s_nextMulticastSessionID st)"
  defines "r \<equiv> RemoteServiceListener_handleMessage ping new outcomes
        (Some (contents (SD_serialize h (offer_message st ids ip) ByteArray_new))) y"
  shows "if entry = None then r = Inl NullDereference
    else \<exists>y'. r = Inr y' \<and> hostOrder y' = hostOrder y
      \<and> offered_by (seen_endpoint h (hostOrder y) ip) ids c (ucast (s_nextMulticastSessionID st)) None (tcpManager y', dispatcher y')"
proof -
  obtain e o' msg where d: "decodeMessage (hostOrder y) (contents (SD_serialize h (offer_message st ids ip) ByteArray_new))
      = Inr [onRemoteServiceAvailable e o' msg]" "m_serviceID e = serviceID ids" "m_entryInstanceID e = instanceID ids"
    "m_requestID msg = ucast (s_nextMulticastSessionID st)"
    "\<lparr>ep_address = m_address o', ep_port = m_port o'\<rparr> = seen_endpoint h (hostOrder y) ip"
    using decode_offer by blast
  have "old \<le> m_requestID msg" using assms(2) d(4) by simp
  from offer_again [OF assms(1) this d(2,3,5), of "hostOrder y" ping new outcomes] d(1,4)
  show ?thesis by (auto simp: r_def handle_offer split: if_splits)
qed

section \<open>Subscriptions\<close>

definition subscription_message :: "SessionCounters \<Rightarrow> u16 \<Rightarrow> ServiceIDs \<Rightarrow> MemberID \<Rightarrow> ServiceDiscoveryMessage" where
  "subscription_message st u ids memberID =
     addEntry (snd (ServiceDiscoveryMessage_new st True)) (EventGroupEntryV (SubscribeNotificationEntry u ids memberID))"

lemma subscription_message_fields:
  "SD_ok (subscription_message st u ids memberID)" "length (SD_body_code h (subscription_message st u ids memberID)) = 28"
  "m_messageID (subscription_message st u ids memberID) = SERVICE_DISCOVERY_MEMBER_ID"
  "m_entries (subscription_message st u ids memberID) = [EventGroupEntryV (SubscribeNotificationEntry u ids memberID)]"
  by (simp_all add: SD_ok_def SD_body_code_def subscription_message_def SubscribeNotificationEntry_def discovery_record_simps
      header_ok_def entry_header_code_def Let_def)

lemma decode_subscription:
  "decodeMessage_with_header h' (subscription_message st u ids memberID) (SD_body_code h (subscription_message st u ids memberID))
   = Inr [onRemoteClientSubscription ((SubscribeNotificationEntry u ids memberID)\<lparr>m_ttl := 0xFFFFFF\<rparr>) None]"
  using SD_read_with_header_code [OF subscription_message_fields(1) [of st u ids memberID], of h' "[]" h]
  by (simp add: decodeMessage_with_header_def Deserializer_new_dser SD_seen_def subscription_message_fields(4)
      SubscribeNotificationEntry_def take_bit_numeral_numeral)

section \<open>Properties\<close>

text \<open>
  C0. \<open>TCPServer::init\<close> succeeds exactly if the system provides a listening socket and one of
  the ports from the base port on, as many as allowed and counted modulo \<open>2 ^ 16\<close>, is free. It
  takes the first of them that is free, and announces it for every address of the host; if it
  fails nothing is announced.
\<close>

theorem tcp_port_range:
  "case TCPServer_init net n srv of (code, net', srv') \<Rightarrow>
     (isError code \<longleftrightarrow> \<not> (canSocket net \<and> canListen net \<and> (\<exists>i < n. portFree net (srv_port srv + of_nat i))))
     \<and> srv_instanceNamespace srv' = srv_instanceNamespace srv
     \<and> (if isError code then m_activePorts srv' = m_activePorts srv \<and> srv_listening srv' = srv_listening srv
        else (\<exists>i < n. srv_port srv' = srv_port srv + of_nat i \<and> (\<forall>j < i. \<not> portFree net (srv_port srv + of_nat j)))
          \<and> portFree net (srv_port srv') \<and> portFree net' = (portFree net)(srv_port srv' := False) \<and> srv_listening srv'
          \<and> m_activePorts srv' = m_activePorts srv @ map (\<lambda>address. \<lparr>ep_address = address, ep_port = srv_port srv'\<rparr>) (allIPAddresses net))"
proof (cases "bind_loop (portFree net) n (srv_port srv)")
  case (Pair found port)
  show ?thesis
  proof (cases found)
    case True
    with Pair bind_loop_True [of "portFree net" n "srv_port srv" port]
    show ?thesis by (auto simp: TCPServer_init_def isError_def Let_def)
  next
    case False
    with Pair bind_loop_False [of "portFree net" n "srv_port srv" port]
    show ?thesis by (auto simp: TCPServer_init_def isError_def Let_def)
  qed
qed

definition example_address :: IPV4Address where
  "example_address = \<lparr>numbers = 0x0100000A, m_interfaceName = ''eth0''\<rparr>"

definition example_network :: Network where
  "example_network = \<lparr>canSocket = True, portFree = (\<lambda>port. port \<noteq> 10032), canListen = True,
     allIPAddresses = [example_address], canMulticast = (\<lambda>_. True)\<rparr>"

theorem tcp_port_range_witness:
  "case TCPServer_init example_network 10 (TCPServer_new 10032) of (code, _, srv) \<Rightarrow>
     code = RC_OK \<and> m_activePorts srv = [\<lparr>ep_address = example_address, ep_port = 10033\<rparr>]"
proof -
  have "bind_loop (\<lambda>port. port \<noteq> 10032) 10 10032 = (True, 10033)" by code_simp
  then have "TCPServer_init example_network 10 (TCPServer_new 10032) =
      (RC_OK, example_network\<lparr>portFree := (portFree example_network)(10033 := False)\<rparr>,
       (TCPServer_new 10032)\<lparr>srv_port := 10033, srv_listening := True, m_activePorts := [\<lparr>ep_address = example_address, ep_port = 10033\<rparr>]\<rparr>)"
    by (simp add: TCPServer_init_def example_network_def TCPServer_new_def)
  with tcp_port_range [of example_network 10 "TCPServer_new 10032"] show ?thesis
    by (simp add: TCPServer_new_def isError_def)
qed

text \<open>
  C0. The manager and the dispatcher agree: as long as applications register and withdraw
  services, the services in the tables of the listening servers are registered services of this
  host, each under its identifier and at one server, and the servers have different ports. None
  of these commands fails, and a service that is new gets an end point if a port is left.
\<close>

theorem local_services_published:
  assumes "host_ok x" and "m_registered (clients (dispatcher x) c)" and "\<not> onTCP c"
  shows "(\<exists>x'. host_execute u onTCP (RegisterService c ids True) x = Inr x' \<and> host_ok x'
      \<and> (getService ids (dispatcher x) = None \<and> ports_left (network x) (tcpManager x) \<longrightarrow>
          (\<exists>s. getService ids (dispatcher x') = Some s \<and> getEndPoint (dispatcher x') s (tcpManager x') \<noteq> None)))
    \<and> (\<forall>s \<in> set (m_services (dispatcher x)).
        findService (dispatcher x) ids (m_registeredServices (clients (dispatcher x) c)) = Some s \<longrightarrow>
          (\<exists>x'. host_execute u onTCP (UnregisterService c ids) x = Inr x' \<and> host_ok x'))"
proof (intro conjI ballI impI)
  show "\<exists>x'. host_execute u onTCP (RegisterService c ids True) x = Inr x' \<and> host_ok x'
      \<and> (getService ids (dispatcher x) = None \<and> ports_left (network x) (tcpManager x) \<longrightarrow>
          (\<exists>s. getService ids (dispatcher x') = Some s \<and> getEndPoint (dispatcher x') s (tcpManager x') \<noteq> None))"
  proof (cases "getService ids (dispatcher x) = None")
    case True
    with register_new_published [OF assms(1,2), of onTCP ids u] assms(3) show ?thesis by blast
  next
    case False
    with register_known_quiet [OF assms(1,2) False, of u onTCP] show ?thesis by auto
  qed
qed (rule unregister_withdrawn [OF assms(1)])

definition example_host :: "endianness \<Rightarrow> Host" where
  "example_host h = \<lparr>hostOrder = h, network = example_network,
     dispatcher = join 0 example_ping ((Dispatcher_new example_ping (\<lambda>_. True) (\<lambda>_. True))
       \<lparr>m_serviceRegistrationListeners := [TCPManagerListener, ServiceAnnouncerListener]\<rparr>),
     tcpManager = TCPManager_new (\<lambda>_. RemoteTCPClient_new h \<lparr>ep_address = IPV4Address_new, ep_port = 0\<rparr> []) 10032,
     announcer = \<lparr>m_channels = [example_address], datagrams = [], counters = SessionCounters_init\<rparr>\<rparr>"

lemma example_host_ok: "dispatcher_ok (dispatcher (example_host h))" "host_ok (example_host h)"
proof -
  let ?d = "(Dispatcher_new example_ping (\<lambda>_. True) (\<lambda>_. True))
       \<lparr>m_serviceRegistrationListeners := [TCPManagerListener, ServiceAnnouncerListener]\<rparr>"
  have "dispatcher_ok ?d"
    using Dispatcher_new_ok [of example_ping "\<lambda>_. True" "\<lambda>_. True"] listeners_ok by simp
  then have "dispatcher_ok (join 0 example_ping ?d)"
    by (rule join_ok) (simp_all add: Dispatcher_new_def)
  then show d: "dispatcher_ok (dispatcher (example_host h))" by (simp add: example_host_def)
  have "manager_ok net d' (TCPManager_new cs port)" for net d' cs port
    by (simp add: manager_ok_def TCPManager_new_def holds_def)
  with d show "host_ok (example_host h)" by (simp add: host_ok_def) (simp add: example_host_def join_def record_calls_def)
qed

theorem local_services_published_witness:
  "\<exists>x' s. host_execute 0 (\<lambda>_. False) (RegisterService 0 (ServiceIDs_new 0x1234 1) True) (example_host LittleEndian) = Inr x'
     \<and> getService (ServiceIDs_new 0x1234 1) (dispatcher x') = Some s \<and> getEndPoint (dispatcher x') s (tcpManager x') \<noteq> None"
proof -
  have "m_registered (clients (dispatcher (example_host LittleEndian)) 0)"
    "getService (ServiceIDs_new 0x1234 1) (dispatcher (example_host LittleEndian)) = None"
    by (simp_all add: example_host_def getService_find Dispatcher_new_def)
  moreover have "ports_left (network (example_host LittleEndian)) (tcpManager (example_host LittleEndian))"
    by (auto simp: ports_left_def example_host_def example_network_def TCPManager_new_def intro!: exI [of _ 1])
  ultimately show ?thesis
    using local_services_published [OF example_host_ok(2), of LittleEndian 0 "\<lambda>_. False" 0 "ServiceIDs_new 0x1234 1"] by blast
qed

text \<open>
  C0. A service one host offers is learned by another, whatever the byte order of the two:
  \<open>ServiceAnnouncer::onServiceRegistered\<close> sends a datagram for each address on which the service
  can be reached, and if the other host does not know the service and the end point yet, any one
  of these datagrams makes its listener create a client for the end point and register the
  service for it as a service of another host.
\<close>

theorem offer_learned:
  assumes "getEndPoint d s m = Some i"
    and "dispatcher_ok (dispatcher y)" and "\<not> allocated (dispatcher y) new" and "length (m_clients (dispatcher y)) \<noteq> 65536"
    and "getService (getServiceIDs d s) (dispatcher y) = None"
    and "\<forall>ip \<in> set (m_activePorts (tcpServers m i)). stranger (tcpManager y) (seen_endpoint h (hostOrder y) ip)"
  shows "\<exists>sent. datagrams (ServiceAnnouncer_onServiceRegistered h d m s a) = datagrams a @ sent
    \<and> map fst sent = map fst (reachable_on (m_channels a) (m_activePorts (tcpServers m i)))
    \<and> (\<forall>(ch, bytes) \<in> set sent. \<exists>ip y' s'. ip \<in> set (m_activePorts (tcpServers m i)) \<and> IPV4Address_eq ch (ep_address ip)
        \<and> RemoteServiceListener_handleMessage ping new outcomes (Some bytes) y = Inr y' \<and> dispatcher_ok (dispatcher y')
        \<and> getService (getServiceIDs d s) (dispatcher y') = Some s'
        \<and> m_client (services (dispatcher y') s') = Some new \<and> \<not> m_isLocal (services (dispatcher y') s')
        \<and> (let server = m_serverIdentifier (tcpClients (tcpManager y') new)
           in toArray (hostOrder y) (ep_address server) = toArray h (ep_address ip) \<and> ep_port server = ep_port ip))"
proof -
  let ?ids = "getServiceIDs d s" and ?ips = "m_activePorts (tcpServers m i)"
  let ?sent = "offers h ?ids (counters a) (reachable_on (m_channels a) ?ips)"
  have "map fst (offers h ?ids st ps) = map fst ps" for st ps by (induction ps arbitrary: st) auto
  moreover have "\<exists>ip y' s'. ip \<in> set ?ips \<and> IPV4Address_eq ch (ep_address ip)
        \<and> RemoteServiceListener_handleMessage ping new outcomes (Some bytes) y = Inr y' \<and> dispatcher_ok (dispatcher y')
        \<and> getService ?ids (dispatcher y') = Some s'
        \<and> m_client (services (dispatcher y') s') = Some new \<and> \<not> m_isLocal (services (dispatcher y') s')
        \<and> (let server = m_serverIdentifier (tcpClients (tcpManager y') new)
           in toArray (hostOrder y) (ep_address server) = toArray h (ep_address ip) \<and> ep_port server = ep_port ip)"
    if mem: "(ch, bytes) \<in> set ?sent" for ch bytes
  proof -
    obtain st ip where ip: "(ch, ip) \<in> set (reachable_on (m_channels a) ?ips)"
      "bytes = contents (SD_serialize h (offer_message st ?ids ip) ByteArray_new)"
      using offers_member [OF mem] by blast
    then have "ip \<in> set ?ips" "IPV4Address_eq ch (ep_address ip)" by (auto simp: reachable_on_def)
    moreover obtain y' where "RemoteServiceListener_handleMessage ping new outcomes (Some bytes) y = Inr y'"
      "offered_by (seen_endpoint h (hostOrder y) ip) ?ids new (ucast (s_nextMulticastSessionID st))
        (Some (nextService (dispatcher y))) (tcpManager y', dispatcher y')"
      using handle_first_offer [OF assms(2-5) assms(6) [rule_format, OF \<open>ip \<in> set ?ips\<close>], of ping outcomes st] ip(2) by blast
    ultimately show ?thesis
      by (intro exI [of _ ip] exI [of _ y']) (auto simp: offered_by_def seen_endpoint_def toArray_assign Let_def)
  qed
  ultimately show ?thesis
    using announce_datagrams [OF assms(1), of h a] by (intro exI [of _ ?sent]) (simp add: Ball_def del: ex_simps)
qed

definition example_server :: TCPManager where
  "example_server = (tcpManager (example_host LittleEndian))\<lparr>m_servers := [0],
     tcpServers := (\<lambda>_. \<lparr>m_activePorts = [\<lparr>ep_address = example_address, ep_port = 10033\<rparr>], srv_port = 10033,
        srv_instanceNamespace = [0x1234 \<mapsto> 1], srv_listening = True\<rparr>)\<rparr>"

lemma example_server_endpoint:
  "getEndPoint (example_state True) 1 example_server = Some 0"
  "getServiceIDs (example_state True) 1 = ServiceIDs_new 0x1234 1"
  "m_activePorts (tcpServers example_server 0) = [\<lparr>ep_address = example_address, ep_port = 10033\<rparr>]"
proof -
  show ids: "getServiceIDs (example_state True) 1 = ServiceIDs_new 0x1234 1" by code_simp
  then show "getEndPoint (example_state True) 1 example_server = Some 0"
    by (simp add: getEndPoint_def TCPServer_isServiceRegistered_def example_server_def ServiceIDs_new_def)
qed (simp add: example_server_def)

lemma example_stranger:
  "\<not> allocated (dispatcher (example_host h)) 1" "length (m_clients (dispatcher (example_host h))) \<noteq> 65536"
  "getService ids (dispatcher (example_host h)) = None" "stranger (tcpManager (example_host h)) server"
  by (simp_all add: example_host_def getService_find Dispatcher_new_def stranger_def foreign_def TCPManager_new_def)

theorem offer_learned_witness:
  "\<exists>bytes y' s. datagrams (ServiceAnnouncer_onServiceRegistered LittleEndian (example_state True) example_server 1
         (announcer (example_host LittleEndian))) = [(example_address, bytes)]
     \<and> RemoteServiceListener_handleMessage example_ping 1 [] (Some bytes) (example_host BigEndian) = Inr y'
     \<and> getService (ServiceIDs_new 0x1234 1) (dispatcher y') = Some s \<and> m_client (services (dispatcher y') s) = Some 1"
proof -
  let ?y = "example_host BigEndian" and ?a = "announcer (example_host LittleEndian)"
  have "reachable_on (m_channels ?a) [\<lparr>ep_address = example_address, ep_port = 10033\<rparr>]
      = [(example_address, \<lparr>ep_address = example_address, ep_port = 10033\<rparr>)]" "datagrams ?a = []"
    by (simp_all add: reachable_on_def example_host_def IPV4Address_eq_def)
  then show ?thesis
    using offer_learned [OF example_server_endpoint(1) example_host_ok(1) example_stranger(1-3), of BigEndian LittleEndian ?a example_ping "[]"]
      example_stranger(4) [of BigEndian]
    by (auto simp: example_server_endpoint(2,3) simp del: One_nat_def)
qed

text \<open>
  C0. The third offer of a service brings the listening daemon down: it registers the service
  when the first arrives, writes a null pointer into the table of the client when the second
  arrives, because the service is known by then, and reads through that pointer when the third
  arrives. Offers are repeated whenever some host looks for services.
\<close>

theorem third_offer_crashes:
  assumes "getEndPoint d s m = Some i" and "m_activePorts (tcpServers m i) = [ip]" and "m_channels a = [ch]"
    and "IPV4Address_eq ch (ep_address ip)" and "counters a = counters_at u n" and "n + 2 < 65535"
    and "dispatcher_ok (dispatcher y)" and "\<not> allocated (dispatcher y) new" and "length (m_clients (dispatcher y)) \<noteq> 65536"
    and "getService (getServiceIDs d s) (dispatcher y) = None"
    and "stranger (tcpManager y) (seen_endpoint h (hostOrder y) ip)"
  shows "\<exists>b1 b2 b3 y1 y2. datagrams ((ServiceAnnouncer_onServiceRegistered h d m s ^^ 3) a) = datagrams a @ [(ch, b1), (ch, b2), (ch, b3)]
    \<and> RemoteServiceListener_handleMessage ping new outcomes (Some b1) y = Inr y1
    \<and> RemoteServiceListener_handleMessage ping new2 outcomes (Some b2) y1 = Inr y2
    \<and> RemoteServiceListener_handleMessage ping new3 outcomes (Some b3) y2 = Inl NullDereference"
proof -
  let ?f = "ServiceAnnouncer_onServiceRegistered h d m s" and ?ids = "getServiceIDs d s"
  let ?b = "\<lambda>k. contents (SD_serialize h (offer_message (counters_at u (n + k)) ?ids ip) ByteArray_new)"
  note a1 = announce_once [OF assms(1-4), of h]
  note a2 = announce_once [OF assms(1,2) a1(2) assms(4), of h]
  note a3 = announce_once [OF assms(1,2) a2(2) assms(4), of h]
  have sent: "datagrams ((?f ^^ 3) a) = datagrams a @ [(ch, ?b 0), (ch, ?b 1), (ch, ?b 2)]"
    using a1(1,3) a2(1,3) a3(1) by (simp add: assms(5) next_session_at numeral_eq_Suc)
  obtain y1 where y1: "RemoteServiceListener_handleMessage ping new outcomes (Some (?b 0)) y = Inr y1" "hostOrder y1 = hostOrder y"
    "offered_by (seen_endpoint h (hostOrder y) ip) ?ids new (ucast (s_nextMulticastSessionID (counters_at u (n + 0))))
      (Some (nextService (dispatcher y))) (tcpManager y1, dispatcher y1)"
    using handle_first_offer [OF assms(7-11)] by blast
  have o1: "offered_by (seen_endpoint h (hostOrder y1) ip) ?ids new (ucast (s_nextMulticastSessionID (counters_at u (n + 0))))
      (Some (nextService (dispatcher y))) (tcpManager y1, dispatcher y1)" using y1(2,3) by simp
  obtain y2 where y2: "RemoteServiceListener_handleMessage ping new2 outcomes (Some (?b 1)) y1 = Inr y2" "hostOrder y2 = hostOrder y1"
    "offered_by (seen_endpoint h (hostOrder y1) ip) ?ids new (ucast (s_nextMulticastSessionID (counters_at u (n + 1))))
      None (tcpManager y2, dispatcher y2)"
    using handle_later_offer [OF o1, of "counters_at u (n + 1)" ping new2 outcomes] session_order [of "n + 0" "n + 1" u] assms(6) by auto
  have o2: "offered_by (seen_endpoint h (hostOrder y2) ip) ?ids new (ucast (s_nextMulticastSessionID (counters_at u (n + 1))))
      None (tcpManager y2, dispatcher y2)" using y2(2,3) by simp
  have "RemoteServiceListener_handleMessage ping new3 outcomes (Some (?b 2)) y2 = Inl NullDereference"
    using handle_later_offer [OF o2, of "counters_at u (n + 2)" ping new3 outcomes] session_order [of "n + 1" "n + 2" u] assms(6) by auto
  with sent y1(1) y2(1) show ?thesis by blast
qed

theorem third_offer_crashes_witness:
  "\<exists>b1 b2 b3 y1 y2. datagrams ((ServiceAnnouncer_onServiceRegistered LittleEndian (example_state True) example_server 1 ^^ 3)
         (announcer (example_host LittleEndian))) = [(example_address, b1), (example_address, b2), (example_address, b3)]
    \<and> RemoteServiceListener_handleMessage example_ping 1 [] (Some b1) (example_host LittleEndian) = Inr y1
    \<and> RemoteServiceListener_handleMessage example_ping 2 [] (Some b2) y1 = Inr y2
    \<and> RemoteServiceListener_handleMessage example_ping 3 [] (Some b3) y2 = Inl NullDereference"
proof -
  let ?a = "announcer (example_host LittleEndian)"
  have a: "m_channels ?a = [example_address]" "datagrams ?a = []" "counters ?a = counters_at 0 0"
    by (simp_all add: example_host_def counters_at_def SessionCounters_init_def session_id_def)
  have e: "IPV4Address_eq example_address (ep_address \<lparr>ep_address = example_address, ep_port = 10033\<rparr>)"
    by (simp add: IPV4Address_eq_def)
  show ?thesis
    using third_offer_crashes [OF example_server_endpoint(1,3) a(1) e a(3) _ example_host_ok(1) example_stranger] a(2) by simp
qed

text \<open>
  C0. A subscription to a notification of a service on another host reaches that host: the
  client on TCP for the service writes one discovery message, and the client at the other end,
  whose decoder is given this header and this body, subscribes to the same notification.
\<close>

theorem subscription_reaches_host:
  assumes "isConnected (connection x)" and "sends (connection x) = Accepts n # r" and "44 \<le> n"
    and "m_ownInstanceNamespace x (serviceID (getServiceIDs d s)) \<in> {None, Some (Some s)}"
  shows "\<exists>msg st' x' ev. TCPClient_onNotificationSubscribed h uninitialised d s memberID (st, x) = Inr (st', x')
    \<and> wire (connection x') = wire (connection x) @ tcp_bytes msg (SD_body_code h msg)
    \<and> m_messageID msg = SERVICE_DISCOVERY_MEMBER_ID
    \<and> m_ownInstanceNamespace x' (serviceID (getServiceIDs d s)) = Some (Some s)
    \<and> decodeMessage_with_header h' msg (SD_body_code h msg) = Inr [ev]
    \<and> (\<forall>m' d'. TCPClient_onDiscovery h' ping new outcomes c ev (m', d')
         = bindE (subscribeToNotification c \<lparr>m_serviceIDs = getServiceIDs d s, m_memberID = memberID\<rparr> d') (\<lambda>d'. Inr (m', d')))"
proof -
  let ?ids = "getServiceIDs d s"
  let ?msg = "subscription_message st uninitialised ?ids memberID"
  let ?bytes = "tcp_bytes ?msg (SD_body_code h ?msg)"
  have ids: "ServiceIDs_new (serviceID ?ids) (instanceID ?ids) = ?ids" by (simp add: ServiceIDs_new_def)
  have len: "length ?bytes = 44"
    by (simp add: tcp_bytes_def subscription_message_fields(2) SOMEIP_HEADER_LENGTH_ON_NETWORK_def sizeof_SomeIPHeader_def)
  have same: "same_instance d (m_ownInstanceNamespace x (serviceID ?ids)) ?ids = Inr ()"
    using assms(4) by (auto simp: same_instance_def)
  have bytes: "take (ba_size (SD_serialize h ?msg ByteArray_new)) (getData (SD_serialize h ?msg ByteArray_new)) = ?bytes"
    using contents_SD_serialize [of ByteArray_new h ?msg] by (simp add: tcp_bytes_def flip: contents_def)
  obtain msg where new: "ServiceDiscoveryMessage_new st True = (next_session st, msg)"
    by (simp add: next_session_def) (metis prod.collapse)
  then have add: "addEntry msg (EventGroupEntryV (SubscribeNotificationEntry uninitialised ?ids memberID)) = ?msg"
    by (simp add: subscription_message_def)
  obtain c' where c': "writeBytesNonBlocking (connection x) ?bytes = Inr (IPC_OK, c')" "wire c' = wire (connection x) @ ?bytes"
    using assms(1-3) len by (auto simp: writeBytesNonBlocking_def socket_send_def isConnected_def increaseWrittenBytesCounter_def Let_def)
  have "TCPClient_onNotificationSubscribed h uninitialised d s memberID (st, x)
      = Inr (next_session st, x\<lparr>m_ownInstanceNamespace := (m_ownInstanceNamespace x)(serviceID ?ids := Some (Some s)), connection := c'\<rparr>)"
    using assms(1) same bytes c'(1)
    by (simp add: TCPClient_onNotificationSubscribed_def new add Let_def)
  then show ?thesis
    using c'(2)
    by (intro exI [of _ ?msg]) (simp add: subscription_message_fields(3) decode_subscription
        TCPClient_onRemoteClientSubscription_def SubscribeNotificationEntry_def MemberIDs_new_def ids)
qed

theorem subscription_reaches_host_witness:
  "\<exists>msg st' x'. TCPClient_onNotificationSubscribed LittleEndian 0xABCD (example_state True) 1 0x8005
       (SessionCounters_init, (RemoteTCPClient_new LittleEndian \<lparr>ep_address = example_address, ep_port = 10033\<rparr> [])
          \<lparr>connection := (TCPConnection_new LittleEndian True 7)\<lparr>sends := [Accepts 100]\<rparr>\<rparr>) = Inr (st', x')
     \<and> wire (connection x') = tcp_bytes msg (SD_body_code LittleEndian msg)"
proof -
  let ?x = "(RemoteTCPClient_new LittleEndian \<lparr>ep_address = example_address, ep_port = 10033\<rparr> [])
          \<lparr>connection := (TCPConnection_new LittleEndian True 7)\<lparr>sends := [Accepts 100]\<rparr>\<rparr>"
  have "isConnected (connection ?x)" "sends (connection ?x) = Accepts 100 # []" "wire (connection ?x) = []"
    "m_ownInstanceNamespace ?x sid \<in> {None, Some (Some 1)}" for sid
    by (simp_all add: RemoteTCPClient_new_def TCPConnection_new_def isConnected_def UNINITIALIZED_FILE_DESCRIPTOR_def)
  with subscription_reaches_host [where x = ?x and n = 100 and r = "[]" and d = "example_state True" and s = 1
      and h = LittleEndian and uninitialised = "0xABCD" and memberID = "0x8005" and st = SessionCounters_init]
  show ?thesis by force
qed

end
