(* ===== verification/Spec2Isabelle.thy ===== *)
theory Spec2Isabelle
  imports Serialization SomeIP_Streams Service_Discovery SomeIP_Messages Socket_Stream Activation Local_Client_Properties Client_Lib_Properties TCP_Manager_Properties
begin

text \<open>
  A verification development for the SOME/IP stack of this repository: a daemon that
  dispatches SOME/IP messages between applications of a host and between hosts, the library
  it is made of (\<open>src/lib\<close>, \<open>src/utilLib\<close>), and the library for applications
  (\<open>src/clientLib\<close>).

  \<^bold>\<open>The program.\<close> Applications connect to the daemon (\<open>src/daemon\<close>) over a Unix domain socket.
  They register services, subscribe to notifications and send messages, each as an IPC
  message: a length, a small header and user data in the byte order of the host. A
  \<open>LocalClient\<close> object of the daemon reads the frames of one application and calls the
  \<open>Dispatcher\<close>, which knows all clients, the services they provide and the notifications they
  have subscribed to, and passes requests, answers and notifications on. Services an
  application would provide, but which is not running, are started on demand
  (\<open>WellKnownService\<close>). Services of other hosts are found by service discovery messages and
  reached over TCP.

  \<^bold>\<open>The theories\<close>, from the bottom up.

  \<^item> \<open>SomeIP_Prelude\<close>: machine integers as words, their bytes in memory on hosts of either
    byte order, the outcomes of code that does not return (\<open>fault\<close>: a failed assertion, a null
    pointer, an access out of bounds, a use after deletion, an exception), loops that may
    fail (\<open>foldE\<close>).
  \<^item> \<open>Byte_Array\<close>: \<open>ByteArray\<close> of \<open>utilLib/common.h\<close>, which keeps its bytes in a static array
    and moves them to a vector when they outgrow it. The locale \<open>byte_buffer\<close> is its contract:
    it behaves as a list of bytes.
  \<^item> \<open>Serialization\<close>, \<open>SomeIP_Streams\<close>: \<open>Serializer\<close> and \<open>Deserializer\<close> of
    \<open>utilLib/serialization.h\<close> and the stream operators of \<open>lib/SomeIP-Serialization.h\<close>. The
    locale \<open>wire_codec\<close> says what it is for a writer and a reader to be inverse; it is
    interpreted for integers, strings, vectors and maps.
  \<^item> \<open>SomeIP_Header\<close>: identifiers, headers and addresses (\<open>lib/SomeIP.h\<close>, \<open>lib/Networking.h\<close>).
  \<^item> \<open>Service_Discovery\<close>: the messages of service discovery, with their entries, options and
    session numbers, and their decoder (\<open>lib/ServiceDiscovery.h\<close>).
  \<^item> \<open>IPC_Messages\<close>, \<open>SomeIP_Messages\<close>: the messages between applications and the daemon and the
    SOME/IP messages inside them (\<open>lib/ipc.h\<close>, \<open>lib/Message.h\<close>). Headers are structures laid
    over bytes; \<open>ipc_view\<close> and \<open>message_view\<close> relate the bytes to the record they stand for,
    and the later theories work on the records.
  \<^item> \<open>Socket_Stream\<close>: non-blocking and blocking connections with their congestion buffer and
    the framing of IPC messages (\<open>lib/SocketStreamConnection.h\<close>, \<open>lib/ipc/UDS.cpp\<close>).
  \<^item> \<open>Dispatcher_Core\<close>: the dispatcher, its services, notifications and clients, and well known
    services (\<open>lib/Dispatcher.cpp\<close>, \<open>lib/Client.cpp\<close>, \<open>daemon/Activation.cpp\<close>).
    \<open>Dispatcher_Laws\<close> has an equation for each operation and the consistency of the tables,
    \<open>Dispatcher_Routing\<close> the dispatching and the transition system of commands,
    \<open>Dispatcher_Properties\<close> what clients can rely on, \<open>Activation\<close> the services started on
    demand.
  \<^item> \<open>Local_Client\<close>, \<open>Local_Client_Properties\<close>: the daemon's side of an application
    (\<open>daemon/LocalClient.cpp\<close>) and what the application gets back.

  \<^bold>\<open>How state and effects are modelled.\<close> Objects that are shared by pointers are numbered; the
  vectors of pointers are lists of numbers, and the fields are kept in the state of the
  dispatcher. A deleted client is one that is not \<open>allocated\<close>. Calls of virtual functions of
  clients and listeners are recorded, in order, in \<open>effects\<close>; the operation goes on as if they
  changed nothing in the dispatcher. In the program they can: a write error disconnects a
  client at once, from within the loop that writes. This is noted as a finding; the theorems
  are about runs in which disconnections happen between the operations.

  System calls are part of the state: a connection has the list of outcomes the kernel will
  give to its sends and receives, so that loops over them end when the list does, and the
  theorems hold for every such list. No fuel is used anywhere.

  \<^bold>\<open>Build assumptions.\<close> Assertions are active, \<open>ENABLE_PING\<close> and \<open>ENABLE_SYSTEMD\<close> are not
  defined, structures have the layout of the common ABIs, and the byte order of the host is
  a parameter.

  \<^bold>\<open>Not modelled.\<close> Logging and \<open>toString\<close> functions, the command line parser, the set-up of
  sockets, the main loop of GLib and its wrappers, the vendored \<open>sd-daemon\<close>, and the threads
  of the client library.
\<close>

end
